(* ===== verification/Prelude.thy ===== *)
theory Prelude
  imports Main "HOL-Library.Word" "HOL-Library.Char_ord" "HOL-Library.List_Lexorder"
    "HOL-Library.Sublist"
begin

text \<open>
  The vocabulary that every component of the development shares: byte strings and machine
  integers, the error type of \<^verbatim>\<open>src/error.rs\<close> and results as sums, maps with a canonical
  representation (sorted association lists, for Rust's \<^verbatim>\<open>BTreeMap\<close> and for the contents of a
  \<^verbatim>\<open>HashMap\<close>), and the string routines of Rust's standard library that the key layouts use
  (\<^verbatim>\<open>split\<close>, \<^verbatim>\<open>starts_with\<close>, decimal and hexadecimal formatting).

  A Rust \<^verbatim>\<open>String\<close> and a \<^verbatim>\<open>Vec<u8>\<close> are both a list of bytes; a byte is a HOL \<open>char\<close>. With
  \<open>Char_ord\<close> and \<open>List_Lexorder\<close> the order \<open><\<close> on \<open>bytes\<close> is the bytewise lexicographic
  order, which is Rust's order on \<^verbatim>\<open>String\<close> and \<^verbatim>\<open>[u8]\<close> and RocksDB's default comparator.
\<close>

unbundle bit_operations_syntax

section \<open>Types\<close>

type_synonym bytes = "char list"
type_synonym u8 = "8 word"
type_synonym u16 = "16 word"
type_synonym u32 = "32 word"
type_synonym u64 = "64 word"

text \<open>The error values of \<^verbatim>\<open>DbError\<close>; the wrapped foreign errors carry their message.\<close>

datatype db_error =
    CollectionNotFound string
  | DocumentNotFound string
  | CollectionAlreadyExists string
  | InvalidDocument string
  | ConflictError string
  | ParseError string
  | ExecutionError string
  | BadRequest string
  | OperationNotSupported string
  | IoError string
  | JsonError string
  | InternalError string
  | NetworkError string
  | TransactionNotFound string
  | TransactionConflict string
  | DeadlockDetected string
  | TransactionTimeout string
  | IsolationViolation string
  | SchemaValidationError string
  | SchemaCompilationError string
  | Unauthorized string
  | Forbidden string
  | RoleNotFound string

type_synonym 'a db_result = "db_error + 'a"

named_theorems key_simps \<open>layout of the storage keys\<close>

section \<open>Results\<close>

fun res_bind :: "'e + 'a \<Rightarrow> ('a \<Rightarrow> 'e + 'b) \<Rightarrow> 'e + 'b" where
  "res_bind (Inl e) f = Inl e"
| "res_bind (Inr a) f = f a"

fun res_ok :: "'e + 'a \<Rightarrow> 'a option" where
  "res_ok (Inl e) = None"
| "res_ok (Inr a) = Some a"

fun map_err :: "('e \<Rightarrow> 'f) \<Rightarrow> 'e + 'a \<Rightarrow> 'f + 'a" where
  "map_err f (Inl e) = Inl (f e)"
| "map_err f (Inr a) = Inr a"

lemma res_bind_Inr_iff: "res_bind m f = Inr b \<longleftrightarrow> (\<exists>a. m = Inr a \<and> f a = Inr b)"
  by (cases m) auto

lemma res_bind_Inl_iff:
  "res_bind m f = Inl e \<longleftrightarrow> m = Inl e \<or> (\<exists>a. m = Inr a \<and> f a = Inl e)"
  by (cases m) auto

lemma map_err_Inr_iff [simp]: "map_err f m = Inr a \<longleftrightarrow> m = Inr a"
  by (cases m) auto

lemma map_err_Inl_iff: "map_err f m = Inl e \<longleftrightarrow> (\<exists>e'. m = Inl e' \<and> e = f e')"
  by (cases m) auto

lemma res_ok_Some_iff [simp]: "res_ok m = Some a \<longleftrightarrow> m = Inr a"
  by (cases m) auto

section \<open>Maps in canonical form\<close>

type_synonym ('k, 'v) smap = "('k \<times> 'v) list"

definition smap_ok :: "('k::linorder, 'v) smap \<Rightarrow> bool" where
  "smap_ok m \<longleftrightarrow> sorted_wrt (<) (map fst m)"

fun smap_put :: "'k::linorder \<Rightarrow> 'v \<Rightarrow> ('k, 'v) smap \<Rightarrow> ('k, 'v) smap" where
  "smap_put k v [] = [(k, v)]"
| "smap_put k v (p # m) =
     (if fst p < k then p # smap_put k v m
      else (k, v) # (if fst p = k then m else p # m))"

definition smap_del :: "'k \<Rightarrow> ('k, 'v) smap \<Rightarrow> ('k, 'v) smap" where
  "smap_del k m = filter (\<lambda>p. fst p \<noteq> k) m"

definition smap_get_or :: "'v \<Rightarrow> ('k, 'v) smap \<Rightarrow> 'k \<Rightarrow> 'v" where
  "smap_get_or d m k = (case map_of m k of None \<Rightarrow> d | Some v \<Rightarrow> v)"

lemma smap_ok_Nil [simp]: "smap_ok []"
  by (simp add: smap_ok_def)

lemma smap_ok_Cons [simp]:
  "smap_ok (p # m) \<longleftrightarrow> smap_ok m \<and> (\<forall>q \<in> set m. fst p < fst q)"
  by (auto simp: smap_ok_def)

lemma set_smap_put_subset: "set (smap_put k v m) \<subseteq> insert (k, v) (set m)"
  by (induction m) auto

lemma smap_ok_put [simp]: "smap_ok m \<Longrightarrow> smap_ok (smap_put k v m)"
proof (induction m)
  case (Cons p m)
  have "q \<in> set (smap_put k v m) \<Longrightarrow> fst p < k \<Longrightarrow> fst p < fst q" for q
    using Cons.prems set_smap_put_subset [of k v m] by auto
  with Cons show ?case by (fastforce intro: less_trans)
qed simp

lemma smap_ok_notin: "smap_ok (p # m) \<Longrightarrow> map_of m (fst p) = None"
  by (auto simp: map_of_eq_None_iff)

lemma smap_ok_below: "smap_ok m \<Longrightarrow> \<forall>q \<in> set m. k < fst q \<Longrightarrow> map_of m k = None"
  by (auto simp: map_of_eq_None_iff)

lemma map_of_smap_put [simp]: "smap_ok m \<Longrightarrow> map_of (smap_put k v m) = (map_of m)(k \<mapsto> v)"
  by (induction m) (auto simp: fun_eq_iff)

lemma smap_ok_del [simp]: "smap_ok m \<Longrightarrow> smap_ok (smap_del k m)"
  by (induction m) (auto simp: smap_del_def)

lemma map_of_smap_del [simp]: "map_of (smap_del k m) = (map_of m)(k := None)"
  by (induction m) (auto simp: smap_del_def fun_eq_iff)

lemma smap_ok_distinct: "smap_ok m \<Longrightarrow> distinct (map fst m)"
  by (induction m) fastforce+

lemma smap_in_iff: "smap_ok m \<Longrightarrow> (k, v) \<in> set m \<longleftrightarrow> map_of m k = Some v"
  using smap_ok_distinct by fastforce

text \<open>A canonical map is determined by its lookups.\<close>

lemma smap_eqI:
  assumes "smap_ok m" and "smap_ok n" and "map_of m = map_of n"
  shows "m = n"
proof -
  have "set m = set n"
    using assms by (auto simp: smap_in_iff)
  moreover have "sorted_wrt (\<lambda>p q. fst p < fst q) m" "sorted_wrt (\<lambda>p q. fst p < fst q) n"
    using assms(1,2) by (simp_all add: smap_ok_def sorted_wrt_map)
  ultimately show ?thesis
    using assms(1,2)
  proof (induction m arbitrary: n)
    case (Cons p m)
    then obtain q n' where n: "n = q # n'" by (cases n) auto
    have "p = q"
    proof (rule ccontr)
      assume "p \<noteq> q"
      with Cons.prems(1) n have "p \<in> set n'" "q \<in> set m" by auto
      with Cons.prems(4,5) n have "fst q < fst p" "fst p < fst q" by auto
      then show False by simp
    qed
    moreover have "p \<notin> set m" "q \<notin> set n'"
      using Cons.prems(4,5) n by auto
    ultimately have "set m = set n'"
      using Cons.prems(1) n by auto
    with Cons n \<open>p = q\<close> show ?case by simp
  qed simp
qed

lemma smap_get_or_put [simp]:
  "smap_ok m \<Longrightarrow> smap_get_or d (smap_put k v m) j = (if j = k then v else smap_get_or d m j)"
  by (simp add: smap_get_or_def)

section \<open>Order of byte strings\<close>

text \<open>Two strings that differ before either ends: their order does not depend on what follows.\<close>

fun lt_at :: "'a::linorder list \<Rightarrow> 'a list \<Rightarrow> bool" where
  "lt_at (x # xs) (y # ys) \<longleftrightarrow> x < y \<or> x = y \<and> lt_at xs ys"
| "lt_at _ _ \<longleftrightarrow> False"

lemma lt_at_append: "lt_at xs ys \<Longrightarrow> lt_at (xs @ s) (ys @ t)"
  by (induction xs ys rule: lt_at.induct) auto

lemma lt_at_prefix [simp]: "lt_at (p @ xs) (p @ ys) \<longleftrightarrow> lt_at xs ys"
  by (induction p) auto

lemma less_append_same [simp]: "p @ xs < p @ ys \<longleftrightarrow> xs < ys" for xs ys :: "'a::linorder list"
  by (induction p) auto

lemma lt_at_less: "lt_at xs ys \<Longrightarrow> xs < ys"
  by (induction xs ys rule: lt_at.induct) auto

lemma less_lt_at: "xs < ys \<Longrightarrow> \<not> prefix xs ys \<Longrightarrow> lt_at xs ys"
  by (induction xs ys rule: lt_at.induct) auto

lemma less_same_length: "xs < ys \<Longrightarrow> length xs = length ys \<Longrightarrow> lt_at xs ys"
  by (induction xs ys rule: lt_at.induct) auto

lemma lt_at_map:
  "lt_at xs ys \<Longrightarrow> (\<And>x y. x \<in> set xs \<Longrightarrow> y \<in> set ys \<Longrightarrow> x < y \<Longrightarrow> f x < f y) \<Longrightarrow>
   lt_at (map f xs) (map f ys)"
  by (induction xs ys rule: lt_at.induct) auto

text \<open>The last \<open>n\<close> digits of a number in base \<open>b\<close>, most significant first.\<close>

primrec digits :: "nat \<Rightarrow> nat \<Rightarrow> nat \<Rightarrow> nat list" where
  "digits b 0 v = []"
| "digits b (Suc n) v = (v div b ^ n mod b) # digits b n v"

lemma length_digits [simp]: "length (digits b n v) = n"
  by (induction n) auto

lemma set_digits: "0 < b \<Longrightarrow> d \<in> set (digits b n v) \<Longrightarrow> d < b"
  by (induction n) auto

lemma digits_split: "v mod b ^ Suc n = (v div b ^ n mod b) * b ^ n + v mod b ^ n" for v b :: nat
  using mod_mult2_eq [of v "b ^ n" b] by (simp add: mult.commute)

lemma foldl_digits: "foldl (\<lambda>acc d. acc * b + d) a (digits b n v) = a * b ^ n + v mod b ^ n"
proof (induction n arbitrary: a)
  case (Suc n)
  then show ?case
    unfolding digits.simps foldl_Cons Suc.IH digits_split by (simp add: algebra_simps)
qed simp

lemma digits_lt_at: "0 < b \<Longrightarrow> v mod b ^ n < w mod b ^ n \<Longrightarrow> lt_at (digits b n v) (digits b n w)"
proof (induction n)
  case (Suc n)
  let ?q = "\<lambda>v. v div b ^ n mod b"
  have small: "w mod b ^ n < b ^ n" using Suc.prems(1) by simp
  have "?q v \<le> ?q w"
  proof (rule ccontr)
    assume "\<not> ?q v \<le> ?q w"
    then have "(?q w + 1) * b ^ n \<le> ?q v * b ^ n" by (intro mult_right_mono) auto
    then have "?q w * b ^ n + b ^ n \<le> ?q v * b ^ n" by simp
    with Suc.prems(2) small show False unfolding digits_split by linarith
  qed
  moreover have "v mod b ^ n < w mod b ^ n" if "?q v = ?q w"
    using Suc.prems(2) that unfolding digits_split by simp
  ultimately show ?case using Suc.IH Suc.prems(1) by (cases "?q v = ?q w") auto
qed simp

section \<open>Strings of the standard library\<close>

definition starts_with :: "bytes \<Rightarrow> bytes \<Rightarrow> bool" where
  "starts_with s p \<longleftrightarrow> take (length p) s = p"

lemma starts_with_prefix: "starts_with s p \<longleftrightarrow> prefix p s"
  by (auto simp: starts_with_def prefix_def) (metis append_take_drop_id)

lemma starts_with_append [simp]: "starts_with (p @ s) p"
  by (simp add: starts_with_def)

lemma starts_with_iff: "starts_with s p \<longleftrightarrow> (\<exists>r. s = p @ r)"
  by (simp add: starts_with_prefix prefix_def)

text \<open>\<^verbatim>\<open>str::split(char)\<close>: always at least one part.\<close>

fun split_on :: "char \<Rightarrow> string \<Rightarrow> string list" where
  "split_on c [] = [[]]"
| "split_on c (x # xs) =
     (if x = c then [] # split_on c xs
      else (case split_on c xs of [] \<Rightarrow> [[x]] | p # ps \<Rightarrow> (x # p) # ps))"

lemma split_on_nonempty [simp]: "split_on c s \<noteq> []"
  by (induction s) (auto split: list.splits)

lemma split_on_no_sep: "c \<notin> set s \<Longrightarrow> split_on c s = [s]"
  by (induction s) auto

text \<open>\<^verbatim>\<open>slice::join\<close>.\<close>

fun join :: "string \<Rightarrow> string list \<Rightarrow> string" where
  "join sep [] = []"
| "join sep [x] = x"
| "join sep (x # y # ys) = x @ sep @ join sep (y # ys)"

text \<open>The part of a string before and after the first occurrence of a separator.\<close>

definition before :: "char \<Rightarrow> string \<Rightarrow> string" where
  "before c s = takeWhile (\<lambda>x. x \<noteq> c) s"

definition after :: "char \<Rightarrow> string \<Rightarrow> string" where
  "after c s = drop 1 (dropWhile (\<lambda>x. x \<noteq> c) s)"

lemma before_append [simp]: "c \<notin> set a \<Longrightarrow> before c (a @ c # b) = a"
  by (induction a) (auto simp: before_def)

lemma after_append [simp]: "c \<notin> set a \<Longrightarrow> after c (a @ c # b) = b"
  by (induction a) (auto simp: after_def)

lemma sep_inject:
  fixes c :: char
  assumes "a @ c # b = a' @ c # b'" and "c \<notin> set a" and "c \<notin> set a'"
  shows "a = a' \<and> b = b'"
proof -
  have "before c (a @ c # b) = before c (a' @ c # b')" "after c (a @ c # b) = after c (a' @ c # b')"
    using assms(1) by simp_all
  with assms(2,3) show ?thesis by simp
qed

text \<open>Decimal formatting and parsing of unsigned integers.\<close>

definition digit_char :: "nat \<Rightarrow> char" where
  "digit_char d = char_of (48 + d)"

fun show_nat :: "nat \<Rightarrow> string" where
  "show_nat n = (if n < 10 then [digit_char n] else show_nat (n div 10) @ [digit_char (n mod 10)])"

declare show_nat.simps [simp del]

fun digit_val :: "char \<Rightarrow> nat option" where
  "digit_val c = (let d = of_char c :: nat in if 48 \<le> d \<and> d \<le> 57 then Some (d - 48) else None)"

fun parse_digits :: "nat \<Rightarrow> string \<Rightarrow> nat option" where
  "parse_digits acc [] = Some acc"
| "parse_digits acc (c # cs) =
     (case digit_val c of None \<Rightarrow> None | Some d \<Rightarrow> parse_digits (10 * acc + d) cs)"

text \<open>\<^verbatim>\<open>str::parse::<u64>\<close>: an optional leading \<open>+\<close>, at least one digit, no overflow.\<close>

definition parse_u64 :: "string \<Rightarrow> u64 option" where
  "parse_u64 s =
     (let t = (if s \<noteq> [] \<and> hd s = CHR ''+'' then tl s else s)
      in if t = [] then None
         else (case parse_digits 0 t of
                 None \<Rightarrow> None
               | Some n \<Rightarrow> if n < 2 ^ 64 then Some (of_nat n) else None))"

definition show_u64 :: "u64 \<Rightarrow> string" where
  "show_u64 n = show_nat (unat n)"

lemma digit_val_digit_char [simp]: "d < 10 \<Longrightarrow> digit_val (digit_char d) = Some d"
  by (simp add: digit_char_def Let_def)

declare digit_val.simps [simp del]

lemma parse_digits_append:
  "parse_digits acc (s @ t) = (case parse_digits acc s of None \<Rightarrow> None | Some n \<Rightarrow> parse_digits n t)"
  by (induction s arbitrary: acc) (auto split: option.splits)

lemma show_nat_nonempty [simp]: "show_nat n \<noteq> []"
  by (subst show_nat.simps) simp

lemma parse_show_nat: "parse_digits 0 (show_nat n) = Some n"
proof (induction n rule: show_nat.induct)
  case (1 n)
  then show ?case
    by (subst show_nat.simps) (simp add: parse_digits_append)
qed

lemma set_show_nat: "set (show_nat n) \<subseteq> digit_char ` {..<10}"
proof (induction n rule: show_nat.induct)
  case (1 n)
  then show ?case by (subst show_nat.simps) auto
qed

lemma digit_char_range: "d < 10 \<Longrightarrow> of_char (digit_char d) = (48 + d :: nat)"
  by (simp add: digit_char_def)

lemma show_nat_no_sep:
  assumes "of_char c < (48 :: nat) \<or> of_char c > (57 :: nat)"
  shows "c \<notin> set (show_nat n)"
proof
  assume "c \<in> set (show_nat n)"
  then obtain d where "d < 10" "c = digit_char d"
    using set_show_nat by fastforce
  with assms digit_char_range [of d] show False by auto
qed

lemma show_nat_no_colon [simp]: "CHR '':'' \<notin> set (show_nat n)"
  by (rule show_nat_no_sep) simp

lemma hd_show_nat_plus: "hd (show_nat n) \<noteq> CHR ''+''"
proof -
  have "CHR ''+'' \<notin> set (show_nat n)"
    by (rule show_nat_no_sep) simp
  then show ?thesis
    by (metis list.set_sel(1) show_nat_nonempty)
qed

lemma unat_u64_lt: "unat (n :: u64) < 2 ^ 64"
  using unsigned_less [of n] by simp

lemma parse_show_u64 [simp]: "parse_u64 (show_u64 n) = Some n"
  by (simp add: parse_u64_def show_u64_def parse_show_nat hd_show_nat_plus Let_def
        unat_u64_lt [simplified])

lemma show_u64_inject [simp]: "show_u64 a = show_u64 b \<longleftrightarrow> a = b"
  by (metis parse_show_u64 option.inject)

lemma show_u64_no_colon [simp]: "CHR '':'' \<notin> set (show_u64 n)"
  by (simp add: show_u64_def)


text \<open>Hexadecimal digits: fixed-width formatting (\<^verbatim>\<open>{:016x}\<close> of a \<^verbatim>\<open>u64\<close>, \<^verbatim>\<open>{:08x}\<close> of a \<^verbatim>\<open>u32\<close>), the
  parser \<^verbatim>\<open>from_str_radix(_, 16)\<close> and \<^verbatim>\<open>hex::encode\<close>.\<close>

definition hex_digit :: "nat \<Rightarrow> char" where
  "hex_digit d = char_of (if d < 10 then 48 + d else 87 + d)"

definition hex_val :: "char \<Rightarrow> nat option" where
  "hex_val c =
     (let d = of_char c :: nat
      in if 48 \<le> d \<and> d \<le> 57 then Some (d - 48)
         else if 97 \<le> d \<and> d \<le> 102 then Some (d - 87)
         else if 65 \<le> d \<and> d \<le> 70 then Some (d - 55)
         else None)"

definition hex_fixed :: "nat \<Rightarrow> nat \<Rightarrow> string" where
  "hex_fixed w v = map hex_digit (digits 16 w v)"

fun parse_hex_digits :: "nat \<Rightarrow> string \<Rightarrow> nat option" where
  "parse_hex_digits acc [] = Some acc"
| "parse_hex_digits acc (c # cs) =
     (case hex_val c of None \<Rightarrow> None | Some d \<Rightarrow> parse_hex_digits (acc * 16 + d) cs)"

definition from_str_radix16 :: "nat \<Rightarrow> string \<Rightarrow> nat option" where
  "from_str_radix16 bits s =
     (let t = (if s \<noteq> [] \<and> hd s = CHR ''+'' then tl s else s)
      in if t = [] then None
         else (case parse_hex_digits 0 t of
                 None \<Rightarrow> None
               | Some n \<Rightarrow> if n < 2 ^ bits then Some n else None))"

definition hex_encode :: "bytes \<Rightarrow> string" where
  "hex_encode bs = concat (map (\<lambda>c. map hex_digit (digits 16 2 (of_char c))) bs)"

lemma hex_val_digit [simp]: "d < 16 \<Longrightarrow> hex_val (hex_digit d) = Some d"
  by (simp add: hex_val_def hex_digit_def Let_def)

lemma hex_digit_less: "d < e \<Longrightarrow> e < 16 \<Longrightarrow> hex_digit d < hex_digit e"
  by (auto simp: hex_digit_def less_char_def)

lemma hex_digit_not:
  "d < 16 \<Longrightarrow> of_char c < (48 :: nat) \<or> (57 < (of_char c :: nat) \<and> (of_char c :: nat) < 97) \<Longrightarrow>
   hex_digit d \<noteq> c"
  by (auto simp: hex_digit_def)

lemma hex_digits_no_sep:
  assumes "of_char c < (48 :: nat) \<or> (57 < (of_char c :: nat) \<and> (of_char c :: nat) < 97)"
  shows "c \<notin> set (map hex_digit (digits 16 w v))"
  using hex_digit_not [OF _ assms] set_digits [of 16] by fastforce

lemma of_char_lt_256: "(of_char c :: nat) < 256"
proof -
  have "(of_char c :: nat) mod 256 < 256" by (rule mod_less_divisor) simp
  then show ?thesis by simp
qed

lemma parse_hex_map:
  "\<forall>d \<in> set ds. d < 16 \<Longrightarrow>
   parse_hex_digits a (map hex_digit ds) = Some (foldl (\<lambda>acc d. acc * 16 + d) a ds)"
  by (induction ds arbitrary: a) auto

lemma from_str_radix16_hex_fixed:
  assumes "0 < w" "v < 16 ^ w" "v < 2 ^ bits"
  shows "from_str_radix16 bits (hex_fixed w v) = Some v"
proof -
  have "\<forall>d \<in> set (digits 16 w v). d < 16" by (auto intro: set_digits)
  then have p: "parse_hex_digits 0 (hex_fixed w v) = Some v"
    using assms by (simp add: hex_fixed_def parse_hex_map foldl_digits)
  have ne: "hex_fixed w v \<noteq> []" using assms by (cases w) (auto simp: hex_fixed_def)
  have "CHR ''+'' \<notin> set (hex_fixed w v)"
    unfolding hex_fixed_def by (rule hex_digits_no_sep) simp
  then have "hd (hex_fixed w v) \<noteq> CHR ''+''" using ne by (metis list.set_sel(1))
  with p ne assms show ?thesis by (simp add: from_str_radix16_def Let_def)
qed

lemma hex_fixed_lt_at: "v < w \<Longrightarrow> w < 16 ^ n \<Longrightarrow> lt_at (hex_fixed n v) (hex_fixed n w)"
  unfolding hex_fixed_def
  by (intro lt_at_map digits_lt_at hex_digit_less) (auto intro: set_digits)

lemma length_hex_fixed [simp]: "length (hex_fixed w v) = w"
  by (simp add: hex_fixed_def)

lemma hex_fixed_no_dash [simp]: "CHR ''-'' \<notin> set (hex_fixed w v)"
  unfolding hex_fixed_def by (rule hex_digits_no_sep) simp

lemma hex_encode_Cons:
  "hex_encode (c # cs) = map hex_digit (digits 16 2 (of_char c)) @ hex_encode cs"
  by (simp add: hex_encode_def)

lemma hex_encode_append: "hex_encode (xs @ ys) = hex_encode xs @ hex_encode ys"
  by (simp add: hex_encode_def)

lemma hex_encode_lt_at: "lt_at xs ys \<Longrightarrow> lt_at (hex_encode xs) (hex_encode ys)"
proof (induction xs ys rule: lt_at.induct)
  case (1 x xs y ys)
  have "lt_at (hex_encode (x # xs)) (hex_encode (y # ys))" if "x < y"
  proof -
    have "(of_char x :: nat) < of_char y" using that by (simp add: less_char_def)
    then have "lt_at (hex_fixed 2 (of_char x)) (hex_fixed 2 (of_char y))"
      using of_char_lt_256 [of y] by (intro hex_fixed_lt_at) auto
    then show ?thesis unfolding hex_encode_Cons hex_fixed_def by (rule lt_at_append)
  qed
  with 1 show ?case by (auto simp: hex_encode_Cons)
qed auto

lemma hex_encode_no_sep:
  assumes "of_char c < (48 :: nat) \<or> (57 < (of_char c :: nat) \<and> (of_char c :: nat) < 97)"
  shows "c \<notin> set (hex_encode bs)"
  using hex_digits_no_sep [OF assms] by (simp add: hex_encode_def)

lemma hex_encode_no_colon [simp]: "CHR '':'' \<notin> set (hex_encode bs)"
  by (rule hex_encode_no_sep) simp

lemma word_less_plus_1: "x \<noteq> - 1 \<Longrightarrow> x < x + 1" for x :: "'w::len word"
proof -
  assume "x \<noteq> - 1"
  then have "1 + x \<noteq> 0" by (metis add.commute eq_neg_iff_add_eq_0)
  then show ?thesis by (simp add: word_less_nat_alt unatSuc add.commute)
qed

end
