(* ===== verification/Json.thy ===== *)
theory Json
  imports Prelude
begin

text \<open>
  JSON values as the program sees them: the \<^verbatim>\<open>serde_json::Value\<close> data type, the accessors of it
  that the sources call, and \<^verbatim>\<open>extract_field_value\<close> of \<^verbatim>\<open>src/storage/index.rs\<close>.

  A number is an unsigned 64-bit integer, a negative signed 64-bit integer or an IEEE double, as in
  \<^verbatim>\<open>serde_json::Number\<close>; a double is its bit pattern. An object is a \<^verbatim>\<open>BTreeMap\<close> (the build does
  not enable \<^verbatim>\<open>preserve_order\<close>), so a canonical \<open>smap\<close>.

  What \<^verbatim>\<open>serde_json\<close> computes (conversions of numbers, the text of a value, the parser) is not part
  of the repository: it is the record \<open>serde\<close>, a parameter of every definition that uses it.
\<close>

section \<open>Values\<close>

datatype number = PosInt u64 | NegInt u64 | Float u64

datatype json =
    JNull
  | JBool bool
  | JNumber number
  | JString string
  | JArray "json list"
  | JObject "(string \<times> json) list"

type_synonym json_obj = "(string \<times> json) list"

record serde =
  num_as_f64 :: "number \<Rightarrow> u64 option"
  num_from_f64 :: "u64 \<Rightarrow> number option"
  value_to_string :: "json \<Rightarrow> string"
  value_from_slice :: "bytes \<Rightarrow> json option"

fun is_null :: "json \<Rightarrow> bool" where
  "is_null JNull = True"
| "is_null _ = False"

fun as_str :: "json \<Rightarrow> string option" where
  "as_str (JString s) = Some s"
| "as_str _ = None"

fun as_object :: "json \<Rightarrow> json_obj option" where
  "as_object (JObject m) = Some m"
| "as_object _ = None"

fun as_array :: "json \<Rightarrow> json list option" where
  "as_array (JArray xs) = Some xs"
| "as_array _ = None"

fun as_u64 :: "json \<Rightarrow> u64 option" where
  "as_u64 (JNumber (PosInt n)) = Some n"
| "as_u64 _ = None"

text \<open>\<^verbatim>\<open>Value::get(&str)\<close>: a field of an object, nothing on any other value.\<close>

fun json_get :: "json \<Rightarrow> string \<Rightarrow> json option" where
  "json_get (JObject m) k = map_of m k"
| "json_get _ _ = None"

lemma is_null_iff [simp]: "is_null v \<longleftrightarrow> v = JNull"
  by (cases v) auto

lemma as_object_Some_iff [simp]: "as_object v = Some m \<longleftrightarrow> v = JObject m"
  by (cases v) auto

lemma as_str_Some_iff [simp]: "as_str v = Some s \<longleftrightarrow> v = JString s"
  by (cases v) auto

text \<open>Every object inside a value is a canonical map.\<close>

fun json_wf :: "json \<Rightarrow> bool" where
  "json_wf (JArray xs) \<longleftrightarrow> list_all json_wf xs"
| "json_wf (JObject m) \<longleftrightarrow> smap_ok m \<and> list_all (\<lambda>p. json_wf (snd p)) m"
| "json_wf _ \<longleftrightarrow> True"

section \<open>An instance of the parameter\<close>

text \<open>
  A concrete \<open>serde\<close> for the witnesses: integers below \<open>2\<^sup>5\<^sup>3\<close> convert exactly, a double comes back
  as itself unless it is an infinity or a NaN, and the empty array and object print and parse.
\<close>

fun bit_len :: "nat \<Rightarrow> nat" where
  "bit_len n = (if n = 0 then 0 else Suc (bit_len (n div 2)))"

definition f64_of_nat :: "nat \<Rightarrow> u64" where
  "f64_of_nat n =
     (if n = 0 then 0
      else let l = bit_len n
           in of_nat ((1022 + l) * 2 ^ 52 + (n * 2 ^ 53 div 2 ^ l - 2 ^ 52)))"

definition demo_serde :: serde where
  "demo_serde = \<lparr>
     num_as_f64 = (\<lambda>n. case n of
        PosInt w \<Rightarrow> Some (f64_of_nat (unat w))
      | NegInt w \<Rightarrow> Some (0x8000000000000000 + f64_of_nat (unat (- w)))
      | Float b \<Rightarrow> Some b),
     num_from_f64 = (\<lambda>b. if unat b div 2 ^ 52 mod 2048 = 2047 then None else Some (Float b)),
     value_to_string = (\<lambda>v. case v of JArray _ \<Rightarrow> ''[]'' | _ \<Rightarrow> ''{}''),
     value_from_slice = (\<lambda>s. if s = ''[]'' then Some (JArray [])
                             else if s = ''{}'' then Some (JObject []) else None) \<rparr>"

lemma demo_serde_simps [simp]:
  "num_as_f64 demo_serde (PosInt w) = Some (f64_of_nat (unat w))"
  "num_as_f64 demo_serde (Float b) = Some b"
  "num_from_f64 demo_serde b =
     (if unat b div 2 ^ 52 mod 2048 = 2047 then None else Some (Float b))"
  "value_to_string demo_serde (JArray xs) = ''[]''"
  "value_from_slice demo_serde ''[]'' = Some (JArray [])"
  by (simp_all add: demo_serde_def)

section \<open>Field paths\<close>

text \<open>The loop of \<^verbatim>\<open>extract_field_value\<close>: it follows the parts of the path and returns null at
  the first part that is missing.\<close>

fun extract_path :: "json \<Rightarrow> string list \<Rightarrow> json" where
  "extract_path current [] = current"
| "extract_path current (part # parts) =
     (case json_get current part of
        Some val \<Rightarrow> extract_path val parts
      | None \<Rightarrow> JNull)"

definition extract_field_value :: "json \<Rightarrow> string \<Rightarrow> json" where
  "extract_field_value doc field_path = extract_path doc (split_on (CHR ''.'') field_path)"

lemma extract_path_JNull: "parts \<noteq> [] \<Longrightarrow> extract_path JNull parts = JNull"
  by (cases parts) auto

lemma extract_path_append:
  "extract_path d (ps @ qs) =
     (if qs = [] then extract_path d ps else extract_path (extract_path d ps) qs)"
  by (induction ps arbitrary: d) (auto simp: extract_path_JNull split: option.splits)

lemma extract_field_value_simple:
  "CHR ''.'' \<notin> set f \<Longrightarrow>
   extract_field_value (JObject m) f = (case map_of m f of None \<Rightarrow> JNull | Some v \<Rightarrow> v)"
  by (simp add: extract_field_value_def split_on_no_sep split: option.splits)

end
