(* ===== verification/Utf8.thy ===== *)
theory Utf8
  imports Prelude
begin

text \<open>
  UTF-8, as Rust's \<^verbatim>\<open>str\<close> has it: the validity check of \<^verbatim>\<open>String::from_utf8\<close>, the characters of a
  string (\<^verbatim>\<open>chars()\<close>) and back, and \<^verbatim>\<open>trim\<close>. A character is its code point, a natural number.
\<close>

section \<open>Validity\<close>

text \<open>The check of \<^verbatim>\<open>String::from_utf8\<close>.\<close>

fun utf8_cont :: "char \<Rightarrow> bool" where
  "utf8_cont c \<longleftrightarrow> 0x80 \<le> (of_char c :: nat) \<and> (of_char c :: nat) \<le> 0xBF"

definition utf8_second_ok :: "nat \<Rightarrow> char \<Rightarrow> bool" where
  "utf8_second_ok b c \<longleftrightarrow>
     (let n = (of_char c :: nat)
      in if b = 0xE0 then 0xA0 \<le> n \<and> n \<le> 0xBF
         else if b = 0xED then 0x80 \<le> n \<and> n \<le> 0x9F
         else if b = 0xF0 then 0x90 \<le> n \<and> n \<le> 0xBF
         else if b = 0xF4 then 0x80 \<le> n \<and> n \<le> 0x8F
         else 0x80 \<le> n \<and> n \<le> 0xBF)"

fun utf8_valid :: "bytes \<Rightarrow> bool" where
  "utf8_valid [] = True"
| "utf8_valid (c # cs) =
     (let b = (of_char c :: nat)
      in if b < 0x80 then utf8_valid cs
         else if 0xC2 \<le> b \<and> b \<le> 0xDF then
           (case cs of c1 # r \<Rightarrow> utf8_cont c1 \<and> utf8_valid r | _ \<Rightarrow> False)
         else if 0xE0 \<le> b \<and> b \<le> 0xEF then
           (case cs of
              c1 # c2 # r \<Rightarrow> utf8_second_ok b c1 \<and> utf8_cont c2 \<and> utf8_valid r
            | _ \<Rightarrow> False)
         else if 0xF0 \<le> b \<and> b \<le> 0xF4 then
           (case cs of
              c1 # c2 # c3 # r \<Rightarrow>
                utf8_second_ok b c1 \<and> utf8_cont c2 \<and> utf8_cont c3 \<and> utf8_valid r
            | _ \<Rightarrow> False)
         else False)"

definition from_utf8 :: "bytes \<Rightarrow> string option" where
  "from_utf8 bs = (if utf8_valid bs then Some bs else None)"

section \<open>Characters\<close>

text \<open>Decoding; a byte that starts no well-formed sequence (there is none in a Rust string) gives the
  replacement character.\<close>

fun utf8_chars :: "bytes \<Rightarrow> nat list" where
  "utf8_chars [] = []"
| "utf8_chars (c # cs) =
     (let b = (of_char c :: nat)
      in if b < 0x80 then b # utf8_chars cs
         else if 0xC2 \<le> b \<and> b \<le> 0xDF then
           (case cs of
              c1 # r \<Rightarrow> ((b - 0xC0) * 64 + (of_char c1 - 0x80)) # utf8_chars r
            | _ \<Rightarrow> [0xFFFD])
         else if 0xE0 \<le> b \<and> b \<le> 0xEF then
           (case cs of
              c1 # c2 # r \<Rightarrow>
                ((b - 0xE0) * 4096 + (of_char c1 - 0x80) * 64 + (of_char c2 - 0x80)) # utf8_chars r
            | _ \<Rightarrow> [0xFFFD])
         else if 0xF0 \<le> b \<and> b \<le> 0xF4 then
           (case cs of
              c1 # c2 # c3 # r \<Rightarrow>
                ((b - 0xF0) * 262144 + (of_char c1 - 0x80) * 4096 + (of_char c2 - 0x80) * 64
                  + (of_char c3 - 0x80)) # utf8_chars r
            | _ \<Rightarrow> [0xFFFD])
         else 0xFFFD # utf8_chars cs)"

definition utf8_encode_char :: "nat \<Rightarrow> bytes" where
  "utf8_encode_char n =
     (if n < 0x80 then [char_of n]
      else if n < 0x800 then [char_of (0xC0 + n div 64), char_of (0x80 + n mod 64)]
      else if n < 0x10000 then
        [char_of (0xE0 + n div 4096), char_of (0x80 + n div 64 mod 64), char_of (0x80 + n mod 64)]
      else
        [char_of (0xF0 + n div 262144), char_of (0x80 + n div 4096 mod 64),
         char_of (0x80 + n div 64 mod 64), char_of (0x80 + n mod 64)])"

definition utf8_encode :: "nat list \<Rightarrow> bytes" where
  "utf8_encode cs = concat (map utf8_encode_char cs)"

text \<open>\<^verbatim>\<open>char::is_whitespace\<close>: the Unicode property White_Space.\<close>

definition is_whitespace :: "nat \<Rightarrow> bool" where
  "is_whitespace n \<longleftrightarrow>
     9 \<le> n \<and> n \<le> 13 \<or> n = 32 \<or> n = 0x85 \<or> n = 0xA0 \<or> n = 0x1680 \<or>
     0x2000 \<le> n \<and> n \<le> 0x200A \<or> n = 0x2028 \<or> n = 0x2029 \<or> n = 0x202F \<or> n = 0x205F \<or> n = 0x3000"

text \<open>\<^verbatim>\<open>s.trim().is_empty()\<close>.\<close>

definition is_blank :: "bytes \<Rightarrow> bool" where
  "is_blank s \<longleftrightarrow> list_all is_whitespace (utf8_chars s)"

lemma is_ascii_utf8: "\<forall>c \<in> set s. (of_char c :: nat) < 0x80 \<Longrightarrow> utf8_valid s"
  by (induction s) (auto simp: Let_def)

lemma utf8_chars_ascii: "\<forall>c \<in> set s. (of_char c :: nat) < 0x80 \<Longrightarrow> utf8_chars s = map of_char s"
  by (induction s) (auto simp: Let_def)

lemma utf8_valid_append_ascii:
  "utf8_valid s \<Longrightarrow> (of_char c :: nat) < 0x80 \<Longrightarrow> utf8_valid (s @ [c])"
  by (induction s rule: utf8_valid.induct) (auto simp: Let_def split: if_splits list.splits)

end
