(* ===== verification/Codec.thy ===== *)
theory Codec
  imports Json Utf8
begin

text \<open>
  The order-preserving key codec of \<^verbatim>\<open>src/storage/codec.rs\<close>: \<^verbatim>\<open>encode_key\<close>/\<^verbatim>\<open>decode_key\<close> and the
  double encoding \<^verbatim>\<open>encode_f64\<close>/\<^verbatim>\<open>decode_f64\<close>. The specification is \<open>key_less\<close>, the order the
  comment of \<^verbatim>\<open>encode_key\<close> promises (null, booleans, numbers, strings, other; inside a type the
  type's own order, doubles by their IEEE value).
\<close>

section \<open>Bytes of machine integers\<close>

text \<open>\<^verbatim>\<open>u64::to_be_bytes\<close> and \<^verbatim>\<open>from_be_bytes\<close>.\<close>

definition to_be_bytes :: "u64 \<Rightarrow> bytes" where
  "to_be_bytes w = map char_of (digits 256 8 (unat w))"

definition from_be_bytes :: "bytes \<Rightarrow> u64" where
  "from_be_bytes bs = of_nat (foldl (\<lambda>acc c. acc * 256 + of_char c) 0 bs)"

section \<open>The codec\<close>

definition sign_bit :: u64 where
  "sign_bit = 0x8000000000000000"

definition encode_f64 :: "u64 \<Rightarrow> bytes" where
  "encode_f64 val =
     (let bits = (if val AND sign_bit \<noteq> 0 then NOT val else val XOR sign_bit)
      in to_be_bytes bits)"

definition decode_f64 :: "bytes \<Rightarrow> u64" where
  "decode_f64 arr =
     (let bits = from_be_bytes arr
      in if bits AND sign_bit \<noteq> 0 then bits XOR sign_bit else NOT bits)"

fun encode_key :: "serde \<Rightarrow> json \<Rightarrow> bytes" where
  "encode_key S JNull = [CHR 0x01]"
| "encode_key S (JBool False) = [CHR 0x02, CHR 0x00]"
| "encode_key S (JBool True) = [CHR 0x02, CHR 0x01]"
| "encode_key S (JNumber n) =
     CHR 0x03 # encode_f64 (case num_as_f64 S n of Some f \<Rightarrow> f | None \<Rightarrow> 0)"
| "encode_key S (JString s) = CHR 0x04 # s @ [CHR 0x00]"
| "encode_key S (JArray xs) = CHR 0x05 # value_to_string S (JArray xs) @ [CHR 0x00]"
| "encode_key S (JObject m) = CHR 0x05 # value_to_string S (JObject m) @ [CHR 0x00]"

text \<open>The payload between the type byte and the terminator, if there is one.\<close>

definition key_content :: "bytes \<Rightarrow> bytes" where
  "key_content bs =
     (if bs \<noteq> [] \<and> last bs = CHR 0x00 \<and> length bs > 1 then butlast (tl bs) else tl bs)"

definition decode_key :: "serde \<Rightarrow> bytes \<Rightarrow> json option" where
  "decode_key S bs =
     (case bs of
        [] \<Rightarrow> None
      | t # _ \<Rightarrow>
          if t = CHR 0x01 then Some JNull
          else if t = CHR 0x02 then
            (if length bs < 2 then None else Some (JBool (bs ! 1 = CHR 0x01)))
          else if t = CHR 0x03 then
            (if length bs < 9 then None
             else Some (case num_from_f64 S (decode_f64 (take 8 (drop 1 bs))) of
                          Some n \<Rightarrow> JNumber n
                        | None \<Rightarrow> JNull))
          else if t = CHR 0x04 then map_option JString (from_utf8 (key_content bs))
          else if t = CHR 0x05 then value_from_slice S (key_content bs)
          else None)"

section \<open>Specification of the order\<close>

text \<open>
  The value of a double in units of \<open>2\<^sup>-\<^sup>1\<^sup>0\<^sup>7\<^sup>4\<close>, which is an integer for every double: the
  magnitude \<open>f64_mag\<close> of the lower 63 bits (subnormals below \<open>2\<^sup>5\<^sup>2\<close>, then 52 bits of
  mantissa with the implicit one, shifted by the exponent), and the sign of the top bit. An
  infinity is beyond every finite value.
\<close>

definition f64_mag :: "nat \<Rightarrow> nat" where
  "f64_mag n = (if n < 2 ^ 52 then n else (2 ^ 52 + n mod 2 ^ 52) * 2 ^ (n div 2 ^ 52 - 1))"

definition f64_ticks :: "u64 \<Rightarrow> int" where
  "f64_ticks w =
     (if unat w < 2 ^ 63 then int (f64_mag (unat w)) else - int (f64_mag (unat w - 2 ^ 63)))"

fun type_rank :: "json \<Rightarrow> nat" where
  "type_rank JNull = 1"
| "type_rank (JBool b) = 2"
| "type_rank (JNumber n) = 3"
| "type_rank (JString s) = 4"
| "type_rank (JArray xs) = 5"
| "type_rank (JObject m) = 5"

definition num_bits :: "serde \<Rightarrow> number \<Rightarrow> u64" where
  "num_bits S n = (case num_as_f64 S n of Some f \<Rightarrow> f | None \<Rightarrow> 0)"

definition same_type_less :: "serde \<Rightarrow> json \<Rightarrow> json \<Rightarrow> bool" where
  "same_type_less S a b =
     (case a of
        JBool x \<Rightarrow> (case b of JBool y \<Rightarrow> \<not> x \<and> y | _ \<Rightarrow> False)
      | JNumber m \<Rightarrow>
          (case b of JNumber n \<Rightarrow> f64_ticks (num_bits S m) < f64_ticks (num_bits S n) | _ \<Rightarrow> False)
      | JString s \<Rightarrow> (case b of JString t \<Rightarrow> s < t | _ \<Rightarrow> False)
      | JNull \<Rightarrow> False
      | _ \<Rightarrow> type_rank b = 5 \<and> value_to_string S a < value_to_string S b)"

definition key_less :: "serde \<Rightarrow> json \<Rightarrow> json \<Rightarrow> bool" where
  "key_less S a b \<longleftrightarrow> type_rank a < type_rank b \<or> same_type_less S a b"

text \<open>What survives the codec: every value but a number, which comes back as a double.\<close>

fun key_norm :: "serde \<Rightarrow> json \<Rightarrow> json" where
  "key_norm S (JNumber n) =
     (case num_from_f64 S (num_bits S n) of Some m \<Rightarrow> JNumber m | None \<Rightarrow> JNull)"
| "key_norm S v = v"

text \<open>The integer whose big-endian bytes \<open>encode_f64\<close> writes.\<close>

definition f64_code :: "u64 \<Rightarrow> u64" where
  "f64_code val = (if unat val < 2 ^ 63 then val XOR sign_bit else NOT val)"

section \<open>Big-endian bytes\<close>

lemma from_to_be_bytes [simp]: "from_be_bytes (to_be_bytes w) = w"
proof -
  have "map (of_char :: char \<Rightarrow> nat) (to_be_bytes w) = digits 256 8 (unat w)"
    using set_digits [of 256 _ 8 "unat w"]
    by (auto simp: to_be_bytes_def comp_def simp del: digits.simps intro!: map_idI)
  moreover have "from_be_bytes bs = of_nat (foldl (\<lambda>acc d. acc * 256 + d) 0 (map of_char bs))" for bs
    by (simp add: from_be_bytes_def foldl_map)
  ultimately show ?thesis
    using unat_u64_lt [of w] by (simp add: foldl_digits del: digits.simps)
qed

lemma char_of_less_iff:
  "m < 256 \<Longrightarrow> n < 256 \<Longrightarrow> (char_of m :: char) < char_of n \<longleftrightarrow> m < (n::nat)"
  by (simp add: less_char_def)

lemma to_be_bytes_less: "unat v < unat w \<Longrightarrow> to_be_bytes v < to_be_bytes w"
  unfolding to_be_bytes_def
  by (intro lt_at_less lt_at_map digits_lt_at)
    (use unat_u64_lt [of v] unat_u64_lt [of w] in
      \<open>auto simp: char_of_less_iff simp del: digits.simps dest!: set_digits [rotated]\<close>)



section \<open>Doubles\<close>

lemma sign_bit_exp: "sign_bit = 2 ^ 63"
  by (simp add: sign_bit_def)

lemma and_sign_bit [simp]: "val AND sign_bit = 0 \<longleftrightarrow> unat val < 2 ^ 63"
proof -
  have "bit val 63 \<longleftrightarrow> bit (unat val) 63" by (simp add: bit_unsigned_iff)
  also have "\<dots> \<longleftrightarrow> odd (unat val div 2 ^ 63)" by (simp only: bit_iff_odd)
  also have "\<dots> \<longleftrightarrow> \<not> unat val < 2 ^ 63"
  proof -
    have "unat val div 2 ^ 63 < 2" using unat_u64_lt [of val] by simp
    then show ?thesis by (cases "unat val div 2 ^ 63") (auto simp: div_eq_0_iff)
  qed
  finally show ?thesis unfolding sign_bit_exp and_exp_eq_0_iff_not_bit by simp
qed

lemma xor_sign_bit: "val XOR sign_bit = val + sign_bit"
proof (cases "val AND sign_bit = 0")
  case True
  then show ?thesis by (simp only: disjunctive_add_eq_xor)
next
  case False
  then have "bit val 63" unfolding sign_bit_exp by (simp only: and_exp_eq_0_iff_not_bit) simp
  then have "NOT val AND sign_bit = 0"
    unfolding sign_bit_exp and_exp_eq_0_iff_not_bit by (simp add: bit_not_iff)
  then have "val XOR sign_bit = val - sign_bit"
    using disjunctive_diff_eq_and_not disjunctive_diff_eq_xor by metis
  also have "\<dots> = val + sign_bit" by (simp add: sign_bit_def)
  finally show ?thesis .
qed

lemma unat_xor_sign_bit:
  "unat (val XOR sign_bit) = (if unat val < 2 ^ 63 then unat val + 2 ^ 63 else unat val - 2 ^ 63)"
  using unat_u64_lt [of val] unfolding xor_sign_bit unat_plus_if'
  by (simp add: sign_bit_def)

lemma unat_not: "unat (NOT (w :: u64)) = 2 ^ 64 - 1 - unat w"
proof -
  have "NOT w = - 1 - w" by (simp add: not_eq_complement)
  moreover have "unat (- 1 - w) = unat (- 1 :: u64) - unat w"
    by (rule unat_sub) simp
  moreover have "unat (- 1 :: u64) = 2 ^ 64 - 1"
    by (simp add: unsigned_minus_1_eq_mask mask_eq_exp_minus_1)
  ultimately show ?thesis by simp
qed

lemma encode_f64_code: "encode_f64 val = to_be_bytes (f64_code val)"
  by (simp add: encode_f64_def f64_code_def)

lemma unat_f64_code:
  "unat (f64_code val) = (if unat val < 2 ^ 63 then unat val + 2 ^ 63 else 2 ^ 64 - 1 - unat val)"
  by (simp add: f64_code_def unat_xor_sign_bit unat_not)

lemma length_encode_f64 [simp]: "length (encode_f64 val) = 8"
  by (simp add: encode_f64_code to_be_bytes_def)

lemma decode_encode_f64 [simp]: "decode_f64 (encode_f64 val) = val"
proof (cases "unat val < 2 ^ 63")
  case True
  then have "\<not> unat (val XOR sign_bit) < 2 ^ 63" by (simp add: unat_xor_sign_bit)
  with True show ?thesis
    by (simp add: decode_f64_def encode_f64_def xor.assoc)
next
  case False
  then have "unat (NOT val) < 2 ^ 63" by (simp add: unat_not)
  with False show ?thesis by (simp add: decode_f64_def encode_f64_def)
qed

lemma f64_mag_Suc: "f64_mag n < f64_mag (Suc n)"
proof -
  define e where "e = n div 2 ^ 52"
  define m where "m = n mod 2 ^ 52"
  have n: "n = e * 2 ^ 52 + m" and m: "m < 2 ^ 52" by (simp_all add: e_def m_def)
  have mag: "f64_mag (e * 2 ^ 52 + m) = (if e = 0 then m else (2 ^ 52 + m) * 2 ^ (e - 1))"
    if "m < 2 ^ 52" for e m
  proof (cases "e = 0")
    case False
    then have "\<not> e * 2 ^ 52 + m < 2 ^ 52" by (cases e) auto
    moreover have "(e * 2 ^ 52 + m) mod 2 ^ 52 = m" "(e * 2 ^ 52 + m) div 2 ^ 52 = e"
      using that by simp_all
    ultimately show ?thesis using False unfolding f64_mag_def by simp
  qed (use that in \<open>simp add: f64_mag_def\<close>)
  show ?thesis
  proof (cases "Suc m < 2 ^ 52")
    case True
    then have "f64_mag (Suc n) = (if e = 0 then Suc m else (2 ^ 52 + Suc m) * 2 ^ (e - 1))"
      using mag [of "Suc m" e] n by simp
    then show ?thesis using mag [OF m, of e] n by simp
  next
    case False
    with m have "m = 2 ^ 52 - 1" by simp
    then have "Suc n = Suc e * 2 ^ 52 + 0" using n by simp
    then have "f64_mag (Suc n) = 2 ^ 52 * 2 ^ e" using mag [of 0 "Suc e"] by simp
    moreover have "f64_mag n < 2 ^ 52 * 2 ^ e"
      using mag [OF m, of e] n m by (cases e) auto
    ultimately show ?thesis by simp
  qed
qed

lemma f64_mag_less_iff: "f64_mag m < f64_mag n \<longleftrightarrow> m < n"
  using strict_mono_less [of f64_mag] f64_mag_Suc by (simp add: strict_mono_Suc_iff)

lemma f64_code_less:
  assumes "f64_ticks a < f64_ticks b"
  shows "unat (f64_code a) < unat (f64_code b)"
  using assms unat_u64_lt [of a] unat_u64_lt [of b]
  by (auto simp: f64_ticks_def unat_f64_code f64_mag_less_iff split: if_splits)


section \<open>Correctness\<close>

lemma encode_f64_less: "f64_ticks a < f64_ticks b \<Longrightarrow> encode_f64 a < encode_f64 b"
  by (simp add: encode_f64_code to_be_bytes_less f64_code_less)

lemma nul_min [simp]: "CHR 0x00 \<le> c"
  by (simp add: less_eq_char_def)

lemma append_nul_less: "s < t \<Longrightarrow> s @ [CHR 0x00] < t @ [CHR 0x00]" for s t :: string
proof (induction s arbitrary: t)
  case Nil
  then obtain c r where "t = c # r" by (cases t) auto
  then show ?case using nul_min [of c] by (cases "r @ [CHR 0x00]") (auto simp: order.order_iff_strict)
next
  case (Cons c s)
  then show ?case by (cases t) auto
qed

lemma encode_key_rank: "\<exists>r. encode_key S v = char_of (type_rank v) # r"
  by (induction S v rule: encode_key.induct) (simp_all add: char_of_def bit_0)

lemma encode_key_complex:
  "type_rank v = 5 \<Longrightarrow> encode_key S v = CHR 0x05 # value_to_string S v @ [CHR 0x00]"
  by (cases v) auto

lemma key_content_string [simp]: "key_content (t # s @ [CHR 0x00]) = s"
  by (simp add: key_content_def butlast_append)

text \<open>
  C29: the byte order of encoded keys is the order of the values: null before booleans before
  numbers before strings before arrays and objects; numbers by the IEEE value of their double,
  strings bytewise, arrays and objects by their JSON text.
\<close>

theorem encode_key_order: "key_less S a b \<Longrightarrow> encode_key S a < encode_key S b"
  unfolding key_less_def
proof (elim disjE)
  assume "type_rank a < type_rank b"
  moreover have "type_rank b \<le> 5" by (cases b) auto
  ultimately have "(char_of (type_rank a) :: char) < char_of (type_rank b)"
    by (subst char_of_less_iff) auto
  then show ?thesis
    using encode_key_rank [of S a] encode_key_rank [of S b] by auto
next
  assume "same_type_less S a b"
  then show ?thesis
    by (auto simp: same_type_less_def num_bits_def encode_f64_less append_nul_less
        encode_key_complex
        split: json.splits option.splits)
qed


theorem encode_key_order_witness:
  "encode_key demo_serde (JNumber (Float 0xC000000000000000)) <
   encode_key demo_serde (JNumber (PosInt 3)) \<and>
   encode_key demo_serde (JString ''a'') < encode_key demo_serde (JString ''ab'')"
proof
  show "encode_key demo_serde (JNumber (Float 0xC000000000000000)) <
      encode_key demo_serde (JNumber (PosInt 3))"
    by (rule encode_key_order)
      (simp add: key_less_def same_type_less_def num_bits_def f64_of_nat_def
        f64_ticks_def f64_mag_def)
  show "encode_key demo_serde (JString ''a'') < encode_key demo_serde (JString ''ab'')"
    by (rule encode_key_order) (simp add: key_less_def same_type_less_def)
qed

text \<open>
  decoding an encoded key gives back the value: exactly for null, booleans, UTF-8 strings and
  arrays or objects that the JSON printer and parser round-trip, and the nearest double for a
  number.
\<close>

theorem decode_encode_key:
  assumes "\<And>s. v = JString s \<Longrightarrow> utf8_valid s"
    and "type_rank v = 5 \<Longrightarrow> value_from_slice S (value_to_string S v) = Some v"
  shows "decode_key S (encode_key S v) = Some (key_norm S v)"
  using assms
  by (induction S v rule: encode_key.induct) 
    (auto simp: decode_key_def num_bits_def from_utf8_def split: option.splits)

theorem decode_encode_key_witness:
  "decode_key demo_serde (encode_key demo_serde (JNumber (PosInt 3))) =
     Some (JNumber (Float 0x4008000000000000)) \<and>
   decode_key demo_serde (encode_key demo_serde (JArray [])) = Some (JArray [])"
  using decode_encode_key [of "JNumber (PosInt 3)" demo_serde]
    decode_encode_key [of "JArray []" demo_serde]
  by (simp add: num_bits_def f64_of_nat_def)

end
