(* ===== verification/Keys.thy ===== *)
theory Keys
  imports Codec
begin

text \<open>
  The layout of a collection's keys, \<^verbatim>\<open>src/storage/collection/mod.rs\<close> (prefixes) and \<^verbatim>\<open>core.rs\<close> (key
  helpers). All data of a collection lives in one ordered key space: documents, index entries and
  metadata are told apart by their prefix. The lemmas say which keys can meet: with index names
  that contain no colon the entries of different documents are different, and the families of
  entries do not overlap with each other, with the metadata or with the documents, except that the
  expiry entries of TTL indexes live under the document prefix.
\<close>

section \<open>Prefixes and key helpers\<close>

definition DOC_PREFIX :: string where "DOC_PREFIX = ''doc:''"
definition IDX_PREFIX :: string where "IDX_PREFIX = ''idx:''"
definition IDX_META_PREFIX :: string where "IDX_META_PREFIX = ''idx_meta:''"
definition GEO_PREFIX :: string where "GEO_PREFIX = ''geo:''"
definition GEO_META_PREFIX :: string where "GEO_META_PREFIX = ''geo_meta:''"
definition FT_PREFIX :: string where "FT_PREFIX = ''ft:''"
definition FT_META_PREFIX :: string where "FT_META_PREFIX = ''ft_meta:''"
definition FT_TERM_PREFIX :: string where "FT_TERM_PREFIX = ''ft_term:''"
definition STATS_COUNT_KEY :: string where "STATS_COUNT_KEY = ''_stats:count''"
definition COLLECTION_TYPE_KEY :: string where "COLLECTION_TYPE_KEY = ''_stats:type''"
definition BLO_PREFIX :: string where "BLO_PREFIX = ''blo:''"
definition TTL_META_PREFIX :: string where "TTL_META_PREFIX = ''ttl_meta:''"
definition TTL_EXPIRY_PREFIX :: string where "TTL_EXPIRY_PREFIX = ''ttl_exp:''"
definition NGRAM_SIZE :: nat where "NGRAM_SIZE = 3"

lemmas prefix_defs = DOC_PREFIX_def IDX_PREFIX_def IDX_META_PREFIX_def GEO_PREFIX_def
  GEO_META_PREFIX_def FT_PREFIX_def FT_META_PREFIX_def FT_TERM_PREFIX_def STATS_COUNT_KEY_def
  COLLECTION_TYPE_KEY_def BLO_PREFIX_def TTL_META_PREFIX_def TTL_EXPIRY_PREFIX_def

definition doc_key :: "string \<Rightarrow> bytes" where
  "doc_key key = DOC_PREFIX @ key"

definition idx_meta_key :: "string \<Rightarrow> bytes" where
  "idx_meta_key name = IDX_META_PREFIX @ name"

definition value_part :: "serde \<Rightarrow> json list \<Rightarrow> string" where
  "value_part S values = join ''_'' (map (\<lambda>v. hex_encode (encode_key S v)) values)"

definition idx_entry_key :: "serde \<Rightarrow> string \<Rightarrow> json list \<Rightarrow> string \<Rightarrow> bytes" where
  "idx_entry_key S index_name values key =
     IDX_PREFIX @ index_name @ '':'' @ value_part S values @ '':'' @ key"

definition geo_meta_key :: "string \<Rightarrow> bytes" where
  "geo_meta_key name = GEO_META_PREFIX @ name"

definition geo_entry_key :: "string \<Rightarrow> string \<Rightarrow> bytes" where
  "geo_entry_key index_name key = GEO_PREFIX @ index_name @ '':'' @ key"

definition ft_meta_key :: "string \<Rightarrow> bytes" where
  "ft_meta_key name = FT_META_PREFIX @ name"

definition ft_term_key :: "string \<Rightarrow> string \<Rightarrow> string \<Rightarrow> bytes" where
  "ft_term_key index_name term key = FT_TERM_PREFIX @ index_name @ '':'' @ term @ '':'' @ key"

definition ft_ngram_key :: "string \<Rightarrow> string \<Rightarrow> string \<Rightarrow> bytes" where
  "ft_ngram_key index_name ngram key = FT_PREFIX @ index_name @ '':'' @ ngram @ '':'' @ key"

definition blo_chunk_key :: "string \<Rightarrow> nat \<Rightarrow> bytes" where
  "blo_chunk_key key chunk_index = BLO_PREFIX @ key @ '':'' @ show_nat chunk_index"

definition ttl_meta_key :: "string \<Rightarrow> bytes" where
  "ttl_meta_key name = TTL_META_PREFIX @ name"

definition ttl_expiry_key :: "string \<Rightarrow> u64 \<Rightarrow> string \<Rightarrow> bytes" where
  "ttl_expiry_key index_name expiry_timestamp key =
     DOC_PREFIX @ TTL_EXPIRY_PREFIX @ '':'' @ index_name @ '':'' @ show_u64 expiry_timestamp @ '':'' @ key"

definition ttl_expiry_prefix :: "string \<Rightarrow> bytes" where
  "ttl_expiry_prefix index_name = DOC_PREFIX @ TTL_EXPIRY_PREFIX @ '':'' @ index_name @ '':''"

lemmas key_defs = doc_key_def idx_meta_key_def idx_entry_key_def geo_meta_key_def geo_entry_key_def
  ft_meta_key_def ft_term_key_def ft_ngram_key_def blo_chunk_key_def ttl_meta_key_def
  ttl_expiry_key_def ttl_expiry_prefix_def

section \<open>Name spaces\<close>

definition name_ok :: "string \<Rightarrow> bool" where
  "name_ok n \<longleftrightarrow> CHR '':'' \<notin> set n"

definition key_ok :: "string \<Rightarrow> bool" where
  "key_ok k \<longleftrightarrow> \<not> starts_with k ''ttl_exp::''"

definition idx_ns :: "bytes \<Rightarrow> bool" where
  "idx_ns b \<longleftrightarrow> starts_with b IDX_PREFIX"

definition geo_ns :: "bytes \<Rightarrow> bool" where
  "geo_ns b \<longleftrightarrow> starts_with b GEO_PREFIX"

definition ft_ns :: "bytes \<Rightarrow> bool" where
  "ft_ns b \<longleftrightarrow> starts_with b FT_PREFIX \<or> starts_with b FT_TERM_PREFIX"

definition ttl_ns :: "bytes \<Rightarrow> bool" where
  "ttl_ns b \<longleftrightarrow> starts_with b (DOC_PREFIX @ TTL_EXPIRY_PREFIX @ '':'')"

lemma starts_with_same [simp]: "starts_with (p @ s) (p @ q) \<longleftrightarrow> starts_with s q"
  by (simp add: starts_with_def)

lemma starts_with_Cons [simp]:
  "starts_with (c # s) (d # q) \<longleftrightarrow> c = d \<and> starts_with s q"
  "starts_with s []" "\<not> starts_with [] (d # q)"
  by (auto simp: starts_with_def)

lemma join_no_colon: "\<forall>x \<in> set xs. CHR '':'' \<notin> set x \<Longrightarrow> CHR '':'' \<notin> set (join ''_'' xs)"
  by (induction "''_''" xs rule: join.induct) auto

lemma value_part_no_colon [simp]: "CHR '':'' \<notin> set (value_part S values)"
  by (simp add: value_part_def join_no_colon)

text \<open>Two keys with the same first component and a component without colons after it.\<close>

lemma two_sep_inject:
  assumes "a @ '':'' @ b @ '':'' @ c = a' @ '':'' @ b' @ '':'' @ c'"
    "name_ok a" "name_ok a'" "CHR '':'' \<notin> set b" "CHR '':'' \<notin> set b'"
  shows "a = a' \<and> b = b' \<and> c = c'"
proof -
  have "a = a' \<and> b @ CHR '':'' # c = b' @ CHR '':'' # c'"
    using assms by (intro sep_inject) (auto simp: name_ok_def)
  with assms(4,5) show ?thesis using sep_inject [of b "CHR '':''" c b' c'] by auto
qed

lemma idx_entry_key_inject:
  assumes "idx_entry_key S n vs k = idx_entry_key S n' vs' k'" "name_ok n" "name_ok n'"
  shows "n = n' \<and> value_part S vs = value_part S vs' \<and> k = k'"
  using assms two_sep_inject [of n "value_part S vs" k n' "value_part S vs'" k']
  by (simp add: idx_entry_key_def)

lemma geo_entry_key_inject:
  assumes "geo_entry_key n k = geo_entry_key n' k'" "name_ok n" "name_ok n'"
  shows "n = n' \<and> k = k'"
  using assms sep_inject [of n "CHR '':''" k n' k'] by (auto simp: geo_entry_key_def name_ok_def)

lemma ft_term_key_inject:
  assumes "ft_term_key n t k = ft_term_key n' t' k'" "name_ok n" "name_ok n'"
    "CHR '':'' \<notin> set t" "CHR '':'' \<notin> set t'"
  shows "n = n' \<and> t = t' \<and> k = k'"
  using assms two_sep_inject [of n t k n' t' k'] by (simp add: ft_term_key_def)

lemma ft_ngram_key_inject:
  assumes "ft_ngram_key n t k = ft_ngram_key n' t' k'" "name_ok n" "name_ok n'"
    "CHR '':'' \<notin> set t" "CHR '':'' \<notin> set t'"
  shows "n = n' \<and> t = t' \<and> k = k'"
  using assms two_sep_inject [of n t k n' t' k'] by (simp add: ft_ngram_key_def)

lemma ft_term_ngram_differ [simp]: "ft_term_key n t k \<noteq> ft_ngram_key n' t' k'"
  by (simp add: ft_term_key_def ft_ngram_key_def prefix_defs)

lemma ttl_expiry_key_inject:
  assumes "ttl_expiry_key n t k = ttl_expiry_key n' t' k'" "name_ok n" "name_ok n'"
  shows "n = n' \<and> t = t' \<and> k = k'"
  using assms two_sep_inject [of n "show_u64 t" k n' "show_u64 t'" k']
  by (simp add: ttl_expiry_key_def)

lemma doc_key_inject [simp]: "doc_key k = doc_key k' \<longleftrightarrow> k = k'"
  by (simp add: doc_key_def)

lemma doc_key_ns:
  "\<not> idx_ns (doc_key k)" "\<not> geo_ns (doc_key k)" "\<not> ft_ns (doc_key k)"
  "ttl_ns (doc_key k) \<longleftrightarrow> \<not> key_ok k"
  by (simp_all add: idx_ns_def geo_ns_def ft_ns_def ttl_ns_def key_ok_def doc_key_def prefix_defs)

lemma entry_ns:
  "idx_ns (idx_entry_key S n vs k)" "geo_ns (geo_entry_key n k)" "ft_ns (ft_term_key n t k)"
  "ft_ns (ft_ngram_key n t k)" "ttl_ns (ttl_expiry_key n ts k)"
  by (simp_all add: idx_ns_def geo_ns_def ft_ns_def ttl_ns_def key_defs prefix_defs)

lemma ns_disjoint:
  "idx_ns b \<Longrightarrow> \<not> geo_ns b \<and> \<not> ft_ns b \<and> \<not> ttl_ns b"
  "geo_ns b \<Longrightarrow> \<not> idx_ns b \<and> \<not> ft_ns b \<and> \<not> ttl_ns b"
  "ft_ns b \<Longrightarrow> \<not> idx_ns b \<and> \<not> geo_ns b \<and> \<not> ttl_ns b"
  "ttl_ns b \<Longrightarrow> \<not> idx_ns b \<and> \<not> geo_ns b \<and> \<not> ft_ns b"
  by (auto simp: idx_ns_def geo_ns_def ft_ns_def ttl_ns_def prefix_defs starts_with_iff)

definition meta_ns :: "bytes \<Rightarrow> bool" where
  "meta_ns b \<longleftrightarrow> starts_with b IDX_META_PREFIX \<or> starts_with b GEO_META_PREFIX \<or>
     starts_with b FT_META_PREFIX \<or> starts_with b TTL_META_PREFIX"

lemma meta_ns_disjoint:
  "meta_ns b \<Longrightarrow> \<not> idx_ns b \<and> \<not> geo_ns b \<and> \<not> ft_ns b \<and> \<not> ttl_ns b" "\<not> meta_ns (doc_key k)"
  by (auto simp: meta_ns_def idx_ns_def geo_ns_def ft_ns_def ttl_ns_def doc_key_def prefix_defs
      starts_with_iff)

section \<open>Order of index entries\<close>

text \<open>A value whose encoding has no zero byte before its terminator.\<close>

definition nul_free :: "serde \<Rightarrow> json \<Rightarrow> bool" where
  "nul_free S v =
     (case v of
        JString s \<Rightarrow> CHR 0x00 \<notin> set s
      | JArray xs \<Rightarrow> CHR 0x00 \<notin> set (value_to_string S v)
      | JObject m \<Rightarrow> CHR 0x00 \<notin> set (value_to_string S v)
      | _ \<Rightarrow> True)"

lemma append_nul_lt_at:
  "s < t \<Longrightarrow> CHR 0x00 \<notin> set s \<Longrightarrow> CHR 0x00 \<notin> set t \<Longrightarrow> lt_at (s @ [CHR 0x00]) (t @ [CHR 0x00])"
proof (induction s arbitrary: t)
  case Nil
  then obtain c r where "t = c # r" by (cases t) auto
  then show ?case using Nil.prems nul_min [of c] by (auto simp: order.order_iff_strict)
next
  case (Cons c s)
  then show ?case by (cases t) auto
qed

lemma same_type_lt_at:
  assumes "same_type_less S a b" "nul_free S a" "nul_free S b"
  shows "lt_at (encode_key S a) (encode_key S b)"
proof (cases "type_rank a = 5")
  case True
  then have "type_rank b = 5" "value_to_string S a < value_to_string S b"
    using assms(1) by (cases a; simp add: same_type_less_def)+
  moreover have "CHR 0x00 \<notin> set (value_to_string S v)" if "type_rank v = 5" "nul_free S v" for v
    using that by (cases v) (auto simp: nul_free_def)
  ultimately show ?thesis
    using True assms(2,3) by (simp add: encode_key_complex append_nul_lt_at)
next
  case False
  show ?thesis
  proof (cases a)
    case (JNumber m)
    then show ?thesis
      using assms(1)
      by (cases b) (auto simp: same_type_less_def num_bits_def intro!: less_same_length encode_f64_less)
  next
    case (JString s)
    then show ?thesis
      using assms append_nul_lt_at by (cases b) (auto simp: same_type_less_def nul_free_def)
  next
    case (JBool x)
    then show ?thesis using assms(1) by (cases b) (auto simp: same_type_less_def)
  qed (use False assms(1) in \<open>auto simp: same_type_less_def\<close>)
qed

lemma encode_key_lt_at:
  assumes "key_less S a b" "nul_free S a" "nul_free S b"
  shows "lt_at (encode_key S a) (encode_key S b)"
proof (cases "type_rank a < type_rank b")
  case True
  moreover have "type_rank b \<le> 5" by (cases b) auto
  ultimately have "(char_of (type_rank a) :: char) < char_of (type_rank b)"
    by (subst char_of_less_iff) auto
  then show ?thesis using encode_key_rank [of S a] encode_key_rank [of S b] by auto
next
  case False
  then show ?thesis using assms same_type_lt_at by (simp add: key_less_def)
qed

text \<open>
  the entries of a single-field index are stored in the order of the indexed values, whatever
  the document keys are: if one value precedes another, every entry of the first precedes every
  entry of the second, so a scan of the index visits the documents in the order of the field. (A
  string that contains a zero byte is excluded: its terminator is ambiguous.)
\<close>

theorem index_entries_ordered:
  assumes "key_less S a b" "nul_free S a" "nul_free S b"
  shows "idx_entry_key S n [a] k < idx_entry_key S n [b] k'"
proof -
  have "lt_at (hex_encode (encode_key S a)) (hex_encode (encode_key S b))"
    using encode_key_lt_at [OF assms] by (rule hex_encode_lt_at)
  then have "lt_at (value_part S [a] @ '':'' @ k) (value_part S [b] @ '':'' @ k')"
    unfolding value_part_def by (simp add: lt_at_append)
  then show ?thesis unfolding idx_entry_key_def by (intro lt_at_less) simp
qed

theorem index_entries_ordered_witness:
  "idx_entry_key demo_serde ''age'' [JNumber (Float 0xC000000000000000)] ''z'' <
   idx_entry_key demo_serde ''age'' [JNumber (PosInt 3)] ''a''"
  by (rule index_entries_ordered)
    (simp_all add: key_less_def same_type_less_def num_bits_def f64_of_nat_def f64_ticks_def
      f64_mag_def nul_free_def)

end
