(* ===== verification/Store.thy ===== *)
theory Store
  imports Keys
begin

text \<open>
  The key-value store under a collection. RocksDB is not part of the repository: its operations on
  one column family are the record \<open>rocks\<close> over a type of database states, a parameter of every
  definition that uses it. \<open>rocks_ok R V\<close> states what the code relies on, with \<open>V\<close> the contents of
  a state: reads return the contents, a write batch is applied as a whole and in order, and iterators
  visit the entries in the order of the keys. (The column families have no prefix extractor, so a
  prefix iterator is a forward iterator from the prefix; the callers stop at the first other key.)
\<close>

section \<open>Operations\<close>

datatype write_op = Put bytes bytes | Del bytes

record 'db rocks =
  get_cf :: "'db \<Rightarrow> bytes \<Rightarrow> string + bytes option"
  write_batch :: "'db \<Rightarrow> write_op list \<Rightarrow> string + 'db"
  iter_from :: "'db \<Rightarrow> bytes \<Rightarrow> (string + bytes \<times> bytes) list"
  iter_back :: "'db \<Rightarrow> bytes \<Rightarrow> (string + bytes \<times> bytes) list"

text \<open>\<^verbatim>\<open>filter_map(|r| r.ok())\<close> and \<^verbatim>\<open>flatten()\<close> on the items of an iterator.\<close>

definition oks :: "('e + 'a) list \<Rightarrow> 'a list" where
  "oks rs = List.map_filter res_ok rs"

lemma oks_Inr [simp]: "oks (map Inr xs) = xs"
  by (induction xs) (auto simp: oks_def List.map_filter_def)

section \<open>Laws\<close>

fun op_key :: "write_op \<Rightarrow> bytes" where
  "op_key (Put k v) = k"
| "op_key (Del k) = k"

fun apply_op :: "write_op \<Rightarrow> (bytes \<rightharpoonup> bytes) \<Rightarrow> (bytes \<rightharpoonup> bytes)" where
  "apply_op (Put k v) m = m(k \<mapsto> v)"
| "apply_op (Del k) m = m(k := None)"

definition apply_ops :: "write_op list \<Rightarrow> (bytes \<rightharpoonup> bytes) \<Rightarrow> (bytes \<rightharpoonup> bytes)" where
  "apply_ops ops m = fold apply_op ops m"

definition rocks_ok :: "'db rocks \<Rightarrow> ('db \<Rightarrow> (bytes, bytes) smap) \<Rightarrow> bool" where
  "rocks_ok R V \<longleftrightarrow>
     (\<forall>d. smap_ok (V d)) \<and>
     (\<forall>d k. get_cf R d k = Inr (map_of (V d) k)) \<and>
     (\<forall>d ops d'. write_batch R d ops = Inr d' \<longrightarrow> map_of (V d') = apply_ops ops (map_of (V d))) \<and>
     (\<forall>d k. iter_from R d k = map Inr (filter (\<lambda>p. k \<le> fst p) (V d))) \<and>
     (\<forall>d k. iter_back R d k = map Inr (rev (filter (\<lambda>p. fst p \<le> k) (V d))))"

lemma rocks_okD:
  assumes "rocks_ok R V"
  shows "smap_ok (V d)" "get_cf R d k = Inr (map_of (V d) k)"
    "write_batch R d ops = Inr d' \<Longrightarrow> map_of (V d') = apply_ops ops (map_of (V d))"
    "iter_from R d k = map Inr (filter (\<lambda>p. k \<le> fst p) (V d))"
    "iter_back R d k = map Inr (rev (filter (\<lambda>p. fst p \<le> k) (V d)))"
  using assms unfolding rocks_ok_def by blast+

section \<open>Batches\<close>

lemma apply_ops_Nil [simp]: "apply_ops [] m = m"
  by (simp add: apply_ops_def)

lemma apply_ops_Cons [simp]: "apply_ops (p # ops) m = apply_ops ops (apply_op p m)"
  by (simp add: apply_ops_def)

lemma apply_ops_append: "apply_ops (ops @ ops') m = apply_ops ops' (apply_ops ops m)"
  by (simp add: apply_ops_def)

lemma apply_op_other: "op_key p \<noteq> b \<Longrightarrow> apply_op p m b = m b"
  by (cases p) auto

text \<open>What a batch does to a set of keys is decided by its operations on that set.\<close>

lemma apply_op_cong: "m b = m' b \<Longrightarrow> apply_op p m b = apply_op p m' b"
  by (cases p) auto

lemma apply_ops_cong: "m b = m' b \<Longrightarrow> apply_ops ops m b = apply_ops ops m' b"
proof (induction ops arbitrary: m m')
  case (Cons p ops)
  have "apply_ops ops (apply_op p m) b = apply_ops ops (apply_op p m') b"
    using Cons.prems by (intro Cons.IH apply_op_cong)
  then show ?case by simp
qed simp

lemma apply_ops_filter: "P b \<Longrightarrow> apply_ops ops m b = apply_ops (filter (\<lambda>p. P (op_key p)) ops) m b"
proof (induction ops arbitrary: m)
  case (Cons p ops)
  have "apply_ops ops' (apply_op p m) b = apply_ops ops' m b" if "\<not> P (op_key p)" for ops'
    using that Cons.prems by (intro apply_ops_cong apply_op_other) auto
  with Cons show ?case by auto
qed simp

lemma apply_ops_other: "\<forall>p \<in> set ops. op_key p \<noteq> b \<Longrightarrow> apply_ops ops m b = m b"
proof (induction ops arbitrary: m)
  case (Cons p ops)
  then show ?case by (simp add: apply_op_other)
qed simp

definition puts :: "(bytes \<times> bytes) list \<Rightarrow> write_op list" where
  "puts es = map (\<lambda>p. Put (fst p) (snd p)) es"

definition dels :: "bytes list \<Rightarrow> write_op list" where
  "dels ks = map Del ks"

lemma apply_dels: "apply_ops (dels ks) m b = (if b \<in> set ks then None else m b)"
  by (induction ks arbitrary: m) (auto simp: dels_def)

lemma apply_puts_notin: "b \<notin> fst ` set es \<Longrightarrow> apply_ops (puts es) m b = m b"
  by (rule apply_ops_other) (auto simp: puts_def)

lemma apply_puts:
  assumes "(b, v) \<in> set es" "\<And>v'. (b, v') \<in> set es \<Longrightarrow> v' = v"
  shows "apply_ops (puts es) m b = Some v"
  using assms
proof (induction es arbitrary: m)
  case (Cons p es)
  show ?case
  proof (cases "b \<in> fst ` set es")
    case True
    then obtain v' where "(b, v') \<in> set es" by auto
    then have "apply_ops (puts es) m' b = Some v" for m' using Cons.prems(2) by (intro Cons.IH) auto
    then show ?thesis by (simp add: puts_def)
  next
    case False
    then have "p = (b, v)" using Cons.prems(1) by force
    with apply_puts_notin [OF False, of "m(b \<mapsto> v)"] show ?thesis by (simp add: puts_def)
  qed
qed simp

lemma op_key_puts: "op_key ` set (puts es) = fst ` set es"
  by (simp add: puts_def image_image)

lemma op_key_dels: "op_key ` set (dels ks) = set ks"
  by (simp add: dels_def image_image)

lemma filter_puts: "filter (\<lambda>p. P (op_key p)) (puts es) = puts (filter (\<lambda>p. P (fst p)) es)"
  by (simp add: puts_def filter_map comp_def)

lemma filter_dels: "filter (\<lambda>p. P (op_key p)) (dels ks) = dels (filter P ks)"
  by (simp add: dels_def filter_map comp_def)

section \<open>Scans\<close>

text \<open>A forward scan that stops at the first key without the prefix sees exactly the entries with
  the prefix.\<close>

lemma prefix_le: "starts_with b p \<Longrightarrow> p \<le> b"
proof -
  assume "starts_with b p"
  then obtain r where "b = p @ r" by (auto simp: starts_with_iff)
  moreover have "p @ [] \<le> p @ r" by (simp only: less_append_same flip: not_less) simp
  ultimately show ?thesis by simp
qed

lemma past_prefix:
  assumes "p \<le> b" "\<not> starts_with b p" "b \<le> b'"
  shows "\<not> starts_with b' p"
proof
  assume "starts_with b' p"
  then obtain r where r: "b' = p @ r" by (auto simp: starts_with_iff)
  have "p \<noteq> b" using assms(2) by (auto simp: starts_with_iff)
  with assms(1) have "p < b" by simp
  then have "lt_at p b" using assms(2) by (intro less_lt_at) (simp_all add: starts_with_prefix)
  then have "p @ r < b" using lt_at_less lt_at_append [of p b r "[]"] by simp
  with assms(3) r show False by simp
qed

lemma takeWhile_prefix:
  "smap_ok m \<Longrightarrow>
   takeWhile (\<lambda>p. starts_with (fst p) pre) (filter (\<lambda>p. pre \<le> fst p) m) =
   filter (\<lambda>p. starts_with (fst p) pre) m"
proof (induction m)
  case (Cons q m)
  have "filter (\<lambda>p. starts_with (fst p) pre) m = []"
    if "pre \<le> fst q" "\<not> starts_with (fst q) pre"
    using that Cons.prems past_prefix [OF that] by (force simp: filter_empty_conv)
  with Cons show ?case using prefix_le by auto
qed simp

lemma filter_prefix:
  "filter (\<lambda>p. starts_with (fst p) pre) (filter (\<lambda>p. pre \<le> fst p) m) =
   filter (\<lambda>p. starts_with (fst p) pre) m"
  using prefix_le by (auto intro: filter_cong)

text \<open>The two ways the sources scan a prefix: stopping at the first other key, and skipping other
  keys.\<close>

definition scan_while :: "'db rocks \<Rightarrow> 'db \<Rightarrow> bytes \<Rightarrow> (bytes \<times> bytes) list" where
  "scan_while R d pre = takeWhile (\<lambda>p. starts_with (fst p) pre) (oks (iter_from R d pre))"

definition scan_all :: "'db rocks \<Rightarrow> 'db \<Rightarrow> bytes \<Rightarrow> (bytes \<times> bytes) list" where
  "scan_all R d pre = filter (\<lambda>p. starts_with (fst p) pre) (oks (iter_from R d pre))"

lemma scan_eq:
  assumes "rocks_ok R V"
  shows "scan_while R d pre = filter (\<lambda>p. starts_with (fst p) pre) (V d)"
    "scan_all R d pre = filter (\<lambda>p. starts_with (fst p) pre) (V d)"
  using rocks_okD(1,4) [OF assms]
  by (simp_all add: scan_while_def scan_all_def takeWhile_prefix filter_prefix del: filter_filter)

section \<open>An instance\<close>

text \<open>For the witnesses: a state is a list of entries in the order they were written.\<close>

definition mem_view :: "(bytes \<times> bytes) list \<Rightarrow> (bytes, bytes) smap" where
  "mem_view d = fold (\<lambda>p m. smap_put (fst p) (snd p) m) d []"

fun mem_op :: "write_op \<Rightarrow> (bytes, bytes) smap \<Rightarrow> (bytes, bytes) smap" where
  "mem_op (Put k v) m = smap_put k v m"
| "mem_op (Del k) m = smap_del k m"

definition mem_rocks :: "(bytes \<times> bytes) list rocks" where
  "mem_rocks = \<lparr>
     get_cf = (\<lambda>d k. Inr (map_of (mem_view d) k)),
     write_batch = (\<lambda>d ops. Inr (fold mem_op ops (mem_view d))),
     iter_from = (\<lambda>d k. map Inr (filter (\<lambda>p. k \<le> fst p) (mem_view d))),
     iter_back = (\<lambda>d k. map Inr (rev (filter (\<lambda>p. fst p \<le> k) (mem_view d)))) \<rparr>"

lemma mem_fold_ok: "smap_ok m \<Longrightarrow> smap_ok (fold (\<lambda>p m. smap_put (fst p) (snd p) m) d m)"
  by (induction d arbitrary: m) auto

lemma mem_view_ok [simp]: "smap_ok (mem_view d)"
  by (simp add: mem_view_def mem_fold_ok)

lemma mem_fold_lookup:
  "smap_ok m \<Longrightarrow> smap_ok d \<Longrightarrow>
   map_of (fold (\<lambda>p m. smap_put (fst p) (snd p) m) d m) = map_of m ++ map_of d"
proof (induction d arbitrary: m)
  case (Cons p d)
  have "map_of d (fst p) = None" using Cons.prems(2) by (rule smap_ok_notin)
  with Cons show ?case by (auto simp: fun_eq_iff map_add_def split: option.splits)
qed simp

lemma mem_view_id [simp]: "smap_ok d \<Longrightarrow> mem_view d = d"
  by (rule smap_eqI) (simp_all add: mem_view_def mem_fold_ok mem_fold_lookup)

lemma mem_ops:
  "smap_ok m \<Longrightarrow>
   smap_ok (fold mem_op ops m) \<and> map_of (fold mem_op ops m) = apply_ops ops (map_of m)"
proof (induction ops arbitrary: m)
  case (Cons p ops)
  then show ?case by (cases p) (simp_all add: fun_upd_def)
qed simp

lemma mem_rocks_ok: "rocks_ok mem_rocks mem_view"
  by (simp add: rocks_ok_def mem_rocks_def mem_ops)

end
