(* ===== verification/Document.thy ===== *)
theory Document
  imports Json "HOL-Library.Countable"
begin

text \<open>
  Documents and their stored form: \<^verbatim>\<open>src/storage/document.rs\<close> and \<^verbatim>\<open>src/storage/serializer.rs\<close>. The
  serialisation libraries (bincode, MessagePack, serde's flattening of the data into the document's
  own fields, chrono's text form of a time) are the record \<open>doc_codec\<close>. Fresh revisions and clock
  readings are arguments; a time is an integer.
\<close>

section \<open>Documents\<close>

record document =
  doc_key_of :: string
  doc_id :: string
  doc_rev :: string
  doc_created_at :: int
  doc_updated_at :: int
  doc_data :: json

text \<open>The fields of \<^verbatim>\<open>DocumentWithVersion\<close>.\<close>

record doc_version =
  dv_version :: nat
  dv_key :: string
  dv_id :: string
  dv_rev :: string
  dv_created_at :: int
  dv_updated_at :: int
  dv_data :: bytes

record doc_codec =
  flatten :: "json \<Rightarrow> json_obj option"
  fmt_time :: "int \<Rightarrow> string"
  rmp_to_vec :: "json \<Rightarrow> bytes option"
  rmp_from_slice :: "bytes \<Rightarrow> json option"
  json_from_slice :: "bytes \<Rightarrow> json option"
  bincode_ser :: "doc_version \<Rightarrow> string + bytes"
  bincode_de :: "bytes \<Rightarrow> string + doc_version"
  doc_from_json :: "bytes \<Rightarrow> string + document"
  doc_to_json :: "document \<Rightarrow> string + bytes"

definition system_fields :: "string list" where
  "system_fields = [''_key'', ''_id'', ''_rev'', ''_created_at'', ''_updated_at'']"

fun strip_system :: "json \<Rightarrow> json" where
  "strip_system (JObject m) = JObject (foldl (\<lambda>m f. smap_del f m) m system_fields)"
| "strip_system v = v"

definition doc_new :: "string \<Rightarrow> string \<Rightarrow> int \<Rightarrow> string \<Rightarrow> json \<Rightarrow> document" where
  "doc_new uuid new_rev now coll data =
     \<lparr> doc_key_of = uuid, doc_id = coll @ ''/'' @ uuid, doc_rev = new_rev, doc_created_at = now,
       doc_updated_at = now, doc_data = strip_system data \<rparr>"

definition doc_with_key :: "string \<Rightarrow> int \<Rightarrow> string \<Rightarrow> string \<Rightarrow> json \<Rightarrow> document" where
  "doc_with_key new_rev now coll key data =
     \<lparr> doc_key_of = key, doc_id = coll @ ''/'' @ key, doc_rev = new_rev, doc_created_at = now,
       doc_updated_at = now, doc_data = strip_system data \<rparr>"

definition merge_fields :: "json_obj \<Rightarrow> json_obj \<Rightarrow> json_obj" where
  "merge_fields existing new =
     foldl (\<lambda>m p. if starts_with (fst p) ''_'' then m else smap_put (fst p) (snd p) m) existing new"

definition doc_update :: "string \<Rightarrow> int \<Rightarrow> json \<Rightarrow> document \<Rightarrow> document" where
  "doc_update new_rev now data d =
     d\<lparr> doc_data :=
          (case (as_object (doc_data d), as_object data) of
             (Some existing, Some new) \<Rightarrow> JObject (merge_fields existing new)
           | _ \<Rightarrow> strip_system data),
        doc_rev := new_rev, doc_updated_at := now \<rparr>"

definition doc_get :: "document \<Rightarrow> string \<Rightarrow> json option" where
  "doc_get d field =
     (if field = ''_key'' then Some (JString (doc_key_of d))
      else if field = ''_id'' then Some (JString (doc_id d))
      else if field = ''_rev'' then Some (JString (doc_rev d))
      else json_get (doc_data d) field)"

definition to_value :: "doc_codec \<Rightarrow> document \<Rightarrow> json" where
  "to_value D d =
     (case flatten D (doc_data d) of
        None \<Rightarrow> JNull
      | Some fs \<Rightarrow>
          JObject (foldl (\<lambda>m p. smap_put (fst p) (snd p) m) []
            ([(''_key'', JString (doc_key_of d)), (''_id'', JString (doc_id d)),
              (''_rev'', JString (doc_rev d)),
              (''_created_at'', JString (fmt_time D (doc_created_at d))),
              (''_updated_at'', JString (fmt_time D (doc_updated_at d)))] @ fs)))"

section \<open>The stored form\<close>

definition DOC_FORMAT_VERSION :: nat where
  "DOC_FORMAT_VERSION = 2"

definition from_doc :: "doc_codec \<Rightarrow> document \<Rightarrow> doc_version" where
  "from_doc D d =
     \<lparr> dv_version = DOC_FORMAT_VERSION, dv_key = doc_key_of d, dv_id = doc_id d, dv_rev = doc_rev d,
       dv_created_at = doc_created_at d, dv_updated_at = doc_updated_at d,
       dv_data = (case rmp_to_vec D (doc_data d) of Some b \<Rightarrow> b | None \<Rightarrow> []) \<rparr>"

definition to_doc :: "doc_codec \<Rightarrow> doc_version \<Rightarrow> document" where
  "to_doc D v =
     \<lparr> doc_key_of = dv_key v, doc_id = dv_id v, doc_rev = dv_rev v,
       doc_created_at = dv_created_at v, doc_updated_at = dv_updated_at v,
       doc_data = (case rmp_from_slice D (dv_data v) of
                     Some j \<Rightarrow> j
                   | None \<Rightarrow> (case json_from_slice D (dv_data v) of Some j \<Rightarrow> j | None \<Rightarrow> JNull)) \<rparr>"

definition to_doc_legacy_v1 :: "doc_codec \<Rightarrow> doc_version \<Rightarrow> document" where
  "to_doc_legacy_v1 D v =
     \<lparr> doc_key_of = dv_key v, doc_id = dv_id v, doc_rev = dv_rev v,
       doc_created_at = dv_created_at v, doc_updated_at = dv_updated_at v,
       doc_data = (case json_from_slice D (dv_data v) of Some j \<Rightarrow> j | None \<Rightarrow> JNull) \<rparr>"

definition serialize_doc :: "doc_codec \<Rightarrow> document \<Rightarrow> bytes db_result" where
  "serialize_doc D d =
     (case bincode_ser D (from_doc D d) of
        Inl e \<Rightarrow> Inl (InternalError (''Serialization failed: '' @ e))
      | Inr b \<Rightarrow> Inr (char_of DOC_FORMAT_VERSION # b))"

definition deserialize_doc :: "doc_codec \<Rightarrow> bytes \<Rightarrow> document db_result" where
  "deserialize_doc D bs =
     (case bs of
        [] \<Rightarrow> Inl (DocumentNotFound ''empty bytes'')
      | v # rest \<Rightarrow>
          if v = CHR 0x02 then
            (case bincode_de D rest of
               Inl e \<Rightarrow> Inl (InternalError (''Deserialization failed: '' @ e))
             | Inr dv \<Rightarrow> Inr (to_doc D dv))
          else if v = CHR 0x01 then
            (case bincode_de D rest of
               Inl e \<Rightarrow> Inl (InternalError (''Legacy v1 deserialization failed: '' @ e))
             | Inr dv \<Rightarrow> Inr (to_doc_legacy_v1 D dv))
          else
            (case doc_from_json D bs of
               Inl e \<Rightarrow> Inl (InternalError (''Legacy JSON deserialization failed: '' @ e))
             | Inr d \<Rightarrow> Inr d))"

definition serialize_to_json :: "doc_codec \<Rightarrow> document \<Rightarrow> bytes db_result" where
  "serialize_to_json D d =
     map_err (\<lambda>e. InternalError (''JSON serialization failed: '' @ e)) (doc_to_json D d)"

definition deserialize_from_json :: "doc_codec \<Rightarrow> bytes \<Rightarrow> document db_result" where
  "deserialize_from_json D bs =
     map_err (\<lambda>e. InternalError (''JSON deserialization failed: '' @ e)) (doc_from_json D bs)"

definition needs_migration :: "bytes \<Rightarrow> bool" where
  "needs_migration bs \<longleftrightarrow> bs \<noteq> [] \<and> hd bs \<noteq> char_of DOC_FORMAT_VERSION"

section \<open>Laws of the libraries\<close>

text \<open>
  bincode and MessagePack give back what they were given, serde flattens an object to its fields,
  and a JSON text does not start with the byte 2 (so the JSON reader refuses the binary form).
\<close>

definition doc_codec_ok :: "doc_codec \<Rightarrow> bool" where
  "doc_codec_ok D \<longleftrightarrow>
     (\<forall>j. \<exists>b. rmp_to_vec D j = Some b \<and> rmp_from_slice D b = Some j) \<and>
     (\<forall>v. \<exists>b. bincode_ser D v = Inr b \<and> bincode_de D b = Inr v) \<and>
     (\<forall>m. flatten D (JObject m) = Some m) \<and>
     (\<forall>b. \<exists>e. doc_from_json D (CHR 0x02 # b) = Inl e)"

lemma serialize_ok:
  assumes "doc_codec_ok D"
  shows "\<exists>b. serialize_doc D d = Inr (CHR 0x02 # b) \<and> deserialize_doc D (CHR 0x02 # b) = Inr d"
proof -
  obtain b where b: "rmp_to_vec D (doc_data d) = Some b" "rmp_from_slice D b = Some (doc_data d)"
    using assms unfolding doc_codec_ok_def by blast
  obtain c where c: "bincode_ser D (from_doc D d) = Inr c" "bincode_de D c = Inr (from_doc D d)"
    using assms unfolding doc_codec_ok_def by blast
  have "to_doc D (from_doc D d) = d" using b by (simp add: to_doc_def from_doc_def)
  with c show ?thesis
    by (auto simp: serialize_doc_def deserialize_doc_def DOC_FORMAT_VERSION_def char_of_def bit_0)
qed

text \<open>
  a document that was serialised is read back unchanged, in the current format, and is not
  reported as needing migration.
\<close>

theorem document_roundtrip:
  assumes "doc_codec_ok D"
  shows "\<exists>bs. serialize_doc D d = Inr bs \<and> deserialize_doc D bs = Inr d \<and> \<not> needs_migration bs"
  using serialize_ok [OF assms, of d]
  by (auto simp: needs_migration_def DOC_FORMAT_VERSION_def char_of_def bit_0)


section \<open>An instance of the libraries\<close>

text \<open>For the witnesses: every value is written as the decimal form of its number in an enumeration
  of its (countable) type.\<close>

instance word :: (len) countable
  by (rule countable_classI [of unat]) (simp add: word_unat_eq_iff)

instance char :: countable
  by (rule countable_classI [of "of_char :: char \<Rightarrow> nat"]) simp

instance number :: countable
  by countable_datatype

instance json :: countable
  by countable_datatype

definition nat_of_digits :: "bytes \<Rightarrow> nat" where
  "nat_of_digits b = (case parse_digits 0 b of Some n \<Rightarrow> n | None \<Rightarrow> 0)"

definition demo_ser :: "'a::countable \<Rightarrow> bytes" where
  "demo_ser x = show_nat (to_nat x)"

definition demo_de :: "bytes \<Rightarrow> 'a::countable" where
  "demo_de b = from_nat (nat_of_digits b)"

lemma demo_de_ser [simp]: "demo_de (demo_ser x) = x"
  by (simp add: demo_de_def demo_ser_def nat_of_digits_def parse_show_nat)

definition dv_tuple :: "doc_version \<Rightarrow> nat \<times> string \<times> string \<times> string \<times> int \<times> int \<times> bytes" where
  "dv_tuple v =
     (dv_version v, dv_key v, dv_id v, dv_rev v, dv_created_at v, dv_updated_at v, dv_data v)"

definition dv_of :: "nat \<times> string \<times> string \<times> string \<times> int \<times> int \<times> bytes \<Rightarrow> doc_version" where
  "dv_of t = (case t of (a, b, c, d, e, f, g) \<Rightarrow>
     \<lparr> dv_version = a, dv_key = b, dv_id = c, dv_rev = d, dv_created_at = e, dv_updated_at = f,
       dv_data = g \<rparr>)"

definition demo_doc_codec :: doc_codec where
  "demo_doc_codec = \<lparr>
     flatten = as_object, fmt_time = (\<lambda>t. show_nat (nat t)),
     rmp_to_vec = (\<lambda>j. Some (demo_ser j)), rmp_from_slice = (\<lambda>b. Some (demo_de b)),
     json_from_slice = (\<lambda>_. None),
     bincode_ser = (\<lambda>v. Inr (demo_ser (dv_tuple v))), bincode_de = (\<lambda>b. Inr (dv_of (demo_de b))),
     doc_from_json = (\<lambda>_. Inl ''expected value''), doc_to_json = (\<lambda>_. Inl ''unsupported'') \<rparr>"

lemma demo_doc_codec_ok: "doc_codec_ok demo_doc_codec"
  by (simp add: doc_codec_ok_def demo_doc_codec_def dv_of_def dv_tuple_def)

theorem document_roundtrip_witness:
  "\<exists>bs. serialize_doc demo_doc_codec (doc_with_key ''r1'' 0 ''db:c'' ''k'' (JObject [(''a'', JNull)])) =
     Inr bs \<and>
   deserialize_doc demo_doc_codec bs =
     Inr (doc_with_key ''r1'' 0 ''db:c'' ''k'' (JObject [(''a'', JNull)])) \<and> \<not> needs_migration bs"
  by (rule document_roundtrip [OF demo_doc_codec_ok])

end
