(* ===== verification/Text.thy ===== *)
theory Text
  imports Utf8
begin

text \<open>
  Text processing for the full-text index, \<^verbatim>\<open>src/storage/index.rs\<close>: normalisation, tokens, n-grams
  and the Levenshtein distance. ASCII is modelled exactly; what the standard library's Unicode
  tables say about other characters (lower case of a string, alphanumeric) is the record
  \<open>unicode\<close>.
\<close>

section \<open>Characters\<close>

record unicode =
  uni_lowercase :: "string \<Rightarrow> string"
  uni_alphanumeric :: "nat \<Rightarrow> bool"

definition is_ascii :: "string \<Rightarrow> bool" where
  "is_ascii s \<longleftrightarrow> list_all (\<lambda>c. (of_char c :: nat) < 0x80) s"

definition ascii_lower :: "char \<Rightarrow> char" where
  "ascii_lower c =
     (let n = (of_char c :: nat) in if 65 \<le> n \<and> n \<le> 90 then char_of (n + 32) else c)"

definition to_lowercase :: "unicode \<Rightarrow> string \<Rightarrow> string" where
  "to_lowercase U s = (if is_ascii s then map ascii_lower s else uni_lowercase U s)"

definition is_alphanumeric :: "unicode \<Rightarrow> nat \<Rightarrow> bool" where
  "is_alphanumeric U n =
     (if n < 0x80 then 48 \<le> n \<and> n \<le> 57 \<or> 65 \<le> n \<and> n \<le> 90 \<or> 97 \<le> n \<and> n \<le> 122
      else uni_alphanumeric U n)"

text \<open>\<^verbatim>\<open>split_whitespace\<close> on the characters of a string: the maximal runs of other characters.\<close>

fun split_ws_aux :: "nat list \<Rightarrow> nat list \<Rightarrow> nat list list" where
  "split_ws_aux w [] = (if w = [] then [] else [w])"
| "split_ws_aux w (c # cs) =
     (if is_whitespace c then (if w = [] then split_ws_aux [] cs else w # split_ws_aux [] cs)
      else split_ws_aux (w @ [c]) cs)"

definition split_ws :: "nat list \<Rightarrow> nat list list" where
  "split_ws cs = split_ws_aux [] cs"

fun join_words :: "nat list list \<Rightarrow> nat list" where
  "join_words [] = []"
| "join_words [w] = w"
| "join_words (w # v # ws) = w @ [32] @ join_words (v # ws)"

section \<open>Normalisation, tokens and n-grams\<close>

text \<open>The characters of the normalised text.\<close>

definition normalize_chars :: "unicode \<Rightarrow> string \<Rightarrow> nat list" where
  "normalize_chars U text =
     join_words (split_ws
       (filter (\<lambda>c. is_alphanumeric U c \<or> is_whitespace c) (utf8_chars (to_lowercase U text))))"

definition normalize_text :: "unicode \<Rightarrow> string \<Rightarrow> string" where
  "normalize_text U text = utf8_encode (normalize_chars U text)"

definition tokenize :: "unicode \<Rightarrow> string \<Rightarrow> string list" where
  "tokenize U text = map utf8_encode (split_ws (normalize_chars U text))"

text \<open>\<^verbatim>\<open>slice::windows\<close>.\<close>

definition windows :: "nat \<Rightarrow> 'a list \<Rightarrow> 'a list list" where
  "windows n xs = map (\<lambda>i. take n (drop i xs)) [0..<length xs + 1 - n]"

text \<open>The guard compares the length in bytes, the windows run over characters.\<close>

definition generate_ngrams :: "unicode \<Rightarrow> string \<Rightarrow> nat \<Rightarrow> string list" where
  "generate_ngrams U text n =
     (if length (normalize_text U text) < n then [normalize_text U text]
      else map utf8_encode (windows n (normalize_chars U text)))"

section \<open>Edit distance\<close>

text \<open>One row of the matrix from the row above it: \<open>left\<close> is the entry to the left, \<open>diag\<close> the
  entry above that, \<open>ups\<close> the rest of the row above.\<close>

fun lev_row :: "nat \<Rightarrow> nat \<Rightarrow> nat \<Rightarrow> nat list \<Rightarrow> nat list \<Rightarrow> nat list" where
  "lev_row c left diag (b # bs) (up # ups) =
     (let v = min (min (up + 1) (left + 1)) (diag + (if c = b then 0 else 1))
      in v # lev_row c v up bs ups)"
| "lev_row c left diag _ _ = []"

fun lev_rows :: "nat \<Rightarrow> nat list \<Rightarrow> nat list \<Rightarrow> nat list \<Rightarrow> nat list" where
  "lev_rows i [] bs row = row"
| "lev_rows i (c # cs) bs row =
     lev_rows (i + 1) cs bs (i # lev_row c i (hd row) bs (tl row))"

definition levenshtein_distance :: "string \<Rightarrow> string \<Rightarrow> nat" where
  "levenshtein_distance a b =
     (let ac = utf8_chars a; bc = utf8_chars b
      in if ac = [] then length bc
         else if bc = [] then length ac
         else last (lev_rows 1 ac bc [0..<length bc + 1]))"

section \<open>No separator in index terms\<close>

lemma set_split_ws_aux: "w' \<in> set (split_ws_aux w cs) \<Longrightarrow> set w' \<subseteq> set w \<union> set cs"
  by (induction w cs rule: split_ws_aux.induct) (auto split: if_splits)

lemma set_split_ws: "w \<in> set (split_ws cs) \<Longrightarrow> set w \<subseteq> set cs"
  unfolding split_ws_def using set_split_ws_aux by fastforce

lemma set_join_words: "set (join_words ws) \<subseteq> insert 32 (\<Union> (set ` set ws))"
  by (induction ws rule: join_words.induct) auto

lemma normalize_chars_no_colon: "58 \<notin> set (normalize_chars U text)"
proof
  assume "58 \<in> set (normalize_chars U text)"
  then obtain w where "w \<in> set (split_ws (filter (\<lambda>c. is_alphanumeric U c \<or> is_whitespace c)
      (utf8_chars (to_lowercase U text))))" "58 \<in> set w"
    unfolding normalize_chars_def using set_join_words by fastforce
  from set_split_ws [OF this(1)] this(2) show False
    by (auto simp: is_alphanumeric_def is_whitespace_def)
qed

lemma char_of_eq_colon: "n < 256 \<Longrightarrow> (char_of n = CHR '':'') \<longleftrightarrow> n = (58 :: nat)"
proof -
  assume "n < 256"
  then have "char_of n = CHR '':'' \<longleftrightarrow> of_char (char_of n :: char) = (of_char CHR '':'' :: nat)"
    by (metis of_char_eq_iff)
  with \<open>n < 256\<close> show ?thesis by simp
qed

text \<open>Only the character \<open>:\<close> is written with the byte \<open>:\<close>.\<close>

lemma utf8_encode_char_no_colon:
  assumes "n \<noteq> 58" "n < 0x400000"
  shows "CHR '':'' \<notin> set (utf8_encode_char n)"
proof -
  have "n div 64 < 256 - 0xC0" if "n < 0x800" using that by auto
  moreover have "n div 4096 < 256 - 0xE0" if "n < 0x10000" using that by auto
  moreover have "n div 262144 < 256 - 0xF0" using assms by auto
  ultimately show ?thesis
    using assms by (auto simp: utf8_encode_char_def char_of_eq_colon eq_commute [of "CHR '':''"])
qed

lemma of_char_minus: "(of_char c :: nat) - 0x80 \<le> 127" "(of_char c :: nat) - 0xC0 \<le> 63"
    "(of_char c :: nat) - 0xE0 \<le> 31" "(of_char c :: nat) < 256"
  using of_char_lt_256 [of c] by linarith+

lemma utf8_code_bounds:
  "(of_char c - 0xC0) * 64 + (of_char c1 - 0x80) < (0x400000 :: nat)"
  "(of_char c - 0xE0) * 4096 + (of_char c1 - 0x80) * 64 + (of_char c2 - 0x80) < (0x400000 :: nat)"
  "(of_char c :: nat) \<le> 0xF4 \<Longrightarrow>
   (of_char c - 0xF0) * 262144 + (of_char c1 - 0x80) * 4096 + (of_char c2 - 0x80) * 64
     + (of_char c3 - 0x80) < (0x400000 :: nat)"
proof -
  note m = of_char_minus [of c] of_char_minus(1) [of c1] of_char_minus(1) [of c2] of_char_minus(1) [of c3]
  show "(of_char c - 0xC0) * 64 + (of_char c1 - 0x80) < (0x400000 :: nat)" using m by linarith
  show "(of_char c - 0xE0) * 4096 + (of_char c1 - 0x80) * 64 + (of_char c2 - 0x80) < (0x400000 :: nat)"
    using m by linarith
  assume "(of_char c :: nat) \<le> 0xF4"
  then have "(of_char c :: nat) - 0xF0 \<le> 4" by linarith
  with m show "(of_char c - 0xF0) * 262144 + (of_char c1 - 0x80) * 4096 + (of_char c2 - 0x80) * 64
     + (of_char c3 - 0x80) < (0x400000 :: nat)" by linarith
qed

lemma utf8_chars_bound: "\<forall>n \<in> set (utf8_chars s). n < 0x400000"
proof (induction s rule: utf8_chars.induct)
  case (2 c cs)
  show ?case
    using 2 utf8_code_bounds [of c] of_char_minus(4) [of c]
    unfolding utf8_chars.simps(2) Let_def
    by (simp split: list.split)
qed simp

lemma normalize_chars_bound: "n \<in> set (normalize_chars U s) \<Longrightarrow> n < 0x400000"
proof -
  assume "n \<in> set (normalize_chars U s)"
  then have "n = 32 \<or> (\<exists>w \<in> set (split_ws (filter (\<lambda>c. is_alphanumeric U c \<or> is_whitespace c)
      (utf8_chars (to_lowercase U s)))). n \<in> set w)"
    unfolding normalize_chars_def using set_join_words by fastforce
  then have "n = 32 \<or> n \<in> set (utf8_chars (to_lowercase U s))"
    using set_split_ws by fastforce
  then show ?thesis using utf8_chars_bound [of "to_lowercase U s"] by auto
qed

lemma utf8_encode_no_colon:
  assumes "set cs \<subseteq> set (normalize_chars U s)"
  shows "CHR '':'' \<notin> set (utf8_encode cs)"
proof -
  have "CHR '':'' \<notin> set (utf8_encode_char n)" if "n \<in> set cs" for n
    using that assms normalize_chars_no_colon [of U s] normalize_chars_bound [of n U s]
    by (intro utf8_encode_char_no_colon) auto
  then show ?thesis by (auto simp: utf8_encode_def)
qed

lemma tokenize_no_colon: "t \<in> set (tokenize U s) \<Longrightarrow> CHR '':'' \<notin> set t"
  by (auto simp: tokenize_def dest!: set_split_ws utf8_encode_no_colon)

lemma set_windows: "w \<in> set (windows n xs) \<Longrightarrow> set w \<subseteq> set xs"
  by (auto simp: windows_def dest: in_set_takeD in_set_dropD)

lemma ngrams_no_colon: "g \<in> set (generate_ngrams U s n) \<Longrightarrow> CHR '':'' \<notin> set g"
  using utf8_encode_no_colon [OF order_refl, of U s]
  by (auto simp: generate_ngrams_def normalize_text_def dest!: set_windows utf8_encode_no_colon
      split: if_splits)

section \<open>The edit distance is computed correctly\<close>

text \<open>The reference: the number of single-character insertions, deletions and substitutions, by
  recursion on the last characters (the lists are reversed).\<close>

fun lev :: "nat list \<Rightarrow> nat list \<Rightarrow> nat" where
  "lev [] ys = length ys"
| "lev (x # xs) [] = length (x # xs)"
| "lev (x # xs) (y # ys) =
     min (min (lev xs (y # ys) + 1) (lev (x # xs) ys + 1)) (lev xs ys + (if x = y then 0 else 1))"

lemma lev_Nil2 [simp]: "lev xs [] = length xs"
  by (cases xs) auto

lemma lev_row_correct:
  "lev_row c (lev (c # r) p) (lev r p) bs (map (\<lambda>k. lev r (rev (take (Suc k) bs) @ p)) [0..<length bs]) =
   map (\<lambda>k. lev (c # r) (rev (take (Suc k) bs) @ p)) [0..<length bs]"
proof (induction bs arbitrary: p)
  case (Cons b bs)
  have split: "map f [0..<length (b # bs)] = f 0 # map (\<lambda>k. f (Suc k)) [0..<length bs]" for f :: "nat \<Rightarrow> nat"
    by (simp add: upt_conv_Cons map_Suc_upt [symmetric] comp_def del: upt_Suc)
  show ?case
    unfolding split using Cons.IH [of "b # p"] by (simp add: Let_def)
qed simp

definition lev_table_row :: "nat list \<Rightarrow> nat list \<Rightarrow> nat list" where
  "lev_table_row r bs = map (\<lambda>k. lev r (rev (take k bs))) [0..<length bs + 1]"

lemma lev_table_row_Cons:
  "lev_table_row r bs = length r # map (\<lambda>k. lev r (rev (take (Suc k) bs))) [0..<length bs]"
  by (simp add: lev_table_row_def upt_conv_Cons map_Suc_upt [symmetric] comp_def del: upt_Suc)

lemma lev_rows_correct:
  "lev_rows (length r + 1) as bs (lev_table_row r bs) = lev_table_row (rev as @ r) bs"
proof (induction as arbitrary: r)
  case (Cons c as)
  have "(length r + 1) # lev_row c (length r + 1) (hd (lev_table_row r bs)) bs (tl (lev_table_row r bs)) =
      lev_table_row (c # r) bs"
    unfolding lev_table_row_Cons using lev_row_correct [of c r "[]" bs] by simp
  then show ?case using Cons.IH [of "c # r"] by simp
qed simp

text \<open>
  the matrix computation of the edit distance returns the distance of the reference definition
  on the characters of the two strings.
\<close>

theorem levenshtein_correct:
  "levenshtein_distance a b = lev (rev (utf8_chars a)) (rev (utf8_chars b))"
proof -
  let ?a = "utf8_chars a" and ?b = "utf8_chars b"
  have row0: "lev_table_row [] ?b = [0..<length ?b + 1]"
    by (auto simp: lev_table_row_def simp del: upt_Suc intro!: map_idI)
  have "last (lev_rows 1 ?a ?b [0..<length ?b + 1]) = lev (rev ?a) (rev ?b)"
    using lev_rows_correct [of "[]" ?a ?b] unfolding row0 [symmetric]
    by (simp add: lev_table_row_def)
  then show ?thesis by (simp add: levenshtein_distance_def Let_def)
qed

end
