(* ===== verification/Collection.thy ===== *)
theory Collection
  imports Store Document Text
begin

text \<open>
  The state of a collection and what it is made of, \<^verbatim>\<open>src/storage/collection/mod.rs\<close>, \<^verbatim>\<open>core.rs\<close>,
  \<^verbatim>\<open>schema.rs\<close>, \<^verbatim>\<open>vector.rs\<close>, \<^verbatim>\<open>blobs.rs\<close> and \<^verbatim>\<open>src/storage/schema.rs\<close>: the record of a collection,
  metadata of its indexes, change events, counters, schema validation, vector-index upkeep and blob
  chunks.

  Foreign code is the record \<open>env\<close>, an argument of every operation: RocksDB, the JSON and binary
  codecs, the JSON-schema compiler, chrono's date parser, the filter crates. The graph of a vector
  index (\<^verbatim>\<open>src/storage/vector.rs\<close>) is not modelled; it is a type of its own with insert, remove and
  its serialised form in the record. The column family of the collection exists, as the code expects.
\<close>

section \<open>Metadata\<close>

datatype index_type = Hash | Persistent | FulltextT | TTLT | Bloom | Cuckoo | VectorT

record index =
  ix_name :: string
  ix_fields :: "string list"
  ix_type :: index_type
  ix_unique :: bool

record geo_index =
  gx_name :: string
  gx_field :: string
  gx_precision :: nat

record fulltext_index =
  fx_name :: string
  fx_fields :: "string list"
  fx_min_length :: nat

record ttl_index =
  tx_name :: string
  tx_field :: string
  tx_expire_after :: u64

datatype vector_metric = Cosine | Euclidean | DotProduct

datatype vector_quantization = NoQuantization | ScalarQuantization

record vector_config =
  vx_name :: string
  vx_field :: string
  vx_dimension :: nat
  vx_metric :: vector_metric
  vx_m :: nat
  vx_ef_construction :: nat
  vx_quantization :: vector_quantization

datatype validation_mode = Off | Strict | Lenient

record coll_schema =
  sc_name :: string
  sc_schema :: json
  sc_mode :: validation_mode

record 's validator =
  va_schema :: coll_schema
  va_compiled :: "'s option"

text \<open>\<^verbatim>\<open>serde_json::to_vec\<close> and \<^verbatim>\<open>from_slice\<close> at one type.\<close>

record 'a meta_codec =
  to_vec :: "'a \<Rightarrow> string + bytes"
  from_slice :: "bytes \<Rightarrow> 'a option"

definition meta_codec_ok :: "'a meta_codec \<Rightarrow> bool" where
  "meta_codec_ok C \<longleftrightarrow> (\<forall>a. \<exists>b. to_vec C a = Inr b \<and> from_slice C b = Some a)"

section \<open>Foreign code\<close>

record ('db, 'v, 's, 'f) env =
  env_db :: "'db rocks"
  env_json :: serde
  env_doc :: doc_codec
  env_uni :: unicode
  env_lossy :: "bytes \<Rightarrow> string"
  idx_codec :: "index meta_codec"
  geo_codec :: "geo_index meta_codec"
  ft_codec :: "fulltext_index meta_codec"
  ttl_codec :: "ttl_index meta_codec"
  vec_codec :: "vector_config meta_codec"
  schema_codec :: "coll_schema meta_codec"
  sea_hash :: "bytes \<Rightarrow> u64"
  validator_for :: "json \<Rightarrow> string + 's"
  schema_errors :: "'s \<Rightarrow> json \<Rightarrow> string list"
  parse_rfc3339 :: "string \<Rightarrow> u64 option"
  vec_insert :: "'v \<Rightarrow> string \<Rightarrow> u64 list \<Rightarrow> 'v"
  vec_remove :: "'v \<Rightarrow> string \<Rightarrow> 'v"
  vec_serialize :: "'v \<Rightarrow> string + bytes"
  vec_deserialize :: "bytes \<Rightarrow> string + 'v"
  bloom_empty :: 'f
  bloom_add :: "'f \<Rightarrow> bytes \<Rightarrow> 'f"
  bloom_has :: "'f \<Rightarrow> bytes \<Rightarrow> bool"
  bloom_codec :: "'f meta_codec"
  cuckoo_empty :: 'f
  cuckoo_add :: "'f \<Rightarrow> string \<Rightarrow> 'f"
  cuckoo_del :: "'f \<Rightarrow> string \<Rightarrow> 'f"
  cuckoo_has :: "'f \<Rightarrow> string \<Rightarrow> bool"
  debug_strings :: "string list \<Rightarrow> string"
  debug_values :: "json list \<Rightarrow> string"

text \<open>\<^verbatim>\<open>String::from_utf8_lossy\<close>: the bytes themselves when they are UTF-8.\<close>

definition from_utf8_lossy :: "('db, 'v, 's, 'f) env \<Rightarrow> bytes \<Rightarrow> string" where
  "from_utf8_lossy E b = (if utf8_valid b then b else env_lossy E b)"

text \<open>A string between single quotes.\<close>

definition quoted :: "string \<Rightarrow> string" where
  "quoted s = [CHR 0x27] @ s @ [CHR 0x27]"

section \<open>The collection\<close>

datatype change_type = CInsert | CUpdate | CDelete

record change_event =
  ce_type :: change_type
  ce_key :: string
  ce_data :: "json option"
  ce_old_data :: "json option"

record ('db, 'v, 's, 'f) collection =
  coll_name :: string
  coll_db :: 'db
  doc_count :: u64
  chunk_count :: u64
  count_dirty :: bool
  last_flush_time :: u64
  collection_type :: string
  bloom_filters :: "(string, 'f) smap"
  cuckoo_filters :: "(string, 'f) smap"
  vector_indexes :: "(string, 'v) smap"
  schema_validator :: "'s validator option"
  schema_hash :: "u64 option"
  changes :: "change_event list"

type_synonym ('db, 'v, 's, 'f, 'a) act =
  "('db, 'v, 's, 'f) collection \<Rightarrow> (db_error + 'a) \<times> ('db, 'v, 's, 'f) collection"

text \<open>An operation returns a result and the collection after it; \<open>bind\<close> is Rust's \<^verbatim>\<open>?\<close>.\<close>

definition ret :: "'a \<Rightarrow> 'c \<Rightarrow> (db_error + 'a) \<times> 'c" where
  "ret a c = (Inr a, c)"

definition fail :: "db_error \<Rightarrow> 'c \<Rightarrow> (db_error + 'a) \<times> 'c" where
  "fail e c = (Inl e, c)"

definition lift :: "'a db_result \<Rightarrow> 'c \<Rightarrow> (db_error + 'a) \<times> 'c" where
  "lift r c = (r, c)"

definition bind ::
    "('c \<Rightarrow> (db_error + 'a) \<times> 'c) \<Rightarrow> ('a \<Rightarrow> 'c \<Rightarrow> (db_error + 'b) \<times> 'c) \<Rightarrow> 'c \<Rightarrow> (db_error + 'b) \<times> 'c"
where
  "bind m f c = (case m c of (Inl e, c') \<Rightarrow> (Inl e, c') | (Inr a, c') \<Rightarrow> f a c')"

definition modify :: "('c \<Rightarrow> 'c) \<Rightarrow> 'c \<Rightarrow> (db_error + unit) \<times> 'c" where
  "modify f c = (Inr (), f c)"

lemma act_simps [simp]:
  "ret a c = (Inr a, c)" "fail e c = (Inl e, c)" "lift r c = (r, c)" "modify f c = (Inr (), f c)"
  by (simp_all add: ret_def fail_def lift_def modify_def)

lemma bind_Inr_iff:
  "bind m f c = (Inr b, c') \<longleftrightarrow> (\<exists>a c1. m c = (Inr a, c1) \<and> f a c1 = (Inr b, c'))"
  by (auto simp: bind_def split: prod.splits sum.splits)

lemma bind_Inl_iff:
  "bind m f c = (Inl e, c') \<longleftrightarrow>
   m c = (Inl e, c') \<or> (\<exists>a c1. m c = (Inr a, c1) \<and> f a c1 = (Inl e, c'))"
  by (auto simp: bind_def split: prod.splits sum.splits)

text \<open>One write batch, with the prefix of the error message.\<close>

definition db_write ::
    "('db, 'v, 's, 'f) env \<Rightarrow> string \<Rightarrow> write_op list \<Rightarrow> ('db, 'v, 's, 'f, unit) act" where
  "db_write E msg ops c =
     (case write_batch (env_db E) (coll_db c) ops of
        Inl e \<Rightarrow> (Inl (InternalError (msg @ e)), c)
      | Inr d \<Rightarrow> (Inr (), c\<lparr> coll_db := d \<rparr>))"

lemma db_write_Inr_iff:
  "db_write E msg ops c = (Inr u, c') \<longleftrightarrow>
   (\<exists>d. write_batch (env_db E) (coll_db c) ops = Inr d \<and> c' = c\<lparr> coll_db := d \<rparr>)"
  by (auto simp: db_write_def split: sum.splits)

lemma db_write_Inl: "db_write E msg ops c = (Inl e, c') \<Longrightarrow> c' = c"
  by (auto simp: db_write_def split: sum.splits)

text \<open>Parsing the values of a metadata prefix, skipping what does not parse.\<close>

definition read_meta ::
    "('db, 'v, 's, 'f) env \<Rightarrow> 'a meta_codec \<Rightarrow> bytes \<Rightarrow> ('db, 'v, 's, 'f) collection \<Rightarrow> 'a list"
where
  "read_meta E C pre c =
     List.map_filter (\<lambda>p. from_slice C (snd p)) (scan_all (env_db E) (coll_db c) pre)"

definition get_meta ::
    "('db, 'v, 's, 'f) env \<Rightarrow> 'a meta_codec \<Rightarrow> bytes \<Rightarrow> ('db, 'v, 's, 'f) collection \<Rightarrow> 'a option"
where
  "get_meta E C key c =
     (case get_cf (env_db E) (coll_db c) key of Inr (Some b) \<Rightarrow> from_slice C b | _ \<Rightarrow> None)"

definition get_all_indexes :: "('db, 'v, 's, 'f) env \<Rightarrow> ('db, 'v, 's, 'f) collection \<Rightarrow> index list" where
  "get_all_indexes E c = read_meta E (idx_codec E) IDX_META_PREFIX c"

definition get_index ::
    "('db, 'v, 's, 'f) env \<Rightarrow> string \<Rightarrow> ('db, 'v, 's, 'f) collection \<Rightarrow> index option" where
  "get_index E name c = get_meta E (idx_codec E) (idx_meta_key name) c"

definition get_all_geo_indexes ::
    "('db, 'v, 's, 'f) env \<Rightarrow> ('db, 'v, 's, 'f) collection \<Rightarrow> geo_index list" where
  "get_all_geo_indexes E c = read_meta E (geo_codec E) GEO_META_PREFIX c"

definition get_geo_index ::
    "('db, 'v, 's, 'f) env \<Rightarrow> string \<Rightarrow> ('db, 'v, 's, 'f) collection \<Rightarrow> geo_index option" where
  "get_geo_index E name c = get_meta E (geo_codec E) (geo_meta_key name) c"

definition get_all_fulltext_indexes ::
    "('db, 'v, 's, 'f) env \<Rightarrow> ('db, 'v, 's, 'f) collection \<Rightarrow> fulltext_index list" where
  "get_all_fulltext_indexes E c = read_meta E (ft_codec E) FT_META_PREFIX c"

definition get_fulltext_index ::
    "('db, 'v, 's, 'f) env \<Rightarrow> string \<Rightarrow> ('db, 'v, 's, 'f) collection \<Rightarrow> fulltext_index option" where
  "get_fulltext_index E name c = get_meta E (ft_codec E) (ft_meta_key name) c"

definition get_all_ttl_indexes ::
    "('db, 'v, 's, 'f) env \<Rightarrow> ('db, 'v, 's, 'f) collection \<Rightarrow> ttl_index list" where
  "get_all_ttl_indexes E c = read_meta E (ttl_codec E) TTL_META_PREFIX c"

definition get_ttl_index ::
    "('db, 'v, 's, 'f) env \<Rightarrow> string \<Rightarrow> ('db, 'v, 's, 'f) collection \<Rightarrow> ttl_index option" where
  "get_ttl_index E name c = get_meta E (ttl_codec E) (ttl_meta_key name) c"

section \<open>Opening, type and statistics\<close>

definition count_prefix :: "('db, 'v, 's, 'f) env \<Rightarrow> 'db \<Rightarrow> bytes \<Rightarrow> u64" where
  "count_prefix E d pre = of_nat (length (scan_while (env_db E) d pre))"

definition coll_new :: "('db, 'v, 's, 'f) env \<Rightarrow> string \<Rightarrow> 'db \<Rightarrow> ('db, 'v, 's, 'f) collection" where
  "coll_new E name d = \<lparr>
     coll_name = name, coll_db = d,
     doc_count = (case get_cf (env_db E) d STATS_COUNT_KEY of
                    Inr (Some b) \<Rightarrow> (case parse_u64 (from_utf8_lossy E b) of Some n \<Rightarrow> n | None \<Rightarrow> 0)
                  | _ \<Rightarrow> count_prefix E d DOC_PREFIX),
     chunk_count = count_prefix E d BLO_PREFIX,
     count_dirty = False, last_flush_time = 0,
     collection_type = (case get_cf (env_db E) d COLLECTION_TYPE_KEY of
                          Inr (Some b) \<Rightarrow> from_utf8_lossy E b | _ \<Rightarrow> ''document''),
     bloom_filters = [], cuckoo_filters = [], vector_indexes = [], schema_validator = None,
     schema_hash = None, changes = [] \<rparr>"

definition set_type :: "('db, 'v, 's, 'f) env \<Rightarrow> string \<Rightarrow> ('db, 'v, 's, 'f, unit) act" where
  "set_type E ty =
     bind (db_write E ''Failed to set collection type: '' [Put COLLECTION_TYPE_KEY ty])
       (\<lambda>_. modify (\<lambda>c. c\<lparr> collection_type := ty \<rparr>))"

text \<open>\<open>now\<close> is the clock in seconds; a failed write of the count is ignored.\<close>

definition flush_stats ::
    "('db, 'v, 's, 'f) env \<Rightarrow> u64 \<Rightarrow> ('db, 'v, 's, 'f) collection \<Rightarrow> ('db, 'v, 's, 'f) collection" where
  "flush_stats E now c =
     (if count_dirty c then
        (snd (db_write E [] [Put STATS_COUNT_KEY (show_u64 (doc_count c))] (c\<lparr> count_dirty := False \<rparr>)))
          \<lparr> last_flush_time := now \<rparr>
      else c)"

definition flush_stats_throttled ::
    "('db, 'v, 's, 'f) env \<Rightarrow> u64 \<Rightarrow> u64 \<Rightarrow> ('db, 'v, 's, 'f) collection \<Rightarrow> ('db, 'v, 's, 'f) collection" where
  "flush_stats_throttled E now now' c =
     (if \<not> count_dirty c then c
      else if now > last_flush_time c then flush_stats E now' c else c)"

definition increment_count :: "('db, 'v, 's, 'f) collection \<Rightarrow> ('db, 'v, 's, 'f) collection" where
  "increment_count c = c\<lparr> doc_count := doc_count c + 1, count_dirty := True \<rparr>"

definition decrement_count :: "('db, 'v, 's, 'f) collection \<Rightarrow> ('db, 'v, 's, 'f) collection" where
  "decrement_count c = c\<lparr> doc_count := doc_count c - 1, count_dirty := True \<rparr>"

definition send_change ::
    "change_event \<Rightarrow> ('db, 'v, 's, 'f) collection \<Rightarrow> ('db, 'v, 's, 'f) collection" where
  "send_change e c = c\<lparr> changes := changes c @ [e] \<rparr>"

section \<open>Schema validation\<close>

definition SCHEMA_KEY :: string where "SCHEMA_KEY = ''_stats:schema''"

definition is_enabled :: "coll_schema \<Rightarrow> bool" where
  "is_enabled s \<longleftrightarrow> sc_mode s \<noteq> Off"

definition validator_new :: "('db, 'v, 's, 'f) env \<Rightarrow> coll_schema \<Rightarrow> string + 's validator" where
  "validator_new E s =
     (if is_enabled s then
        (case validator_for E (sc_schema s) of
           Inl e \<Rightarrow> Inl (''Invalid JSON Schema: '' @ e)
         | Inr v \<Rightarrow> Inr \<lparr> va_schema = s, va_compiled = Some v \<rparr>)
      else Inr \<lparr> va_schema = s, va_compiled = None \<rparr>)"

definition validate :: "('db, 'v, 's, 'f) env \<Rightarrow> 's validator \<Rightarrow> json \<Rightarrow> string + unit" where
  "validate E va document =
     (case va_compiled va of
        None \<Rightarrow> Inr ()
      | Some v \<Rightarrow>
          (case sc_mode (va_schema va) of
             Off \<Rightarrow> Inr ()
           | Strict \<Rightarrow>
               if schema_errors E v document = [] then Inr ()
               else Inl ''Schema validation failed with violations''
           | Lenient \<Rightarrow> Inr ()))"

definition compute_schema_hash :: "('db, 'v, 's, 'f) env \<Rightarrow> coll_schema \<Rightarrow> u64" where
  "compute_schema_hash E s =
     sea_hash E (case to_vec (schema_codec E) s of Inr b \<Rightarrow> b | Inl _ \<Rightarrow> [])"

definition get_json_schema ::
    "('db, 'v, 's, 'f) env \<Rightarrow> ('db, 'v, 's, 'f) collection \<Rightarrow> coll_schema option" where
  "get_json_schema E c = get_meta E (schema_codec E) SCHEMA_KEY c"

definition get_cached_schema_validator ::
    "('db, 'v, 's, 'f) env \<Rightarrow> ('db, 'v, 's, 'f, 's validator option) act" where
  "get_cached_schema_validator E c =
     (case get_json_schema E c of
        None \<Rightarrow> (Inr None, c)
      | Some schema \<Rightarrow>
          (let h = compute_schema_hash E schema
           in case (if schema_hash c = Some h then schema_validator c else None) of
                Some v \<Rightarrow> (Inr (Some v), c)
              | None \<Rightarrow>
                  (case validator_new E schema of
                     Inl e \<Rightarrow> (Inl (InvalidDocument (''Schema compilation error: '' @ e)), c)
                   | Inr v \<Rightarrow>
                       (Inr (Some v), c\<lparr> schema_hash := Some h, schema_validator := Some v \<rparr>))))"

definition invalidate_schema_cache ::
    "('db, 'v, 's, 'f) collection \<Rightarrow> ('db, 'v, 's, 'f) collection" where
  "invalidate_schema_cache c = c\<lparr> schema_hash := None, schema_validator := None \<rparr>"

definition set_json_schema ::
    "('db, 'v, 's, 'f) env \<Rightarrow> coll_schema \<Rightarrow> ('db, 'v, 's, 'f, unit) act" where
  "set_json_schema E s =
     bind (modify invalidate_schema_cache) (\<lambda>_.
     bind (lift (if is_enabled s then
                   map_err (\<lambda>e. InvalidDocument (''Invalid JSON Schema: '' @ e))
                     (res_bind (validator_for E (sc_schema s)) (\<lambda>_. Inr ()))
                 else Inr ())) (\<lambda>_.
     bind (lift (map_err JsonError (to_vec (schema_codec E) s))) (\<lambda>b.
     db_write E ''Failed to set schema: '' [Put SCHEMA_KEY b])))"

definition remove_json_schema :: "('db, 'v, 's, 'f) env \<Rightarrow> ('db, 'v, 's, 'f, unit) act" where
  "remove_json_schema E =
     bind (modify invalidate_schema_cache) (\<lambda>_.
     db_write E ''Failed to remove schema: '' [Del SCHEMA_KEY])"

text \<open>The check that the writing operations make.\<close>

definition check_schema :: "('db, 'v, 's, 'f) env \<Rightarrow> json \<Rightarrow> ('db, 'v, 's, 'f, unit) act" where
  "check_schema E data =
     bind (get_cached_schema_validator E) (\<lambda>ov.
     lift (case ov of
             None \<Rightarrow> Inr ()
           | Some va \<Rightarrow>
               map_err (\<lambda>e. InvalidDocument (''Schema validation failed: '' @ e)) (validate E va data)))"

section \<open>Edge documents\<close>

definition check_endpoint :: "string \<Rightarrow> json option \<Rightarrow> unit db_result" where
  "check_endpoint field v =
     (case v of
        Some (JString s) \<Rightarrow>
          if s \<noteq> [] then Inr ()
          else Inl (InvalidDocument (''Edge document '' @ field @ '' field must be a non-empty string''))
      | Some _ \<Rightarrow> Inl (InvalidDocument (''Edge document '' @ field @ '' field must be a string''))
      | None \<Rightarrow> Inl (InvalidDocument (''Edge document must have a '' @ field @ '' field'')))"

definition validate_edge_document :: "json \<Rightarrow> unit db_result" where
  "validate_edge_document data =
     (case as_object data of
        None \<Rightarrow> Inl (InvalidDocument ''Edge document must be a JSON object'')
      | Some obj \<Rightarrow>
          res_bind (check_endpoint ''_from'' (map_of obj ''_from'')) (\<lambda>_.
          check_endpoint ''_to'' (map_of obj ''_to'')))"

definition check_edge :: "json \<Rightarrow> ('db, 'v, 's, 'f, unit) act" where
  "check_edge data c =
     (if collection_type c = ''edge'' then (validate_edge_document data, c) else (Inr (), c))"

end
