(* ===== verification/Indexes.thy ===== *)
theory Indexes
  imports Collection
begin

text \<open>
  The entries that the indexes of a collection hold for a document: \<^verbatim>\<open>compute_*_entries_for_*\<close> of
  \<^verbatim>\<open>indexes.rs\<close>, \<^verbatim>\<open>fulltext.rs\<close> and \<^verbatim>\<open>ttl.rs\<close> under \<^verbatim>\<open>src/storage/collection\<close>.

  The four kinds of index (regular, geo, full-text, TTL) have one contract, the locale
  \<open>index_family\<close>: their entries live in a name space of their own, an entry belongs to one
  document, and the keys removed for a document cover the entries written for it. It is what makes
  the batches of insert, update and delete keep an index in step with the documents, which the
  locale proves once; the interpretations at the end of the theory give it for each kind.
\<close>

section \<open>Entries of a document\<close>

definition index_values :: "index \<Rightarrow> json \<Rightarrow> json list" where
  "index_values i v = map (extract_field_value v) (ix_fields i)"

definition regular_entries :: "serde \<Rightarrow> index list \<Rightarrow> string \<Rightarrow> json \<Rightarrow> (bytes \<times> bytes) list" where
  "regular_entries S is key v =
     concat (map (\<lambda>i. if list_all is_null (index_values i v) then []
                       else [(idx_entry_key S (ix_name i) (index_values i v) key, key)]) is)"

definition regular_keys :: "serde \<Rightarrow> index list \<Rightarrow> string \<Rightarrow> json \<Rightarrow> bytes list" where
  "regular_keys S is key v =
     concat (map (\<lambda>i. if list_all is_null (index_values i v) then []
                       else [idx_entry_key S (ix_name i) (index_values i v) key]) is)"

definition geo_entries :: "serde \<Rightarrow> geo_index list \<Rightarrow> string \<Rightarrow> json \<Rightarrow> (bytes \<times> bytes) list" where
  "geo_entries S gs key v =
     concat (map (\<lambda>g. let field_value = extract_field_value v (gx_field g)
                       in if is_null field_value then []
                          else [(geo_entry_key (gx_name g) key, value_to_string S field_value)]) gs)"

definition geo_keys :: "geo_index list \<Rightarrow> string \<Rightarrow> bytes list" where
  "geo_keys gs key = map (\<lambda>g. geo_entry_key (gx_name g) key) gs"

text \<open>The keys of the terms and n-grams of one text field.\<close>

definition text_keys :: "unicode \<Rightarrow> fulltext_index \<Rightarrow> string \<Rightarrow> string \<Rightarrow> bytes list" where
  "text_keys U f key t =
     map (\<lambda>term. ft_term_key (fx_name f) term key)
       (filter (\<lambda>term. length term \<ge> fx_min_length f) (tokenize U t)) @
     map (\<lambda>ngram. ft_ngram_key (fx_name f) ngram key) (generate_ngrams U t NGRAM_SIZE)"

definition fulltext_keys :: "unicode \<Rightarrow> fulltext_index list \<Rightarrow> string \<Rightarrow> json \<Rightarrow> bytes list" where
  "fulltext_keys U fs key v =
     concat (map (\<lambda>f. concat (map (\<lambda>field.
       case as_str (extract_field_value v field) of Some t \<Rightarrow> text_keys U f key t | None \<Rightarrow> [])
       (fx_fields f))) fs)"

definition fulltext_entries ::
    "unicode \<Rightarrow> fulltext_index list \<Rightarrow> string \<Rightarrow> json \<Rightarrow> (bytes \<times> bytes) list" where
  "fulltext_entries U fs key v =
     concat (map (\<lambda>f. concat (map (\<lambda>field.
       case as_str (extract_field_value v field) of
         Some t \<Rightarrow> map (\<lambda>k. (k, key)) (text_keys U f key t)
       | None \<Rightarrow> []) (fx_fields f))) fs)"

definition extract_expiry_time :: "(string \<Rightarrow> u64 option) \<Rightarrow> json \<Rightarrow> string \<Rightarrow> u64 option" where
  "extract_expiry_time parse v field =
     (let field_value = extract_field_value v field
      in case as_u64 field_value of
           Some n \<Rightarrow> Some n
         | None \<Rightarrow> (case as_str field_value of Some s \<Rightarrow> parse s | None \<Rightarrow> None))"

text \<open>The sum wraps around, as in a release build.\<close>

definition ttl_keys :: "(string \<Rightarrow> u64 option) \<Rightarrow> ttl_index list \<Rightarrow> string \<Rightarrow> json \<Rightarrow> bytes list" where
  "ttl_keys parse ts key v =
     concat (map (\<lambda>t. case extract_expiry_time parse v (tx_field t) of
                        Some expiry \<Rightarrow> [ttl_expiry_key (tx_name t) (expiry + tx_expire_after t) key]
                      | None \<Rightarrow> []) ts)"

definition ttl_entries ::
    "(string \<Rightarrow> u64 option) \<Rightarrow> ttl_index list \<Rightarrow> string \<Rightarrow> json \<Rightarrow> (bytes \<times> bytes) list" where
  "ttl_entries parse ts key v =
     concat (map (\<lambda>t. case extract_expiry_time parse v (tx_field t) of
                        Some expiry \<Rightarrow> [(ttl_expiry_key (tx_name t) (expiry + tx_expire_after t) key, [])]
                      | None \<Rightarrow> []) ts)"

section \<open>The operations of the collection\<close>

definition compute_index_entries_for_insert ::
    "('db, 'v, 's, 'f) env \<Rightarrow> string \<Rightarrow> json \<Rightarrow> ('db, 'v, 's, 'f) collection \<Rightarrow>
     ((bytes \<times> bytes) list \<times> (bytes \<times> bytes) list) db_result" where
  "compute_index_entries_for_insert E key v c =
     Inr (regular_entries (env_json E) (get_all_indexes E c) key v,
          geo_entries (env_json E) (get_all_geo_indexes E c) key v)"

definition compute_index_entries_for_update ::
    "('db, 'v, 's, 'f) env \<Rightarrow> string \<Rightarrow> json \<Rightarrow> json \<Rightarrow> ('db, 'v, 's, 'f) collection \<Rightarrow>
     ((bytes \<times> bytes) list \<times> bytes list \<times> (bytes \<times> bytes) list \<times> bytes list) db_result" where
  "compute_index_entries_for_update E key old_value new_value c =
     Inr (regular_entries (env_json E) (get_all_indexes E c) key new_value,
          regular_keys (env_json E) (get_all_indexes E c) key old_value,
          geo_entries (env_json E) (get_all_geo_indexes E c) key new_value,
          geo_keys (get_all_geo_indexes E c) key)"

definition compute_index_entries_for_delete ::
    "('db, 'v, 's, 'f) env \<Rightarrow> string \<Rightarrow> json \<Rightarrow> ('db, 'v, 's, 'f) collection \<Rightarrow>
     (bytes list \<times> bytes list) db_result" where
  "compute_index_entries_for_delete E key v c =
     Inr (regular_keys (env_json E) (get_all_indexes E c) key v,
          geo_keys (get_all_geo_indexes E c) key)"

definition compute_fulltext_entries_for_insert ::
    "('db, 'v, 's, 'f) env \<Rightarrow> string \<Rightarrow> json \<Rightarrow> ('db, 'v, 's, 'f) collection \<Rightarrow> (bytes \<times> bytes) list" where
  "compute_fulltext_entries_for_insert E key v c =
     fulltext_entries (env_uni E) (get_all_fulltext_indexes E c) key v"

definition compute_fulltext_entries_for_delete ::
    "('db, 'v, 's, 'f) env \<Rightarrow> string \<Rightarrow> json \<Rightarrow> ('db, 'v, 's, 'f) collection \<Rightarrow> bytes list" where
  "compute_fulltext_entries_for_delete E key v c =
     fulltext_keys (env_uni E) (get_all_fulltext_indexes E c) key v"

definition compute_ttl_expiry_entries_for_insert ::
    "('db, 'v, 's, 'f) env \<Rightarrow> string \<Rightarrow> json \<Rightarrow> ('db, 'v, 's, 'f) collection \<Rightarrow> (bytes \<times> bytes) list" where
  "compute_ttl_expiry_entries_for_insert E key v c =
     ttl_entries (parse_rfc3339 E) (get_all_ttl_indexes E c) key v"

definition compute_ttl_expiry_entries_for_update ::
    "('db, 'v, 's, 'f) env \<Rightarrow> string \<Rightarrow> json \<Rightarrow> json \<Rightarrow> ('db, 'v, 's, 'f) collection \<Rightarrow>
     (bytes \<times> bytes) list \<times> bytes list" where
  "compute_ttl_expiry_entries_for_update E key old_value new_value c =
     (ttl_entries (parse_rfc3339 E) (get_all_ttl_indexes E c) key new_value,
      ttl_keys (parse_rfc3339 E) (get_all_ttl_indexes E c) key old_value)"

definition compute_ttl_expiry_entries_for_delete ::
    "('db, 'v, 's, 'f) env \<Rightarrow> string \<Rightarrow> json \<Rightarrow> ('db, 'v, 's, 'f) collection \<Rightarrow> bytes list" where
  "compute_ttl_expiry_entries_for_delete E key v c =
     ttl_keys (parse_rfc3339 E) (get_all_ttl_indexes E c) key v"

section \<open>The contract of an index\<close>

text \<open>The entries of a name space are exactly those of the documents.\<close>

definition family_agrees ::
    "(bytes \<Rightarrow> bool) \<Rightarrow> (string \<Rightarrow> json \<Rightarrow> (bytes \<times> bytes) list) \<Rightarrow> (bytes \<rightharpoonup> bytes) \<Rightarrow>
     (string \<rightharpoonup> json) \<Rightarrow> bool" where
  "family_agrees ns ents m D \<longleftrightarrow>
     (\<forall>b v. ns b \<longrightarrow> (m b = Some v \<longleftrightarrow> (\<exists>k d. D k = Some d \<and> (b, v) \<in> set (ents k d))))"

lemma family_agreesD:
  "family_agrees ns ents m D \<Longrightarrow> ns b \<Longrightarrow>
   m b = Some v \<longleftrightarrow> (\<exists>k d. D k = Some d \<and> (b, v) \<in> set (ents k d))"
  by (simp add: family_agrees_def)

lemma family_agrees_cong:
  "(\<And>b. ns b \<Longrightarrow> m b = m' b) \<Longrightarrow> family_agrees ns ents m D = family_agrees ns ents m' D"
  by (auto simp: family_agrees_def)

lemma family_agrees_filter:
  "family_agrees ns ents (apply_ops ops m) D =
   family_agrees ns ents (apply_ops (filter (\<lambda>p. ns (op_key p)) ops) m) D"
  by (rule family_agrees_cong) (rule apply_ops_filter)

locale index_family =
  fixes ok :: "'c \<Rightarrow> bool"
    and ns :: "bytes \<Rightarrow> bool"
    and ents :: "'c \<Rightarrow> string \<Rightarrow> json \<Rightarrow> (bytes \<times> bytes) list"
    and rems :: "'c \<Rightarrow> string \<Rightarrow> json \<Rightarrow> bytes list"
  assumes ents_ns: "(b, v) \<in> set (ents c k d) \<Longrightarrow> ns b"
    and rems_ns: "b \<in> set (rems c k d) \<Longrightarrow> ns b"
    and rems_cover: "(b, v) \<in> set (ents c k d) \<Longrightarrow> b \<in> set (rems c k d)"
    and rems_own: "ok c \<Longrightarrow> b \<in> set (rems c k d) \<Longrightarrow> (b, v) \<in> set (ents c k' d') \<Longrightarrow> k' = k"
    and ents_fun: "ok c \<Longrightarrow> (b, v) \<in> set (ents c k d) \<Longrightarrow> (b, v') \<in> set (ents c k d) \<Longrightarrow> v' = v"
begin

lemma ents_own: "ok c \<Longrightarrow> (b, v) \<in> set (ents c k d) \<Longrightarrow> (b, v') \<in> set (ents c k' d') \<Longrightarrow> k' = k"
  using rems_own rems_cover by blast

lemma lookup_puts:
  "ok c \<Longrightarrow> apply_ops (puts (ents c k d)) m b = Some v \<longleftrightarrow>
     (b, v) \<in> set (ents c k d) \<or> b \<notin> fst ` set (ents c k d) \<and> m b = Some v"
proof (cases "b \<in> fst ` set (ents c k d)")
  case True
  assume ok: "ok c"
  from True obtain w where w: "(b, w) \<in> set (ents c k d)" by auto
  then have "apply_ops (puts (ents c k d)) m b = Some w"
    using ents_fun [OF ok] by (intro apply_puts) blast+
  moreover have "w = v \<longleftrightarrow> (b, v) \<in> set (ents c k d)" using w ents_fun [OF ok w] by blast
  ultimately show ?thesis using True by simp
next
  case False
  then have "(b, v) \<notin> set (ents c k d)" by force
  with False show ?thesis by (simp add: apply_puts_notin)
qed

lemma put_new:
  assumes "ok c" "family_agrees ns (ents c) m D" "D k = None"
  shows "family_agrees ns (ents c) (apply_ops (puts (ents c k d)) m) (D(k \<mapsto> d))"
  unfolding family_agrees_def
proof (intro allI impI)
  fix b v
  assume "ns b"
  note m = family_agreesD [OF assms(2) this]
  show "apply_ops (puts (ents c k d)) m b = Some v \<longleftrightarrow>
    (\<exists>k' d'. (D(k \<mapsto> d)) k' = Some d' \<and> (b, v) \<in> set (ents c k' d'))"
    unfolding lookup_puts [OF assms(1)] m using assms(3) ents_own [OF assms(1)]
    by (auto split: if_splits) (metis option.distinct(1))+
qed

lemma remove:
  assumes "ok c" "family_agrees ns (ents c) m D" "D k = Some d0"
  shows "family_agrees ns (ents c) (apply_ops (dels (rems c k d0)) m) (D(k := None))"
  unfolding family_agrees_def
proof (intro allI impI)
  fix b v
  assume "ns b"
  note m = family_agreesD [OF assms(2) this]
  show "apply_ops (dels (rems c k d0)) m b = Some v \<longleftrightarrow>
    (\<exists>k' d'. (D(k := None)) k' = Some d' \<and> (b, v) \<in> set (ents c k' d'))"
    using m [of v] assms(3) rems_own [OF assms(1)] rems_cover
    by (auto simp: apply_dels split: if_splits) (metis option.inject)+
qed

lemma replace:
  assumes "ok c" "family_agrees ns (ents c) m D" "D k = Some d0"
  shows "family_agrees ns (ents c) (apply_ops (dels (rems c k d0) @ puts (ents c k d)) m) (D(k \<mapsto> d))"
  using put_new [OF assms(1) remove [OF assms], of k d] by (simp add: apply_ops_append)

lemma filter_own:
  "filter (\<lambda>p. ns (op_key p)) (puts (ents c k d)) = puts (ents c k d)"
  "filter (\<lambda>p. ns (op_key p)) (dels (rems c k d)) = dels (rems c k d)"
  using ents_ns rems_ns by (auto simp: filter_puts filter_dels intro!: arg_cong [where f = puts]
      arg_cong [where f = dels] filter_True)

lemma filter_other:
  assumes "\<And>b. ns b \<Longrightarrow> \<not> ns' b"
  shows "filter (\<lambda>p. ns' (op_key p)) (puts (ents c k d)) = []"
    "filter (\<lambda>p. ns' (op_key p)) (dels (rems c k d)) = []"
  using ents_ns rems_ns assms by (auto simp: filter_puts filter_dels puts_def dels_def filter_empty_conv)

end

section \<open>The four kinds of index\<close>

definition regular_ok :: "index list \<Rightarrow> bool" where
  "regular_ok is = list_all (\<lambda>i. name_ok (ix_name i)) is"

definition geo_ok :: "geo_index list \<Rightarrow> bool" where
  "geo_ok gs \<longleftrightarrow> list_all (\<lambda>g. name_ok (gx_name g)) gs \<and> distinct (map gx_name gs)"

definition fulltext_ok :: "fulltext_index list \<Rightarrow> bool" where
  "fulltext_ok fs = list_all (\<lambda>f. name_ok (fx_name f)) fs"

definition ttl_ok :: "ttl_index list \<Rightarrow> bool" where
  "ttl_ok ts = list_all (\<lambda>t. name_ok (tx_name t)) ts"

lemma regular_keys_entries: "regular_keys S is k v = map fst (regular_entries S is k v)"
  by (induction "is") (auto simp: regular_keys_def regular_entries_def)

lemma in_regular_entries:
  "(b, w) \<in> set (regular_entries S is k v) \<longleftrightarrow>
   w = k \<and> (\<exists>i \<in> set is. \<not> list_all is_null (index_values i v) \<and>
                          b = idx_entry_key S (ix_name i) (index_values i v) k)"
  by (auto simp: regular_entries_def split: if_splits)

interpretation reg: index_family regular_ok idx_ns "regular_entries S" "regular_keys S" for S
proof
  fix b v "is" k d k' d'
  show "(b, v) \<in> set (regular_entries S is k d) \<Longrightarrow> idx_ns b"
    by (auto simp: in_regular_entries entry_ns)
  show "b \<in> set (regular_keys S is k d) \<Longrightarrow> idx_ns b"
    by (auto simp: regular_keys_entries in_regular_entries entry_ns)
  show "(b, v) \<in> set (regular_entries S is k d) \<Longrightarrow> b \<in> set (regular_keys S is k d)"
    by (force simp: regular_keys_entries)
  assume ok: "regular_ok is"
  show "b \<in> set (regular_keys S is k d) \<Longrightarrow> (b, v) \<in> set (regular_entries S is k' d') \<Longrightarrow> k' = k"
    using ok by (auto simp: regular_keys_entries in_regular_entries regular_ok_def list_all_iff
        dest!: idx_entry_key_inject)
  show "(b, v) \<in> set (regular_entries S is k d) \<Longrightarrow> (b, v') \<in> set (regular_entries S is k d) \<Longrightarrow> v' = v"
    for v' by (simp add: in_regular_entries)
qed

lemma in_geo_entries:
  "(b, w) \<in> set (geo_entries S gs k v) \<longleftrightarrow>
   (\<exists>g \<in> set gs. extract_field_value v (gx_field g) \<noteq> JNull \<and> b = geo_entry_key (gx_name g) k \<and>
                 w = value_to_string S (extract_field_value v (gx_field g)))"
  by (auto simp: geo_entries_def Let_def split: if_splits)

interpretation geo: index_family geo_ok geo_ns "geo_entries S" "\<lambda>gs k v. geo_keys gs k" for S
proof
  fix b v gs k d k' d'
  show "(b, v) \<in> set (geo_entries S gs k d) \<Longrightarrow> geo_ns b"
    by (auto simp: in_geo_entries entry_ns)
  show "b \<in> set (geo_keys gs k) \<Longrightarrow> geo_ns b"
    by (auto simp: geo_keys_def entry_ns)
  show "(b, v) \<in> set (geo_entries S gs k d) \<Longrightarrow> b \<in> set (geo_keys gs k)"
    by (auto simp: in_geo_entries geo_keys_def)
  assume ok: "geo_ok gs"
  show "b \<in> set (geo_keys gs k) \<Longrightarrow> (b, v) \<in> set (geo_entries S gs k' d') \<Longrightarrow> k' = k"
    using ok by (auto simp: in_geo_entries geo_keys_def geo_ok_def list_all_iff
        dest!: geo_entry_key_inject)
  show "(b, v) \<in> set (geo_entries S gs k d) \<Longrightarrow> (b, v') \<in> set (geo_entries S gs k d) \<Longrightarrow> v' = v" for v'
    using ok by (auto simp: in_geo_entries geo_ok_def list_all_iff distinct_map inj_on_def
        dest!: geo_entry_key_inject)
qed

lemma fulltext_entries_keys:
  "fulltext_entries U fs k v = map (\<lambda>b. (b, k)) (fulltext_keys U fs k v)"
  by (simp add: fulltext_entries_def fulltext_keys_def map_concat comp_def option.case_distrib
      cong: option.case_cong map_cong)

lemma fulltext_keys_own:
  assumes "b \<in> set (fulltext_keys U fs k v)" "fulltext_ok fs"
  shows "\<exists>n t. name_ok n \<and> CHR '':'' \<notin> set t \<and> (b = ft_term_key n t k \<or> b = ft_ngram_key n t k)"
  using assms tokenize_no_colon ngrams_no_colon
  by (fastforce simp: fulltext_keys_def text_keys_def fulltext_ok_def list_all_iff split: option.splits)

lemma fulltext_keys_ns: "b \<in> set (fulltext_keys U fs k v) \<Longrightarrow> ft_ns b"
  by (auto simp: fulltext_keys_def text_keys_def entry_ns split: option.splits)

interpretation ft: index_family fulltext_ok ft_ns "fulltext_entries U" "fulltext_keys U" for U
proof
  fix b v fs k d k' d'
  show "(b, v) \<in> set (fulltext_entries U fs k d) \<Longrightarrow> ft_ns b"
    by (auto simp: fulltext_entries_keys fulltext_keys_ns)
  show "b \<in> set (fulltext_keys U fs k d) \<Longrightarrow> ft_ns b"
    by (rule fulltext_keys_ns)
  show "(b, v) \<in> set (fulltext_entries U fs k d) \<Longrightarrow> b \<in> set (fulltext_keys U fs k d)"
    by (auto simp: fulltext_entries_keys)
  assume ok: "fulltext_ok fs"
  show "k' = k" if "b \<in> set (fulltext_keys U fs k d)" "(b, v) \<in> set (fulltext_entries U fs k' d')"
  proof -
    have "b \<in> set (fulltext_keys U fs k' d')" using that(2) by (auto simp: fulltext_entries_keys)
    from fulltext_keys_own [OF this ok] fulltext_keys_own [OF that(1) ok] show ?thesis
      using ft_term_key_inject ft_ngram_key_inject ft_term_ngram_differ by metis
  qed
  show "(b, v) \<in> set (fulltext_entries U fs k d) \<Longrightarrow> (b, v') \<in> set (fulltext_entries U fs k d) \<Longrightarrow> v' = v"
    for v' by (auto simp: fulltext_entries_keys)
qed

lemma ttl_keys_entries: "ttl_entries P ts k v = map (\<lambda>b. (b, [])) (ttl_keys P ts k v)"
  by (simp add: ttl_entries_def ttl_keys_def map_concat comp_def option.case_distrib
      cong: option.case_cong map_cong)

lemma in_ttl_keys:
  "b \<in> set (ttl_keys P ts k v) \<longleftrightarrow>
   (\<exists>t \<in> set ts. \<exists>e. extract_expiry_time P v (tx_field t) = Some e \<and>
                     b = ttl_expiry_key (tx_name t) (e + tx_expire_after t) k)"
  by (force simp: ttl_keys_def split: option.splits)

interpretation ttl: index_family ttl_ok ttl_ns "ttl_entries P" "ttl_keys P" for P
proof
  fix b v ts k d k' d'
  show "(b, v) \<in> set (ttl_entries P ts k d) \<Longrightarrow> ttl_ns b"
    by (auto simp: ttl_keys_entries in_ttl_keys entry_ns)
  show "b \<in> set (ttl_keys P ts k d) \<Longrightarrow> ttl_ns b"
    by (auto simp: in_ttl_keys entry_ns)
  show "(b, v) \<in> set (ttl_entries P ts k d) \<Longrightarrow> b \<in> set (ttl_keys P ts k d)"
    by (auto simp: ttl_keys_entries)
  assume ok: "ttl_ok ts"
  show "b \<in> set (ttl_keys P ts k d) \<Longrightarrow> (b, v) \<in> set (ttl_entries P ts k' d') \<Longrightarrow> k' = k"
    using ok by (auto simp: ttl_keys_entries in_ttl_keys ttl_ok_def list_all_iff
        dest!: ttl_expiry_key_inject)
  show "(b, v) \<in> set (ttl_entries P ts k d) \<Longrightarrow> (b, v') \<in> set (ttl_entries P ts k d) \<Longrightarrow> v' = v" for v'
    by (auto simp: ttl_keys_entries)
qed

end
