(* ===== verification/Upkeep.thy ===== *)
theory Upkeep
  imports Collection
begin

text \<open>
  What a collection keeps beside documents and index entries: the vector indexes in memory
  (\<^verbatim>\<open>src/storage/collection/vector.rs\<close>) and the chunks of blobs (\<^verbatim>\<open>blobs.rs\<close>). The lemmas say that
  the upkeep of vector indexes never writes a document or an index entry, and what the chunk
  operations do.
\<close>

section \<open>Vector indexes\<close>

definition VEC_META_PREFIX :: string where "VEC_META_PREFIX = ''vec_meta:''"
definition VEC_DATA_PREFIX :: string where "VEC_DATA_PREFIX = ''vec_data:''"

definition vec_meta_key :: "string \<Rightarrow> bytes" where
  "vec_meta_key name = VEC_META_PREFIX @ name"

definition vec_data_key :: "string \<Rightarrow> bytes" where
  "vec_data_key name = VEC_DATA_PREFIX @ name"

definition get_all_vector_index_configs ::
    "('db, 'v, 's, 'f) env \<Rightarrow> ('db, 'v, 's, 'f) collection \<Rightarrow> vector_config list" where
  "get_all_vector_index_configs E c = read_meta E (vec_codec E) VEC_META_PREFIX c"

definition load_vector_index :: "('db, 'v, 's, 'f) env \<Rightarrow> string \<Rightarrow> ('db, 'v, 's, 'f, 'v) act" where
  "load_vector_index E name c =
     (case get_cf (env_db E) (coll_db c) (vec_meta_key name) of
        Inl e \<Rightarrow> (Inl (InternalError e), c)
      | Inr None \<Rightarrow> (Inl (InvalidDocument (''Vector Index '' @ quoted name @ '' not found'')), c)
      | Inr (Some _) \<Rightarrow>
          (case get_cf (env_db E) (coll_db c) (vec_data_key name) of
             Inl e \<Rightarrow> (Inl (InternalError e), c)
           | Inr None \<Rightarrow> (Inl (InternalError ''Vector index data missing''), c)
           | Inr (Some b) \<Rightarrow>
               (case vec_deserialize E b of
                  Inl e \<Rightarrow> (Inl (InternalError (''Failed to deserialize vector index: '' @ e)), c)
                | Inr v \<Rightarrow> (Inr v, c\<lparr> vector_indexes := smap_put name v (vector_indexes c) \<rparr>))))"

definition get_vector_index :: "('db, 'v, 's, 'f) env \<Rightarrow> string \<Rightarrow> ('db, 'v, 's, 'f, 'v) act" where
  "get_vector_index E name c =
     (case map_of (vector_indexes c) name of
        Some v \<Rightarrow> (Inr v, c)
      | None \<Rightarrow> load_vector_index E name c)"

definition as_f64 :: "serde \<Rightarrow> json \<Rightarrow> u64 option" where
  "as_f64 S v = (case v of JNumber n \<Rightarrow> num_as_f64 S n | _ \<Rightarrow> None)"

text \<open>The vector as doubles; the index narrows them.\<close>

definition extract_vector :: "serde \<Rightarrow> json \<Rightarrow> string \<Rightarrow> nat \<Rightarrow> u64 list option" where
  "extract_vector S v field dim =
     (case as_array (extract_field_value v field) of
        Some arr \<Rightarrow>
          if length arr = dim \<and> (\<forall>x \<in> set arr. as_f64 S x \<noteq> None)
          then Some (map (\<lambda>x. the (as_f64 S x)) arr) else None
      | None \<Rightarrow> None)"

definition upsert_vector ::
    "('db, 'v, 's, 'f) env \<Rightarrow> string \<Rightarrow> json \<Rightarrow> vector_config \<Rightarrow> ('db, 'v, 's, 'f) collection \<Rightarrow>
     ('db, 'v, 's, 'f) collection" where
  "upsert_vector E key v cfg c =
     (case (map_of (vector_indexes c) (vx_name cfg),
            extract_vector (env_json E) v (vx_field cfg) (vx_dimension cfg)) of
        (Some ix, Some vec) \<Rightarrow>
          c\<lparr> vector_indexes := smap_put (vx_name cfg) (vec_insert E ix key vec) (vector_indexes c) \<rparr>
      | _ \<Rightarrow> c)"

definition update_vector_indexes_on_upsert ::
    "('db, 'v, 's, 'f) env \<Rightarrow> string \<Rightarrow> json \<Rightarrow> ('db, 'v, 's, 'f) collection \<Rightarrow>
     ('db, 'v, 's, 'f) collection" where
  "update_vector_indexes_on_upsert E key v c =
     (let configs = get_all_vector_index_configs E c
      in if configs = [] then c
         else fold (upsert_vector E key v) configs
                (fold (\<lambda>cfg c. snd (get_vector_index E (vx_name cfg) c)) configs c))"

definition update_vector_indexes_on_delete ::
    "('db, 'v, 's, 'f) env \<Rightarrow> string \<Rightarrow> ('db, 'v, 's, 'f) collection \<Rightarrow>
     ('db, 'v, 's, 'f) collection" where
  "update_vector_indexes_on_delete E key c =
     c\<lparr> vector_indexes := map (\<lambda>p. (fst p, vec_remove E (snd p) key)) (vector_indexes c) \<rparr>"

fun persist_vectors ::
    "('db, 'v, 's, 'f) env \<Rightarrow> (string \<times> 'v) list \<Rightarrow> ('db, 'v, 's, 'f, unit) act" where
  "persist_vectors E [] c = (Inr (), c)"
| "persist_vectors E (p # ps) c =
     bind (lift (map_err InternalError (vec_serialize E (snd p)))) (\<lambda>b.
     bind (db_write E (''Failed to persist vector index '' @ fst p @ '': '')
             [Put (vec_data_key (fst p)) b]) (\<lambda>_.
     persist_vectors E ps)) c"

definition persist_vector_indexes :: "('db, 'v, 's, 'f) env \<Rightarrow> ('db, 'v, 's, 'f, unit) act" where
  "persist_vector_indexes E c = persist_vectors E (vector_indexes c) c"

section \<open>Blobs\<close>

definition put_blob_chunk ::
    "('db, 'v, 's, 'f) env \<Rightarrow> string \<Rightarrow> u32 \<Rightarrow> bytes \<Rightarrow> ('db, 'v, 's, 'f, unit) act" where
  "put_blob_chunk E key chunk_index data c =
     (if collection_type c \<noteq> ''blob'' then
        (Inl (OperationNotSupported ''Blob operations only supported on blob collections''), c)
      else
        (let chunk_key = blo_chunk_key key (unat chunk_index);
             exists = (case get_cf (env_db E) (coll_db c) chunk_key of Inr (Some _) \<Rightarrow> True | _ \<Rightarrow> False)
         in bind (db_write E ''Failed to store blob chunk: '' [Put chunk_key data]) (\<lambda>_.
            modify (\<lambda>c. if exists then c
                        else c\<lparr> chunk_count := chunk_count c + 1, count_dirty := True \<rparr>)) c))"

definition get_blob_chunk ::
    "('db, 'v, 's, 'f) env \<Rightarrow> string \<Rightarrow> u32 \<Rightarrow> ('db, 'v, 's, 'f) collection \<Rightarrow> bytes option db_result" where
  "get_blob_chunk E key chunk_index c =
     map_err (\<lambda>e. InternalError (''Failed to get blob chunk: '' @ e))
       (get_cf (env_db E) (coll_db c) (blo_chunk_key key (unat chunk_index)))"

definition blob_prefix :: "string \<Rightarrow> bytes" where
  "blob_prefix key = BLO_PREFIX @ key @ '':''"

definition delete_blob_data :: "('db, 'v, 's, 'f) env \<Rightarrow> string \<Rightarrow> ('db, 'v, 's, 'f, unit) act" where
  "delete_blob_data E key c =
     (let ks = map fst (scan_while (env_db E) (coll_db c) (blob_prefix key))
      in if ks \<noteq> [] then
           bind (db_write E [] (dels ks)) (\<lambda>_.
           modify (\<lambda>c. c\<lparr> chunk_count := chunk_count c - of_nat (length ks), count_dirty := True \<rparr>)) c
         else (Inr (), c))"

definition blob_stats ::
    "('db, 'v, 's, 'f) env \<Rightarrow> ('db, 'v, 's, 'f) collection \<Rightarrow> (u64 \<times> u64) db_result" where
  "blob_stats E c =
     (if collection_type c \<noteq> ''blob'' then Inr (0, 0)
      else Inr (foldl (\<lambda>(n, total) p. if length (fst p) > 4
                                      then (n + 1, total + of_nat (length (snd p))) else (n, total))
                  (0, 0) (scan_while (env_db E) (coll_db c) BLO_PREFIX)))"

section \<open>Frames\<close>

text \<open>The keys that documents, index entries and index metadata use.\<close>

definition core_key :: "bytes \<Rightarrow> bool" where
  "core_key b \<longleftrightarrow> starts_with b DOC_PREFIX \<or> idx_ns b \<or> geo_ns b \<or> ft_ns b \<or> meta_ns b"

lemma core_key_other [simp]:
  "\<not> core_key (vec_data_key n)" "\<not> core_key (blo_chunk_key k i)" "\<not> core_key STATS_COUNT_KEY"
  by (simp_all add: core_key_def vec_data_key_def blo_chunk_key_def VEC_DATA_PREFIX_def idx_ns_def geo_ns_def
      ft_ns_def meta_ns_def prefix_defs)

lemma core_key_blob: "starts_with b (blob_prefix k) \<Longrightarrow> \<not> core_key b"
  by (auto simp: core_key_def blob_prefix_def idx_ns_def geo_ns_def ft_ns_def meta_ns_def
      prefix_defs starts_with_iff)

abbreviation look :: "('db \<Rightarrow> (bytes, bytes) smap) \<Rightarrow> ('db, 'v, 's, 'f) collection \<Rightarrow> bytes \<rightharpoonup> bytes" where
  "look V c \<equiv> map_of (V (coll_db c))"

definition same_core ::
    "('db \<Rightarrow> (bytes, bytes) smap) \<Rightarrow> ('db, 'v, 's, 'f) collection \<Rightarrow> ('db, 'v, 's, 'f) collection \<Rightarrow> bool" where
  "same_core V c c' \<longleftrightarrow>
     (\<forall>b. core_key b \<longrightarrow> look V c b = look V c' b) \<and> coll_name c = coll_name c' \<and>
     collection_type c = collection_type c'"

lemma same_core_refl [simp]: "same_core V c c"
  by (simp add: same_core_def)

lemma same_core_trans: "same_core V a b \<Longrightarrow> same_core V b c \<Longrightarrow> same_core V a c"
  by (simp add: same_core_def)

lemma same_coreI:
  "coll_db c = coll_db c' \<Longrightarrow> coll_name c = coll_name c' \<Longrightarrow> collection_type c = collection_type c' \<Longrightarrow>
   same_core V c c'"
  by (simp add: same_core_def)

lemma db_write_core:
  assumes "rocks_ok (env_db E) V" "\<forall>p \<in> set ops. \<not> core_key (op_key p)" "db_write E msg ops c = (r, c')"
  shows "same_core V c c'"
proof (cases "write_batch (env_db E) (coll_db c) ops")
  case (Inr d)
  have "apply_ops ops (look V c) b = look V c b" if "core_key b" for b
    using assms(2) that by (intro apply_ops_other) auto
  with Inr assms(3) rocks_okD(3) [OF assms(1) Inr] show ?thesis
    by (auto simp: db_write_def same_core_def)
qed (use assms(3) in \<open>simp add: db_write_def\<close>)

definition keeps_db :: "('db, 'v, 's, 'f) collection \<Rightarrow> ('db, 'v, 's, 'f) collection \<Rightarrow> bool" where
  "keeps_db c c' \<longleftrightarrow>
     coll_db c' = coll_db c \<and> coll_name c' = coll_name c \<and> collection_type c' = collection_type c \<and>
     doc_count c' = doc_count c \<and> changes c' = changes c"

lemma keeps_db_refl [simp]: "keeps_db c c"
  by (simp add: keeps_db_def)

lemma keeps_db_trans: "keeps_db a b \<Longrightarrow> keeps_db b c \<Longrightarrow> keeps_db a c"
  by (simp add: keeps_db_def)

lemma keeps_db_core: "keeps_db c c' \<Longrightarrow> same_core V c c'"
  by (simp add: keeps_db_def same_core_def)

lemma keeps_db_fold: "(\<And>x c. keeps_db c (f x c)) \<Longrightarrow> keeps_db c (fold f xs c)"
  by (induction xs arbitrary: c) (auto intro: keeps_db_trans)

lemma get_vector_index_keeps: "keeps_db c (snd (get_vector_index E n c))"
  by (auto simp: get_vector_index_def load_vector_index_def keeps_db_def split: option.splits sum.splits)

lemma upsert_vector_keeps: "keeps_db c (upsert_vector E k v cfg c)"
  by (auto simp: upsert_vector_def keeps_db_def split: option.splits)

lemma vector_upsert_keeps: "keeps_db c (update_vector_indexes_on_upsert E k v c)"
  unfolding update_vector_indexes_on_upsert_def Let_def
  by (auto intro!: keeps_db_trans [OF keeps_db_fold keeps_db_fold]
      simp: get_vector_index_keeps upsert_vector_keeps)

lemma vector_delete_keeps: "keeps_db c (update_vector_indexes_on_delete E k c)"
  by (simp add: update_vector_indexes_on_delete_def keeps_db_def)

lemma schema_validator_keeps: "keeps_db c (snd (get_cached_schema_validator E c))"
  by (auto simp: get_cached_schema_validator_def keeps_db_def Let_def split: option.splits sum.splits)

lemma persist_vectors_core:
  "rocks_ok (env_db E) V \<Longrightarrow> persist_vectors E ps c = (r, c') \<Longrightarrow>
   same_core V c c' \<and> doc_count c' = doc_count c \<and> changes c' = changes c"
proof (induction ps arbitrary: c)
  case (Cons p ps)
  show ?case
  proof (cases "vec_serialize E (snd p)")
    case (Inr b)
    obtain r1 c1 where w: "db_write E (''Failed to persist vector index '' @ fst p @ '': '')
        [Put (vec_data_key (fst p)) b] c = (r1, c1)" by fastforce
    then have 1: "same_core V c c1" using db_write_core [OF Cons.prems(1) _ w] by simp
    have 2: "doc_count c1 = doc_count c" "changes c1 = changes c"
      using w by (auto simp: db_write_def split: sum.splits)
    show ?thesis
    proof (cases r1)
      case (Inr u)
      then have "persist_vectors E ps c1 = (r, c')"
        using Cons.prems(2) \<open>vec_serialize E (snd p) = Inr b\<close> w by (simp add: bind_def)
      with Cons.IH [OF Cons.prems(1)] 1 2 show ?thesis by (auto intro: same_core_trans)
    qed (use Cons.prems(2) Inr w 1 2 in \<open>auto simp: bind_def\<close>)
  qed (use Cons.prems(2) in \<open>simp add: bind_def\<close>)
qed simp

lemma persist_core:
  "rocks_ok (env_db E) V \<Longrightarrow> persist_vector_indexes E c = (r, c') \<Longrightarrow>
   same_core V c c' \<and> doc_count c' = doc_count c \<and> changes c' = changes c"
  unfolding persist_vector_indexes_def by (rule persist_vectors_core)

lemma delete_blob_core:
  assumes "rocks_ok (env_db E) V" "delete_blob_data E key c = (r, c')"
  shows "same_core V c c' \<and> doc_count c' = doc_count c \<and> changes c' = changes c"
proof -
  let ?ks = "map fst (scan_while (env_db E) (coll_db c) (blob_prefix key))"
  have "\<forall>p \<in> set (dels ?ks). \<not> core_key (op_key p)"
    using core_key_blob by (auto simp: scan_eq [OF assms(1)] dels_def)
  then have core: "same_core V c c1" if "db_write E [] (dels ?ks) c = (r1, c1)" for r1 c1
    using db_write_core [OF assms(1) _ that] by simp
  obtain r1 c1 where w: "db_write E [] (dels ?ks) c = (r1, c1)" by fastforce
  have "doc_count c1 = doc_count c" "changes c1 = changes c"
    using w by (auto simp: db_write_def split: sum.splits)
  with core [OF w] w assms(2) show ?thesis
    by (cases r1) (auto simp: delete_blob_data_def Let_def bind_def same_core_def split: if_splits)
qed

end
