(* ===== verification/Crud.thy ===== *)
theory Crud
  imports Indexes Upkeep
begin

text \<open>
  The operations on documents of \<^verbatim>\<open>src/storage/collection/crud.rs\<close>, with \<^verbatim>\<open>check_unique_constraints\<close>
  of \<^verbatim>\<open>indexes.rs\<close>: single and batch reads and writes, scans and counters, as the code has them. Fresh
  keys, revisions and clock readings are arguments (the record \<open>fresh\<close>, one for each document of a
  batch).
\<close>

section \<open>Reading\<close>

definition coll_get ::
    "('db, 'v, 's, 'f) env \<Rightarrow> string \<Rightarrow> ('db, 'v, 's, 'f) collection \<Rightarrow> document db_result" where
  "coll_get E key c =
     (case get_cf (env_db E) (coll_db c) (doc_key key) of
        Inl e \<Rightarrow> Inl (InternalError (''Failed to get document: '' @ e))
      | Inr None \<Rightarrow> Inl (DocumentNotFound key)
      | Inr (Some b) \<Rightarrow> deserialize_doc (env_doc E) b)"

definition get_many ::
    "('db, 'v, 's, 'f) env \<Rightarrow> string list \<Rightarrow> ('db, 'v, 's, 'f) collection \<Rightarrow> document list" where
  "get_many E keys c = List.map_filter (\<lambda>k. res_ok (coll_get E k c)) keys"

definition coll_scan ::
    "('db, 'v, 's, 'f) env \<Rightarrow> nat option \<Rightarrow> ('db, 'v, 's, 'f) collection \<Rightarrow> document list" where
  "coll_scan E limit c =
     (let docs = List.map_filter (\<lambda>p. res_ok (deserialize_doc (env_doc E) (snd p)))
                   (scan_all (env_db E) (coll_db c) DOC_PREFIX)
      in case limit of Some n \<Rightarrow> take n docs | None \<Rightarrow> docs)"

definition coll_all :: "('db, 'v, 's, 'f) env \<Rightarrow> ('db, 'v, 's, 'f) collection \<Rightarrow> document list" where
  "coll_all E c = coll_scan E None c"

section \<open>Unique constraints\<close>

definition unique_prefix :: "serde \<Rightarrow> index \<Rightarrow> json list \<Rightarrow> bytes" where
  "unique_prefix S i vs = IDX_PREFIX @ ix_name i @ '':'' @ value_part S vs @ '':''"

text \<open>Only the first entry with the prefix is looked at.\<close>

definition check_unique ::
    "('db, 'v, 's, 'f) env \<Rightarrow> string \<Rightarrow> json \<Rightarrow> ('db, 'v, 's, 'f) collection \<Rightarrow> index \<Rightarrow> unit db_result" where
  "check_unique E key v c i =
     (let field_values = index_values i v; prefix = unique_prefix (env_json E) i field_values
      in if \<not> ix_unique i \<or> list_all is_null field_values then Inr ()
         else case iter_from (env_db E) (coll_db c) prefix of
                Inr (b, w) # _ \<Rightarrow>
                  if starts_with b prefix \<and> from_utf8_lossy E w \<noteq> key
                  then Inl (InvalidDocument (''Unique constraint violated: fields '' @
                         quoted (debug_strings E (ix_fields i)) @ '' with value '' @
                         debug_values E field_values @ '' already exists in index '' @ quoted (ix_name i)))
                  else Inr ()
              | _ \<Rightarrow> Inr ())"

fun check_all :: "('a \<Rightarrow> unit db_result) \<Rightarrow> 'a list \<Rightarrow> unit db_result" where
  "check_all f [] = Inr ()"
| "check_all f (x # xs) = res_bind (f x) (\<lambda>_. check_all f xs)"

definition check_unique_constraints ::
    "('db, 'v, 's, 'f) env \<Rightarrow> string \<Rightarrow> json \<Rightarrow> ('db, 'v, 's, 'f) collection \<Rightarrow> unit db_result" where
  "check_unique_constraints E key v c = check_all (check_unique E key v c) (get_all_indexes E c)"

section \<open>Index operations of a batch\<close>

text \<open>What insert, update and delete add to the write batch beside the document.\<close>

definition insert_ops ::
    "('db, 'v, 's, 'f) env \<Rightarrow> string \<Rightarrow> json \<Rightarrow> ('db, 'v, 's, 'f) collection \<Rightarrow> write_op list db_result" where
  "insert_ops E key v c =
     res_bind (compute_index_entries_for_insert E key v c) (\<lambda>(regular, geo).
       Inr (puts regular @ puts geo @ puts (compute_fulltext_entries_for_insert E key v c) @
            puts (compute_ttl_expiry_entries_for_insert E key v c)))"

definition update_ops ::
    "('db, 'v, 's, 'f) env \<Rightarrow> string \<Rightarrow> json \<Rightarrow> json \<Rightarrow> ('db, 'v, 's, 'f) collection \<Rightarrow>
     write_op list db_result" where
  "update_ops E key old_value new_value c =
     res_bind (compute_index_entries_for_update E key old_value new_value c)
       (\<lambda>(to_add, to_remove, geo_to_add, geo_to_remove).
       (let (ttl_to_add, ttl_to_remove) =
              compute_ttl_expiry_entries_for_update E key old_value new_value c
        in Inr (dels to_remove @ dels geo_to_remove @ puts to_add @ puts geo_to_add @
                dels (compute_fulltext_entries_for_delete E key old_value c) @
                puts (compute_fulltext_entries_for_insert E key new_value c) @
                dels ttl_to_remove @ puts ttl_to_add)))"

definition delete_ops ::
    "('db, 'v, 's, 'f) env \<Rightarrow> string \<Rightarrow> json \<Rightarrow> ('db, 'v, 's, 'f) collection \<Rightarrow> write_op list db_result" where
  "delete_ops E key v c =
     res_bind (compute_index_entries_for_delete E key v c) (\<lambda>(regular, geo).
       Inr (dels regular @ dels geo @ dels (compute_fulltext_entries_for_delete E key v c) @
            dels (compute_ttl_expiry_entries_for_delete E key v c)))"

section \<open>Insert\<close>

record fresh =
  fr_uuid :: string
  fr_rev :: string
  fr_now :: int

text \<open>The document's own key, which must be a string, or a new one.\<close>

definition take_key :: "string \<Rightarrow> json \<Rightarrow> (string \<times> json) db_result" where
  "take_key uuid data =
     (case data of
        JObject obj \<Rightarrow>
          (case map_of obj ''_key'' of
             Some (JString s) \<Rightarrow> Inr (s, JObject (smap_del ''_key'' obj))
           | Some _ \<Rightarrow> Inl (InvalidDocument ''_key must be a string'')
           | None \<Rightarrow> Inr (uuid, data))
      | _ \<Rightarrow> Inr (uuid, data))"

definition insert_internal ::
    "('db, 'v, 's, 'f) env \<Rightarrow> fresh \<Rightarrow> json \<Rightarrow> bool \<Rightarrow> ('db, 'v, 's, 'f, document) act" where
  "insert_internal E fr data update_indexes =
     bind (check_edge data) (\<lambda>_.
     bind (check_schema E data) (\<lambda>_.
     bind (lift (take_key (fr_uuid fr) data)) (\<lambda>(key, data). \<lambda>c.
       (let doc = doc_with_key (fr_rev fr) (fr_now fr) (coll_name c) key data;
            doc_value = to_value (env_doc E) doc
        in bind (lift (if update_indexes then check_unique_constraints E key doc_value c else Inr ())) (\<lambda>_.
           bind (lift (serialize_doc (env_doc E) doc)) (\<lambda>doc_bytes.
           bind (lift (if update_indexes then insert_ops E key doc_value c else Inr [])) (\<lambda>ops.
           bind (db_write E ''Failed to insert document: '' (Put (doc_key key) doc_bytes # ops)) (\<lambda>_.
           bind (modify (\<lambda>c. if update_indexes then update_vector_indexes_on_upsert E key doc_value c
                             else c)) (\<lambda>_.
           bind (modify increment_count) (\<lambda>_.
           bind (modify (send_change \<lparr> ce_type = CInsert, ce_key = key, ce_data = Some doc_value,
                                       ce_old_data = None \<rparr>)) (\<lambda>_.
           ret doc))))))) c))))"

definition coll_insert :: "('db, 'v, 's, 'f) env \<Rightarrow> fresh \<Rightarrow> json \<Rightarrow> ('db, 'v, 's, 'f, document) act" where
  "coll_insert E fr data = insert_internal E fr data True"

definition insert_no_index :: "('db, 'v, 's, 'f) env \<Rightarrow> fresh \<Rightarrow> json \<Rightarrow> ('db, 'v, 's, 'f, document) act" where
  "insert_no_index E fr data = insert_internal E fr data False"

section \<open>Update\<close>

definition timeseries_error :: db_error where
  "timeseries_error =
     OperationNotSupported ''Update operations are not allowed on timeseries collections''"

text \<open>The part that \<^verbatim>\<open>update\<close> and \<^verbatim>\<open>update_with_rev\<close> have in common: write the new document with the
  index changes, then the vector indexes and the change event.\<close>

definition write_update ::
    "('db, 'v, 's, 'f) env \<Rightarrow> string \<Rightarrow> json \<Rightarrow> document \<Rightarrow> ('db, 'v, 's, 'f, document) act" where
  "write_update E key old_value doc c =
     (let new_value = to_value (env_doc E) doc
      in bind (lift (serialize_doc (env_doc E) doc)) (\<lambda>doc_bytes.
         bind (lift (update_ops E key old_value new_value c)) (\<lambda>ops.
         bind (db_write E ''Failed to update document: '' (Put (doc_key key) doc_bytes # ops)) (\<lambda>_.
         bind (modify (update_vector_indexes_on_delete E key)) (\<lambda>_.
         bind (modify (update_vector_indexes_on_upsert E key new_value)) (\<lambda>_.
         bind (modify (send_change \<lparr> ce_type = CUpdate, ce_key = key, ce_data = Some new_value,
                                     ce_old_data = Some old_value \<rparr>)) (\<lambda>_.
         ret doc)))))) c)"

definition coll_update ::
    "('db, 'v, 's, 'f) env \<Rightarrow> fresh \<Rightarrow> string \<Rightarrow> json \<Rightarrow> ('db, 'v, 's, 'f, document) act" where
  "coll_update E fr key data c =
     (if collection_type c = ''timeseries'' then (Inl timeseries_error, c)
      else
        bind (lift (coll_get E key c)) (\<lambda>old_doc.
          (let doc = doc_update (fr_rev fr) (fr_now fr) data old_doc;
               new_value = to_value (env_doc E) doc
           in bind (check_edge new_value) (\<lambda>_.
              bind (check_schema E new_value) (\<lambda>_.
              write_update E key (to_value (env_doc E) old_doc) doc)))) c)"

definition update_with_rev ::
    "('db, 'v, 's, 'f) env \<Rightarrow> fresh \<Rightarrow> string \<Rightarrow> string \<Rightarrow> json \<Rightarrow> ('db, 'v, 's, 'f, document) act" where
  "update_with_rev E fr key expected_rev data c =
     (if collection_type c = ''timeseries'' then (Inl timeseries_error, c)
      else
        bind (lift (coll_get E key c)) (\<lambda>old_doc.
          if doc_rev old_doc \<noteq> expected_rev then
            fail (ConflictError (''Document '' @ quoted key @ '' has been modified. Expected revision '' @
              quoted expected_rev @ '', but current is '' @ quoted (doc_rev old_doc)))
          else
            write_update E key (to_value (env_doc E) old_doc)
              (doc_update (fr_rev fr) (fr_now fr) data old_doc)) c)"

section \<open>Delete\<close>

definition delete_event :: "string \<Rightarrow> json \<Rightarrow> change_event" where
  "delete_event key v = \<lparr> ce_type = CDelete, ce_key = key, ce_data = None, ce_old_data = Some v \<rparr>"

definition coll_delete :: "('db, 'v, 's, 'f) env \<Rightarrow> string \<Rightarrow> ('db, 'v, 's, 'f, unit) act" where
  "coll_delete E key c =
     bind (lift (coll_get E key c)) (\<lambda>doc.
       (let doc_value = to_value (env_doc E) doc
        in bind (lift (delete_ops E key doc_value c)) (\<lambda>ops.
           bind (db_write E ''Failed to delete document: '' (Del (doc_key key) # ops)) (\<lambda>_.
           bind (\<lambda>c. if collection_type c = ''blob'' then delete_blob_data E key c else (Inr (), c)) (\<lambda>_.
           bind (modify (update_vector_indexes_on_delete E key)) (\<lambda>_.
           bind (modify decrement_count) (\<lambda>_.
           modify (send_change (delete_event key doc_value)))))))))  c"

section \<open>Batches\<close>

definition read_doc ::
    "('db, 'v, 's, 'f) env \<Rightarrow> string \<Rightarrow> ('db, 'v, 's, 'f) collection \<Rightarrow> bytes option" where
  "read_doc E key c = (case get_cf (env_db E) (coll_db c) (doc_key key) of Inr r \<Rightarrow> r | Inl _ \<Rightarrow> None)"

definition upsert_one ::
    "('db, 'v, 's, 'f) env \<Rightarrow> ('db, 'v, 's, 'f) collection \<Rightarrow> fresh \<Rightarrow> string \<Rightarrow> json \<Rightarrow>
     (string \<times> document \<times> bytes \<times> bool) option" where
  "upsert_one E c fr key data =
     (let data = (case data of JObject obj \<Rightarrow> JObject (smap_put ''_key'' (JString key) obj) | _ \<Rightarrow> data);
          new_doc = doc_with_key (fr_rev fr) (fr_now fr) (coll_name c) key data;
          doc = (case read_doc E key c of
                   Some b \<Rightarrow> (case deserialize_doc (env_doc E) b of
                                Inr existing \<Rightarrow> doc_update (fr_rev fr) (fr_now fr) data existing
                              | Inl _ \<Rightarrow> new_doc)
                 | None \<Rightarrow> new_doc)
      in case serialize_doc (env_doc E) doc of
           Inr b \<Rightarrow> Some (key, doc, b, read_doc E key c \<noteq> None)
         | Inl _ \<Rightarrow> None)"

definition upsert_batch ::
    "('db, 'v, 's, 'f) env \<Rightarrow> (fresh \<times> string \<times> json) list \<Rightarrow> ('db, 'v, 's, 'f, nat) act" where
  "upsert_batch E documents c =
     (if documents = [] then (Inr 0, c)
      else if collection_type c = ''timeseries'' then
        (Inl (OperationNotSupported (''Upsert (update) operations are not allowed on timeseries '' @
           ''collections. Use insert_batch instead.'')), c)
      else
        (let us = List.map_filter (\<lambda>(fr, key, data). upsert_one E c fr key data) documents;
             insert_count = length (filter (\<lambda>(key, doc, b, exists). \<not> exists) us)
         in bind (db_write E ''Failed to batch upsert: ''
                    (map (\<lambda>(key, doc, b, exists). Put (doc_key key) b) us)) (\<lambda>_.
            bind (modify (\<lambda>c. if insert_count > 0
                              then c\<lparr> doc_count := doc_count c + of_nat insert_count, count_dirty := True \<rparr>
                              else c)) (\<lambda>_.
            bind (modify (fold (\<lambda>(key, doc, b, exists).
                    update_vector_indexes_on_upsert E key (to_value (env_doc E) doc)) us)) (\<lambda>_.
            bind (\<lambda>c. (Inr (), snd (persist_vector_indexes E c))) (\<lambda>_.
            ret (length us))))) c))"

fun delete_batch_loop ::
    "('db, 'v, 's, 'f) env \<Rightarrow> string list \<Rightarrow> write_op list \<Rightarrow> (string \<times> json) list \<Rightarrow>
     ('db, 'v, 's, 'f) collection \<Rightarrow>
     (write_op list \<times> (string \<times> json) list) \<times> ('db, 'v, 's, 'f) collection" where
  "delete_batch_loop E [] batch deleted c = ((batch, deleted), c)"
| "delete_batch_loop E (key # keys) batch deleted c =
     (case read_doc E key c of
        None \<Rightarrow> delete_batch_loop E keys batch deleted c
      | Some b \<Rightarrow>
          (case deserialize_doc (env_doc E) b of
             Inl _ \<Rightarrow> delete_batch_loop E keys batch deleted c
           | Inr doc \<Rightarrow>
               (let v = to_value (env_doc E) doc;
                    ops = (case delete_ops E key v c of Inr ops \<Rightarrow> ops | Inl _ \<Rightarrow> []);
                    c1 = (if collection_type c = ''blob'' then snd (delete_blob_data E key c) else c);
                    c2 = update_vector_indexes_on_delete E key c1
                in delete_batch_loop E keys (batch @ Del (doc_key key) # ops) (deleted @ [(key, v)]) c2)))"

definition delete_batch :: "('db, 'v, 's, 'f) env \<Rightarrow> string list \<Rightarrow> ('db, 'v, 's, 'f, nat) act" where
  "delete_batch E keys c =
     (if keys = [] then (Inr 0, c)
      else
        (let ((batch, deleted), c1) = delete_batch_loop E keys [] [] c
         in if deleted = [] then (Inr 0, c1)
            else
              bind (\<lambda>c. (Inr (), snd (persist_vector_indexes E c))) (\<lambda>_.
              bind (db_write E ''Failed to batch delete: '' batch) (\<lambda>_.
              bind (modify (\<lambda>c. c\<lparr> doc_count := doc_count c - of_nat (length deleted),
                                    count_dirty := True \<rparr>)) (\<lambda>_.
              bind (modify (fold (\<lambda>(key, v). send_change (delete_event key v)) deleted)) (\<lambda>_.
              ret (length deleted))))) c1))"

fun insert_batch_loop ::
    "('db, 'v, 's, 'f) env \<Rightarrow> 's validator option \<Rightarrow> ('db, 'v, 's, 'f) collection \<Rightarrow>
     (fresh \<times> json) list \<Rightarrow> write_op list \<Rightarrow> (string \<times> json) list \<Rightarrow> document list \<Rightarrow>
     (write_op list \<times> (string \<times> json) list \<times> document list) db_result" where
  "insert_batch_loop E va c [] batch doc_values inserted = Inr (batch, doc_values, inserted)"
| "insert_batch_loop E va c ((fr, data) # docs) batch doc_values inserted =
     res_bind (if collection_type c = ''edge'' then validate_edge_document data else Inr ()) (\<lambda>_.
     res_bind (case va of
                 None \<Rightarrow> Inr ()
               | Some v \<Rightarrow> map_err (\<lambda>e. InvalidDocument (''Schema validation failed: '' @ e))
                             (validate E v data)) (\<lambda>_.
     res_bind (take_key (fr_uuid fr) data) (\<lambda>(key, data).
     res_bind (if key \<in> fst ` set doc_values
               then Inl (InvalidDocument (''Duplicate _key '' @ quoted key @ '' within batch''))
               else Inr ()) (\<lambda>_.
     res_bind (map_err (\<lambda>e. InternalError (''Failed to check existing key: '' @ e))
                 (get_cf (env_db E) (coll_db c) (doc_key key))) (\<lambda>existing.
     res_bind (if existing \<noteq> None
               then Inl (InvalidDocument (''Document with _key '' @ quoted key @ '' already exists''))
               else Inr ()) (\<lambda>_.
       (let doc = doc_with_key (fr_rev fr) (fr_now fr) (coll_name c) key data;
            v = to_value (env_doc E) doc
        in res_bind (check_unique_constraints E key v c) (\<lambda>_.
           res_bind (serialize_doc (env_doc E) doc) (\<lambda>b.
           res_bind (insert_ops E key v c) (\<lambda>ops.
           insert_batch_loop E va c docs (batch @ Put (doc_key key) b # ops)
             (doc_values @ [(key, v)]) (inserted @ [doc])))))))))))"

definition insert_event :: "string \<Rightarrow> json \<Rightarrow> change_event" where
  "insert_event key v = \<lparr> ce_type = CInsert, ce_key = key, ce_data = Some v, ce_old_data = None \<rparr>"

definition insert_batch ::
    "('db, 'v, 's, 'f) env \<Rightarrow> (fresh \<times> json) list \<Rightarrow> ('db, 'v, 's, 'f, document list) act" where
  "insert_batch E documents c =
     (if documents = [] then (Inr [], c)
      else
        bind (get_cached_schema_validator E) (\<lambda>va.
        bind (\<lambda>c. lift (insert_batch_loop E va c documents [] [] []) c) (\<lambda>(batch, doc_values, inserted).
        bind (db_write E ''Failed to batch insert: '' batch) (\<lambda>_.
        bind (modify (fold (\<lambda>(key, v). update_vector_indexes_on_upsert E key v) doc_values)) (\<lambda>_.
        bind (\<lambda>c. (Inr (), snd (persist_vector_indexes E c))) (\<lambda>_.
        bind (modify (\<lambda>c. c\<lparr> doc_count := doc_count c + of_nat (length inserted),
                              count_dirty := True \<rparr>)) (\<lambda>_.
        bind (modify (fold (\<lambda>(key, v). send_change (insert_event key v)) doc_values)) (\<lambda>_.
        ret inserted))))))) c)"

definition update_event :: "string \<Rightarrow> json \<Rightarrow> json \<Rightarrow> change_event" where
  "update_event key old_v new_v =
     \<lparr> ce_type = CUpdate, ce_key = key, ce_data = Some new_v, ce_old_data = Some old_v \<rparr>"

text \<open>A document that is missing, fails a check or cannot be serialised is skipped; only a schema
  that does not compile ends the loop.\<close>

fun update_batch_loop ::
    "('db, 'v, 's, 'f) env \<Rightarrow> (fresh \<times> string \<times> json) list \<Rightarrow> write_op list \<Rightarrow> document list \<Rightarrow>
     change_event list \<Rightarrow> ('db, 'v, 's, 'f, write_op list \<times> document list \<times> change_event list) act" where
  "update_batch_loop E [] batch updated events c = (Inr (batch, updated, events), c)"
| "update_batch_loop E ((fr, key, data) # us) batch updated events c =
     (case coll_get E key c of
        Inl _ \<Rightarrow> update_batch_loop E us batch updated events c
      | Inr old_doc \<Rightarrow>
          (let old_v = to_value (env_doc E) old_doc;
               doc = doc_update (fr_rev fr) (fr_now fr) data old_doc;
               new_v = to_value (env_doc E) doc
           in if collection_type c = ''edge'' \<and> validate_edge_document new_v \<noteq> Inr ()
              then update_batch_loop E us batch updated events c
              else
                bind (get_cached_schema_validator E) (\<lambda>va c.
                  if (case va of None \<Rightarrow> False | Some v \<Rightarrow> validate E v new_v \<noteq> Inr ())
                  then update_batch_loop E us batch updated events c
                  else (case serialize_doc (env_doc E) doc of
                     Inl _ \<Rightarrow> update_batch_loop E us batch updated events c
                   | Inr b \<Rightarrow>
                       (let ops = (case update_ops E key old_v new_v c of Inr ops \<Rightarrow> ops | Inl _ \<Rightarrow> []);
                            c1 = update_vector_indexes_on_upsert E key new_v
                                   (update_vector_indexes_on_delete E key c)
                        in update_batch_loop E us (batch @ Put (doc_key key) b # ops)
                             (updated @ [doc]) (events @ [update_event key old_v new_v]) c1))) c))"

definition update_batch ::
    "('db, 'v, 's, 'f) env \<Rightarrow> (fresh \<times> string \<times> json) list \<Rightarrow> ('db, 'v, 's, 'f, document list) act" where
  "update_batch E updates c =
     (if updates = [] then (Inr [], c)
      else if collection_type c = ''timeseries'' then (Inl timeseries_error, c)
      else
        bind (update_batch_loop E updates [] [] []) (\<lambda>(batch, updated, events).
          if updated = [] then ret []
          else
            bind (\<lambda>c. (Inr (), snd (persist_vector_indexes E c))) (\<lambda>_.
            bind (db_write E ''Failed to batch update: '' batch) (\<lambda>_.
            bind (modify (fold send_change events)) (\<lambda>_.
            ret updated)))) c)"

definition truncate :: "('db, 'v, 's, 'f) env \<Rightarrow> ('db, 'v, 's, 'f, nat) act" where
  "truncate E c =
     (let docs = coll_all E c
      in if docs = [] then (Inr 0, c) else delete_batch E (map doc_key_of docs) c)"

text \<open>\<open>parse_uuid\<close> reads a key as a 128-bit UUID.\<close>

definition prune_older_than ::
    "('db, 'v, 's, 'f) env \<Rightarrow> (string \<Rightarrow> 128 word option) \<Rightarrow> u64 \<Rightarrow> ('db, 'v, 's, 'f, nat) act" where
  "prune_older_than E parse_uuid timestamp_ms c =
     (let keys = map (\<lambda>p. from_utf8_lossy E (drop (length DOC_PREFIX) (fst p)))
                   (scan_while (env_db E) (coll_db c) DOC_PREFIX);
          old = filter (\<lambda>k. case parse_uuid k of
                              Some u \<Rightarrow> (ucast (drop_bit 80 u) :: u64) < timestamp_ms
                            | None \<Rightarrow> False) keys
      in if old = [] then (Inr 0, c) else delete_batch E old c)"

section \<open>Counters\<close>

definition recalculate_count :: "('db, 'v, 's, 'f) env \<Rightarrow> ('db, 'v, 's, 'f) collection \<Rightarrow>
    u64 \<times> ('db, 'v, 's, 'f) collection" where
  "recalculate_count E c =
     (let n = count_prefix E (coll_db c) DOC_PREFIX in (n, c\<lparr> doc_count := n, count_dirty := True \<rparr>))"

definition recount_documents :: "('db, 'v, 's, 'f) env \<Rightarrow> ('db, 'v, 's, 'f) collection \<Rightarrow>
    u64 \<times> ('db, 'v, 's, 'f) collection" where
  "recount_documents E c =
     (let n = count_prefix E (coll_db c) DOC_PREFIX in (n, c\<lparr> doc_count := n, count_dirty := True \<rparr>))"

end
