(* ===== verification/CrudInv.thy ===== *)
theory CrudInv
  imports Crud
begin

text \<open>
  The invariant of a collection and the refinement of a key-to-document map. \<open>docs_map\<close> reads the
  abstract state off the stored bytes, \<open>inv_map\<close> says that every stored document can be read under
  its own key and that the four kinds of index hold exactly the entries of the documents. Both are
  stated on the contents of the store, so that a batch of several documents is a sequence of steps.
\<close>

section \<open>Abstract state and invariant\<close>

record cfgs =
  cf_idx :: "index list"
  cf_geo :: "geo_index list"
  cf_ft :: "fulltext_index list"
  cf_ttl :: "ttl_index list"

definition cfgs_of :: "('db, 'v, 's, 'f) env \<Rightarrow> ('db, 'v, 's, 'f) collection \<Rightarrow> cfgs" where
  "cfgs_of E c = \<lparr> cf_idx = get_all_indexes E c, cf_geo = get_all_geo_indexes E c,
     cf_ft = get_all_fulltext_indexes E c, cf_ttl = get_all_ttl_indexes E c \<rparr>"

definition cfgs_ok :: "cfgs \<Rightarrow> bool" where
  "cfgs_ok g \<longleftrightarrow> regular_ok (cf_idx g) \<and> geo_ok (cf_geo g) \<and> fulltext_ok (cf_ft g) \<and> ttl_ok (cf_ttl g)"

definition docs_map :: "doc_codec \<Rightarrow> (bytes \<rightharpoonup> bytes) \<Rightarrow> string \<rightharpoonup> document" where
  "docs_map D m k =
     (if key_ok k then (case m (doc_key k) of Some b \<Rightarrow> res_ok (deserialize_doc D b) | None \<Rightarrow> None)
      else None)"

definition vals_map :: "doc_codec \<Rightarrow> (bytes \<rightharpoonup> bytes) \<Rightarrow> string \<rightharpoonup> json" where
  "vals_map D m k = map_option (to_value D) (docs_map D m k)"

definition docs_ok :: "doc_codec \<Rightarrow> (bytes \<rightharpoonup> bytes) \<Rightarrow> bool" where
  "docs_ok D m \<longleftrightarrow>
     (\<forall>k b. key_ok k \<longrightarrow> m (doc_key k) = Some b \<longrightarrow>
        (\<exists>d. deserialize_doc D b = Inr d \<and> doc_key_of d = k))"

definition indexes_agree ::
    "('db, 'v, 's, 'f) env \<Rightarrow> cfgs \<Rightarrow> (bytes \<rightharpoonup> bytes) \<Rightarrow> (string \<rightharpoonup> json) \<Rightarrow> bool" where
  "indexes_agree E g m D \<longleftrightarrow>
     family_agrees idx_ns (regular_entries (env_json E) (cf_idx g)) m D \<and>
     family_agrees geo_ns (geo_entries (env_json E) (cf_geo g)) m D \<and>
     family_agrees ft_ns (fulltext_entries (env_uni E) (cf_ft g)) m D \<and>
     family_agrees ttl_ns (ttl_entries (parse_rfc3339 E) (cf_ttl g)) m D"

definition inv_map :: "('db, 'v, 's, 'f) env \<Rightarrow> cfgs \<Rightarrow> (bytes \<rightharpoonup> bytes) \<Rightarrow> bool" where
  "inv_map E g m \<longleftrightarrow>
     cfgs_ok g \<and> docs_ok (env_doc E) m \<and> indexes_agree E g m (vals_map (env_doc E) m)"

definition coll_inv ::
    "('db, 'v, 's, 'f) env \<Rightarrow> ('db \<Rightarrow> (bytes, bytes) smap) \<Rightarrow> ('db, 'v, 's, 'f) collection \<Rightarrow> bool" where
  "coll_inv E V c \<longleftrightarrow> inv_map E (cfgs_of E c) (look V c)"

definition coll_docs ::
    "('db, 'v, 's, 'f) env \<Rightarrow> ('db \<Rightarrow> (bytes, bytes) smap) \<Rightarrow> ('db, 'v, 's, 'f) collection \<Rightarrow>
     string \<rightharpoonup> document" where
  "coll_docs E V c = docs_map (env_doc E) (look V c)"

section \<open>Batches of one document\<close>

definition ins_batch :: "('db, 'v, 's, 'f) env \<Rightarrow> cfgs \<Rightarrow> string \<Rightarrow> json \<Rightarrow> write_op list" where
  "ins_batch E g k v =
     puts (regular_entries (env_json E) (cf_idx g) k v) @ puts (geo_entries (env_json E) (cf_geo g) k v) @
     puts (fulltext_entries (env_uni E) (cf_ft g) k v) @
     puts (ttl_entries (parse_rfc3339 E) (cf_ttl g) k v)"

definition upd_batch :: "('db, 'v, 's, 'f) env \<Rightarrow> cfgs \<Rightarrow> string \<Rightarrow> json \<Rightarrow> json \<Rightarrow> write_op list" where
  "upd_batch E g k old v =
     dels (regular_keys (env_json E) (cf_idx g) k old) @ dels (geo_keys (cf_geo g) k) @
     puts (regular_entries (env_json E) (cf_idx g) k v) @ puts (geo_entries (env_json E) (cf_geo g) k v) @
     dels (fulltext_keys (env_uni E) (cf_ft g) k old) @ puts (fulltext_entries (env_uni E) (cf_ft g) k v) @
     dels (ttl_keys (parse_rfc3339 E) (cf_ttl g) k old) @
     puts (ttl_entries (parse_rfc3339 E) (cf_ttl g) k v)"

definition del_batch :: "('db, 'v, 's, 'f) env \<Rightarrow> cfgs \<Rightarrow> string \<Rightarrow> json \<Rightarrow> write_op list" where
  "del_batch E g k v =
     dels (regular_keys (env_json E) (cf_idx g) k v) @ dels (geo_keys (cf_geo g) k) @
     dels (fulltext_keys (env_uni E) (cf_ft g) k v) @ dels (ttl_keys (parse_rfc3339 E) (cf_ttl g) k v)"

lemma batch_ops:
  "insert_ops E k v c = Inr (ins_batch E (cfgs_of E c) k v)"
  "update_ops E k old v c = Inr (upd_batch E (cfgs_of E c) k old v)"
  "delete_ops E k v c = Inr (del_batch E (cfgs_of E c) k v)"
  by (simp_all add: insert_ops_def update_ops_def delete_ops_def ins_batch_def upd_batch_def
      del_batch_def cfgs_of_def compute_index_entries_for_insert_def
      compute_index_entries_for_update_def compute_index_entries_for_delete_def
      compute_fulltext_entries_for_insert_def compute_fulltext_entries_for_delete_def
      compute_ttl_expiry_entries_for_insert_def compute_ttl_expiry_entries_for_update_def
      compute_ttl_expiry_entries_for_delete_def)

text \<open>Every key of these batches is an index entry, so neither a document nor metadata.\<close>

definition fam_key :: "bytes \<Rightarrow> bool" where
  "fam_key b \<longleftrightarrow> idx_ns b \<or> geo_ns b \<or> ft_ns b \<or> ttl_ns b"

lemma fam_key_doc [simp]: "fam_key (doc_key k) \<longleftrightarrow> \<not> key_ok k"
  by (simp add: fam_key_def doc_key_ns)

lemma fam_key_meta: "fam_key b \<Longrightarrow> \<not> meta_ns b"
  using meta_ns_disjoint(1) [of b] by (auto simp: fam_key_def)

lemma batch_fam_key:
  "p \<in> set (ins_batch E g k v) \<Longrightarrow> fam_key (op_key p)"
  "p \<in> set (upd_batch E g k old v) \<Longrightarrow> fam_key (op_key p)"
  "p \<in> set (del_batch E g k v) \<Longrightarrow> fam_key (op_key p)"
  using reg.ents_ns geo.ents_ns ft.ents_ns ttl.ents_ns reg.rems_ns geo.rems_ns ft.rems_ns ttl.rems_ns
  by (fastforce simp: ins_batch_def upd_batch_def del_batch_def fam_key_def puts_def dels_def)+

lemma apply_fam:
  assumes "\<And>p. p \<in> set ops \<Longrightarrow> fam_key (op_key p)" "\<not> fam_key b"
  shows "apply_ops ops m b = m b"
  using assms by (intro apply_ops_other) auto

lemma docs_map_fam:
  assumes "\<And>p. p \<in> set ops \<Longrightarrow> fam_key (op_key p)"
  shows "docs_map D (apply_ops ops m) = docs_map D m"
  using apply_fam [OF assms] by (simp add: docs_map_def fun_eq_iff)

lemma docs_ok_fam:
  assumes "\<And>p. p \<in> set ops \<Longrightarrow> fam_key (op_key p)"
  shows "docs_ok D (apply_ops ops m) = docs_ok D m"
  using apply_fam [OF assms] by (simp add: docs_ok_def)

lemma docs_map_put:
  "key_ok k \<Longrightarrow> deserialize_doc D b = Inr d \<Longrightarrow> docs_map D (m(doc_key k \<mapsto> b)) = (docs_map D m)(k \<mapsto> d)"
  by (auto simp: docs_map_def fun_eq_iff)

lemma docs_map_del: "docs_map D (m(doc_key k := None)) = (docs_map D m)(k := None)"
  by (auto simp: docs_map_def fun_eq_iff)

lemma docs_ok_put:
  "docs_ok D m \<Longrightarrow> deserialize_doc D b = Inr d \<Longrightarrow> doc_key_of d = k \<Longrightarrow> docs_ok D (m(doc_key k \<mapsto> b))"
  by (auto simp: docs_ok_def)

lemma docs_ok_del: "docs_ok D m \<Longrightarrow> docs_ok D (m(doc_key k := None))"
  by (auto simp: docs_ok_def)

lemmas own_filters =
  reg.filter_own geo.filter_own ft.filter_own ttl.filter_own

lemmas other_filters =
  reg.filter_other [where ns' = geo_ns, OF ns_disjoint(1) [THEN conjunct1]]
  reg.filter_other [where ns' = ft_ns, OF ns_disjoint(1) [THEN conjunct2, THEN conjunct1]]
  reg.filter_other [where ns' = ttl_ns, OF ns_disjoint(1) [THEN conjunct2, THEN conjunct2]]
  geo.filter_other [where ns' = idx_ns, OF ns_disjoint(2) [THEN conjunct1]]
  geo.filter_other [where ns' = ft_ns, OF ns_disjoint(2) [THEN conjunct2, THEN conjunct1]]
  geo.filter_other [where ns' = ttl_ns, OF ns_disjoint(2) [THEN conjunct2, THEN conjunct2]]
  ft.filter_other [where ns' = idx_ns, OF ns_disjoint(3) [THEN conjunct1]]
  ft.filter_other [where ns' = geo_ns, OF ns_disjoint(3) [THEN conjunct2, THEN conjunct1]]
  ft.filter_other [where ns' = ttl_ns, OF ns_disjoint(3) [THEN conjunct2, THEN conjunct2]]
  ttl.filter_other [where ns' = idx_ns, OF ns_disjoint(4) [THEN conjunct1]]
  ttl.filter_other [where ns' = geo_ns, OF ns_disjoint(4) [THEN conjunct2, THEN conjunct1]]
  ttl.filter_other [where ns' = ft_ns, OF ns_disjoint(4) [THEN conjunct2, THEN conjunct2]]

lemmas batch_filters = own_filters other_filters doc_key_ns

lemma indexes_agree_ins:
  assumes "cfgs_ok g" "indexes_agree E g m D" "D k = None" "key_ok k"
  shows "indexes_agree E g (apply_ops (Put (doc_key k) b # ins_batch E g k v) m) (D(k \<mapsto> v))"
  unfolding indexes_agree_def ins_batch_def
  using assms(1) [unfolded cfgs_ok_def] assms(2) [unfolded indexes_agree_def] assms(3,4)
  by (intro conjI; subst family_agrees_filter)
    (simp_all add: batch_filters reg.put_new geo.put_new ft.put_new ttl.put_new del: apply_ops_Cons)

lemma indexes_agree_upd:
  assumes "cfgs_ok g" "indexes_agree E g m D" "D k = Some old" "key_ok k"
  shows "indexes_agree E g (apply_ops (Put (doc_key k) b # upd_batch E g k old v) m) (D(k \<mapsto> v))"
  unfolding indexes_agree_def upd_batch_def
  using assms(1) [unfolded cfgs_ok_def] assms(2) [unfolded indexes_agree_def] assms(3,4)
    geo.replace [where ?d0.0 = old]
  by (intro conjI; subst family_agrees_filter)
    (simp_all add: batch_filters reg.replace ft.replace ttl.replace del: apply_ops_Cons)

lemma indexes_agree_del:
  assumes "cfgs_ok g" "indexes_agree E g m D" "D k = Some old" "key_ok k"
  shows "indexes_agree E g (apply_ops (Del (doc_key k) # del_batch E g k old) m) (D(k := None))"
  unfolding indexes_agree_def del_batch_def
  using assms(1) [unfolded cfgs_ok_def] assms(2) [unfolded indexes_agree_def] assms(3,4)
    geo.remove [where ?d0.0 = old]
  by (intro conjI; subst family_agrees_filter)
    (simp_all add: batch_filters reg.remove ft.remove ttl.remove del: apply_ops_Cons)

end
