(* ===== verification/CrudCorrect.thy ===== *)
theory CrudCorrect
  imports CrudInv
begin

text \<open>
  The single-document operations of a collection refine a map from keys to documents, and keep the
  documents and all indexes in step.
\<close>

section \<open>Steps on the contents of the store\<close>

lemma vals_map_put: "docs_map D m' = (docs_map D m)(k \<mapsto> d) \<Longrightarrow> vals_map D m' = (vals_map D m)(k \<mapsto> to_value D d)"
  by (auto simp: vals_map_def fun_eq_iff)

lemma vals_map_del: "docs_map D m' = (docs_map D m)(k := None) \<Longrightarrow> vals_map D m' = (vals_map D m)(k := None)"
  by (auto simp: vals_map_def fun_eq_iff)

lemma docs_batch:
  "docs_map D (apply_ops (ins_batch E g k v) m) = docs_map D m"
  "docs_map D (apply_ops (upd_batch E g k old v) m) = docs_map D m"
  "docs_map D (apply_ops (del_batch E g k v) m) = docs_map D m"
  "docs_ok D (apply_ops (ins_batch E g k v) m) = docs_ok D m"
  "docs_ok D (apply_ops (upd_batch E g k old v) m) = docs_ok D m"
  "docs_ok D (apply_ops (del_batch E g k v) m) = docs_ok D m"
  by (rule docs_map_fam docs_ok_fam, erule batch_fam_key)+

lemma inv_map_ins:
  assumes "inv_map E g m" "key_ok k" "docs_map (env_doc E) m k = None"
    "deserialize_doc (env_doc E) b = Inr d" "doc_key_of d = k"
  defines "m' \<equiv> apply_ops (Put (doc_key k) b # ins_batch E g k (to_value (env_doc E) d)) m"
  shows "inv_map E g m' \<and> docs_map (env_doc E) m' = (docs_map (env_doc E) m)(k \<mapsto> d)"
proof -
  have docs: "docs_map (env_doc E) m' = (docs_map (env_doc E) m)(k \<mapsto> d)"
    unfolding m'_def using docs_map_put [OF assms(2,4)] by (simp add: docs_batch)
  moreover have "docs_ok (env_doc E) m'"
    unfolding m'_def using docs_ok_put [OF _ assms(4,5)] assms(1) by (simp add: inv_map_def docs_batch)
  moreover have "indexes_agree E g m' (vals_map (env_doc E) m')"
    unfolding vals_map_put [OF docs] unfolding m'_def
    using assms(1-3) by (intro indexes_agree_ins) (simp_all add: inv_map_def vals_map_def)
  ultimately show ?thesis using assms(1) by (simp add: inv_map_def)
qed

lemma inv_map_upd:
  assumes "inv_map E g m" "docs_map (env_doc E) m k = Some old"
    "deserialize_doc (env_doc E) b = Inr d" "doc_key_of d = k"
  defines "m' \<equiv> apply_ops (Put (doc_key k) b #
      upd_batch E g k (to_value (env_doc E) old) (to_value (env_doc E) d)) m"
  shows "inv_map E g m' \<and> docs_map (env_doc E) m' = (docs_map (env_doc E) m)(k \<mapsto> d)"
proof -
  have k: "key_ok k" using assms(2) by (auto simp: docs_map_def split: if_splits)
  have docs: "docs_map (env_doc E) m' = (docs_map (env_doc E) m)(k \<mapsto> d)"
    unfolding m'_def using docs_map_put [OF k assms(3)] by (simp add: docs_batch)
  moreover have "docs_ok (env_doc E) m'"
    unfolding m'_def using docs_ok_put [OF _ assms(3,4)] assms(1) by (simp add: inv_map_def docs_batch)
  moreover have "indexes_agree E g m' (vals_map (env_doc E) m')"
    unfolding vals_map_put [OF docs] unfolding m'_def
    using assms(1,2) k by (intro indexes_agree_upd) (simp_all add: inv_map_def vals_map_def)
  ultimately show ?thesis using assms(1) by (simp add: inv_map_def)
qed

lemma inv_map_del:
  assumes "inv_map E g m" "docs_map (env_doc E) m k = Some old"
  defines "m' \<equiv> apply_ops (Del (doc_key k) # del_batch E g k (to_value (env_doc E) old)) m"
  shows "inv_map E g m' \<and> docs_map (env_doc E) m' = (docs_map (env_doc E) m)(k := None)"
proof -
  have k: "key_ok k" using assms(2) by (auto simp: docs_map_def split: if_splits)
  have docs: "docs_map (env_doc E) m' = (docs_map (env_doc E) m)(k := None)"
    unfolding m'_def using docs_map_del by (simp add: docs_batch)
  moreover have "docs_ok (env_doc E) m'"
    unfolding m'_def using docs_ok_del assms(1) by (simp add: inv_map_def docs_batch)
  moreover have "indexes_agree E g m' (vals_map (env_doc E) m')"
    unfolding vals_map_del [OF docs] unfolding m'_def
    using assms(1,2) k by (intro indexes_agree_del) (simp_all add: inv_map_def vals_map_def)
  ultimately show ?thesis using assms(1) by (simp add: inv_map_def)
qed

section \<open>Steps of the collection\<close>

text \<open>What the metadata scans read is decided by the metadata keys.\<close>

lemma read_meta_cong:
  assumes "rocks_ok (env_db E) V" "\<And>b. starts_with b pre \<Longrightarrow> look V c b = look V c' b"
  shows "read_meta E C pre c = read_meta E C pre c'"
proof -
  have ok: "smap_ok (filter P (V d))" for P d
    using rocks_okD(1) [OF assms(1), of d]
    by (auto simp: smap_ok_def sorted_wrt_map intro: sorted_wrt_filter)
  have lookup: "map_of (filter (\<lambda>p. starts_with (fst p) pre) m) b =
      (if starts_with b pre then map_of m b else None)" for m :: "(bytes, bytes) smap" and b
    by (induction m) auto
  have "filter (\<lambda>p. starts_with (fst p) pre) (V (coll_db c)) =
      filter (\<lambda>p. starts_with (fst p) pre) (V (coll_db c'))"
    by (rule smap_eqI) (use ok assms(2) in \<open>auto simp: lookup fun_eq_iff\<close>)
  then show ?thesis by (simp add: read_meta_def scan_eq [OF assms(1)])
qed

lemma cfgs_of_cong:
  assumes "rocks_ok (env_db E) V" "\<And>b. meta_ns b \<Longrightarrow> look V c b = look V c' b"
  shows "cfgs_of E c = cfgs_of E c'"
  using assms(2)
  by (auto simp: cfgs_of_def get_all_indexes_def get_all_geo_indexes_def get_all_fulltext_indexes_def
      get_all_ttl_indexes_def meta_ns_def intro!: read_meta_cong [OF assms(1)])

lemma docs_map_cong: "(\<And>k. m (doc_key k) = m' (doc_key k)) \<Longrightarrow> docs_map D m = docs_map D m'"
  by (simp add: docs_map_def fun_eq_iff)

lemma core_ns:
  "idx_ns b \<Longrightarrow> core_key b" "geo_ns b \<Longrightarrow> core_key b" "ft_ns b \<Longrightarrow> core_key b" "ttl_ns b \<Longrightarrow> core_key b"
  "meta_ns b \<Longrightarrow> core_key b" "core_key (doc_key k)"
  by (auto simp: core_key_def ttl_ns_def doc_key_def starts_with_iff)

lemma same_core_inv:
  assumes "rocks_ok (env_db E) V" "same_core V c c'"
  shows "coll_inv E V c' = coll_inv E V c" "coll_docs E V c' = coll_docs E V c"
    "cfgs_of E c' = cfgs_of E c"
proof -
  have eq: "core_key b \<Longrightarrow> look V c' b = look V c b" for b using assms(2) by (simp add: same_core_def)
  show cfg: "cfgs_of E c' = cfgs_of E c" using eq core_ns(5) by (intro cfgs_of_cong [OF assms(1)]) auto
  have docs: "docs_map (env_doc E) (look V c') = docs_map (env_doc E) (look V c)"
    using eq core_ns(6) by (intro docs_map_cong) auto
  then show "coll_docs E V c' = coll_docs E V c" by (simp add: coll_docs_def)
  have vals: "vals_map (env_doc E) (look V c') = vals_map (env_doc E) (look V c)"
    by (simp add: vals_map_def docs fun_eq_iff)
  have "docs_ok (env_doc E) (look V c') = docs_ok (env_doc E) (look V c)"
    using eq core_ns(6) by (simp add: docs_ok_def)
  moreover have "family_agrees ns ents (look V c') D = family_agrees ns ents (look V c) D"
    if "\<And>b. ns b \<Longrightarrow> core_key b" for ns ents D
    by (rule family_agrees_cong) (simp add: eq that)
  ultimately show "coll_inv E V c' = coll_inv E V c"
    by (simp add: coll_inv_def inv_map_def cfg vals indexes_agree_def core_ns)
qed

text \<open>A write of a document with index entries, then changes outside the core.\<close>

lemma written_cfgs:
  assumes "rocks_ok (env_db E) V" "look V c' = apply_ops (p # ops) (look V c)"
    "op_key p = doc_key k" "\<And>q. q \<in> set ops \<Longrightarrow> fam_key (op_key q)"
  shows "cfgs_of E c' = cfgs_of E c"
proof (rule cfgs_of_cong [OF assms(1)])
  fix b assume b: "meta_ns b"
  then have "\<not> fam_key b" "b \<noteq> doc_key k" using fam_key_meta meta_ns_disjoint(2) by blast+
  then have "\<forall>q \<in> set (p # ops). op_key q \<noteq> b" using assms(3,4) by auto
  then show "look V c' b = look V c b" unfolding assms(2) by (rule apply_ops_other)
qed

lemma coll_inv_ins:
  assumes "rocks_ok (env_db E) V" "coll_inv E V c" "key_ok k" "coll_docs E V c k = None"
    "deserialize_doc (env_doc E) b = Inr d" "doc_key_of d = k"
    "look V c' = apply_ops (Put (doc_key k) b # ins_batch E (cfgs_of E c) k (to_value (env_doc E) d)) (look V c)"
  shows "coll_inv E V c' \<and> coll_docs E V c' = (coll_docs E V c)(k \<mapsto> d)"
proof -
  have "cfgs_of E c' = cfgs_of E c"
    using assms(1,7) by (rule written_cfgs) (simp, erule batch_fam_key(1))
  then show ?thesis
    using inv_map_ins [OF assms(2) [unfolded coll_inv_def] assms(3) assms(4) [unfolded coll_docs_def] assms(5,6)]
    by (simp add: coll_inv_def coll_docs_def assms(7))
qed

lemma coll_inv_upd:
  assumes "rocks_ok (env_db E) V" "coll_inv E V c" "coll_docs E V c k = Some old"
    "deserialize_doc (env_doc E) b = Inr d" "doc_key_of d = k"
    "look V c' = apply_ops (Put (doc_key k) b #
       upd_batch E (cfgs_of E c) k (to_value (env_doc E) old) (to_value (env_doc E) d)) (look V c)"
  shows "coll_inv E V c' \<and> coll_docs E V c' = (coll_docs E V c)(k \<mapsto> d)"
proof -
  have "cfgs_of E c' = cfgs_of E c"
    using assms(1,6) by (rule written_cfgs) (simp, erule batch_fam_key(2))
  then show ?thesis
    using inv_map_upd [OF assms(2) [unfolded coll_inv_def] assms(3) [unfolded coll_docs_def] assms(4,5)]
    by (simp add: coll_inv_def coll_docs_def assms(6))
qed

lemma coll_inv_del:
  assumes "rocks_ok (env_db E) V" "coll_inv E V c" "coll_docs E V c k = Some old"
    "look V c' = apply_ops (Del (doc_key k) # del_batch E (cfgs_of E c) k (to_value (env_doc E) old)) (look V c)"
  shows "coll_inv E V c' \<and> coll_docs E V c' = (coll_docs E V c)(k := None)"
proof -
  have "cfgs_of E c' = cfgs_of E c"
    using assms(1,4) by (rule written_cfgs) (simp, erule batch_fam_key(3))
  then show ?thesis
    using inv_map_del [OF assms(2) [unfolded coll_inv_def] assms(3) [unfolded coll_docs_def]]
    by (simp add: coll_inv_def coll_docs_def assms(4))
qed

section \<open>Reads\<close>

lemma coll_get_docs:
  assumes "rocks_ok (env_db E) V" "coll_inv E V c" "key_ok k"
  shows "coll_get E k c =
     (case coll_docs E V c k of Some d \<Rightarrow> Inr d | None \<Rightarrow> Inl (DocumentNotFound k))"
    "coll_docs E V c k = Some d \<Longrightarrow> doc_key_of d = k"
proof -
  have "docs_ok (env_doc E) (look V c)" using assms(2) by (simp add: coll_inv_def inv_map_def)
  then have ok: "\<exists>d. deserialize_doc (env_doc E) b = Inr d \<and> doc_key_of d = k"
    if "look V c (doc_key k) = Some b" for b
    using that assms(3) by (simp add: docs_ok_def)
  show "coll_get E k c =
     (case coll_docs E V c k of Some d \<Rightarrow> Inr d | None \<Rightarrow> Inl (DocumentNotFound k))"
    using ok assms(3)
    by (cases "look V c (doc_key k)")
      (auto simp: coll_get_def coll_docs_def docs_map_def rocks_okD(2) [OF assms(1)])
  show "coll_docs E V c k = Some d \<Longrightarrow> doc_key_of d = k"
    using ok assms(3)
    by (cases "look V c (doc_key k)") (auto simp: coll_docs_def docs_map_def)
qed

section \<open>Successful runs\<close>

lemma check_edge_keeps: "check_edge v c = (r, c') \<Longrightarrow> c' = c"
  by (auto simp: check_edge_def split: if_splits)

lemma check_schema_keeps: "check_schema E v c = (r, c') \<Longrightarrow> keeps_db c c'"
  using schema_validator_keeps [of c E]
  by (auto simp: check_schema_def bind_def split: prod.splits sum.splits)

text \<open>The result of a write: the new contents and the rest of the state.\<close>

definition wrote ::
    "('db, 'v, 's, 'f) env \<Rightarrow> ('db \<Rightarrow> (bytes, bytes) smap) \<Rightarrow> ('db, 'v, 's, 'f) collection \<Rightarrow>
     write_op list \<Rightarrow> ('db, 'v, 's, 'f) collection \<Rightarrow> bool" where
  "wrote E V c ops c' \<longleftrightarrow>
     look V c' = apply_ops ops (look V c) \<and> coll_name c' = coll_name c \<and>
     collection_type c' = collection_type c"

lemma wroteI:
  assumes "rocks_ok (env_db E) V" "keeps_db c c1" "db_write E msg ops c1 = (Inr u, c2)" "keeps_db c2 c3"
  shows "wrote E V c ops c3" "doc_count c3 = doc_count c" "changes c3 = changes c"
  using assms rocks_okD(3) [OF assms(1)]
  by (auto simp: wrote_def keeps_db_def db_write_Inr_iff)

lemma keeps_reads:
  assumes "keeps_db c c1"
  shows "check_unique_constraints E k v c1 = check_unique_constraints E k v c"
    "cfgs_of E c1 = cfgs_of E c" "coll_get E k c1 = coll_get E k c"
proof -
  have db: "coll_db c1 = coll_db c" using assms by (simp add: keeps_db_def)
  show "check_unique_constraints E k v c1 = check_unique_constraints E k v c"
    unfolding check_unique_constraints_def check_unique_def get_all_indexes_def read_meta_def db ..
  show "cfgs_of E c1 = cfgs_of E c"
    unfolding cfgs_of_def get_all_indexes_def get_all_geo_indexes_def get_all_fulltext_indexes_def
      get_all_ttl_indexes_def read_meta_def db ..
  show "coll_get E k c1 = coll_get E k c" unfolding coll_get_def db ..
qed

lemma insert_ok:
  assumes "rocks_ok (env_db E) V" "coll_insert E fr data c = (Inr doc, c')"
  obtains key data' b where "take_key (fr_uuid fr) data = Inr (key, data')"
    "doc = doc_with_key (fr_rev fr) (fr_now fr) (coll_name c) key data'"
    "check_unique_constraints E key (to_value (env_doc E) doc) c = Inr ()"
    "serialize_doc (env_doc E) doc = Inr b"
    "wrote E V c (Put (doc_key key) b # ins_batch E (cfgs_of E c) key (to_value (env_doc E) doc)) c'"
    "doc_count c' = doc_count c + 1"
    "changes c' = changes c @ [insert_event key (to_value (env_doc E) doc)]"
proof -
  from assms(2) obtain c1 c2 key data' b c3 where
    e: "check_edge data c = (Inr (), c1)" and s: "check_schema E data c1 = (Inr (), c2)" and
    k: "take_key (fr_uuid fr) data = Inr (key, data')" and
    doc: "doc = doc_with_key (fr_rev fr) (fr_now fr) (coll_name c2) key data'" and
    u: "check_unique_constraints E key (to_value (env_doc E) doc) c2 = Inr ()" and
    b: "serialize_doc (env_doc E) doc = Inr b" and
    w: "db_write E ''Failed to insert document: ''
      (Put (doc_key key) b # ins_batch E (cfgs_of E c2) key (to_value (env_doc E) doc)) c2 = (Inr (), c3)" and
    c': "c' = send_change (insert_event key (to_value (env_doc E) doc))
      (increment_count (update_vector_indexes_on_upsert E key (to_value (env_doc E) doc) c3))"
    unfolding coll_insert_def insert_internal_def insert_event_def
    by (auto simp: bind_Inr_iff Let_def batch_ops)
  have keep: "keeps_db c c2" using check_edge_keeps [OF e] check_schema_keeps [OF s] by simp
  have name: "coll_name c2 = coll_name c" using keep by (simp add: keeps_db_def)
  let ?c4 = "update_vector_indexes_on_upsert E key (to_value (env_doc E) doc) c3"
  note r = wroteI [OF assms(1) keep w vector_upsert_keeps [of c3 E key "to_value (env_doc E) doc"]]
  have "wrote E V c (Put (doc_key key) b # ins_batch E (cfgs_of E c) key (to_value (env_doc E) doc)) c'"
    using r(1) unfolding c' keeps_reads [OF keep]
    by (simp add: wrote_def send_change_def increment_count_def)
  with that [OF k] doc u b r(2,3) show ?thesis
    unfolding c' name keeps_reads [OF keep] by (simp add: send_change_def increment_count_def)
qed

lemma update_ok:
  assumes "rocks_ok (env_db E) V" "keeps_db c c1" "write_update E key old doc c1 = (Inr doc', c')"
  obtains b where "doc' = doc" "serialize_doc (env_doc E) doc = Inr b"
    "wrote E V c (Put (doc_key key) b # upd_batch E (cfgs_of E c) key old (to_value (env_doc E) doc)) c'"
    "doc_count c' = doc_count c"
    "changes c' = changes c @ [update_event key old (to_value (env_doc E) doc)]"
proof -
  let ?v = "to_value (env_doc E) doc"
  from assms(3) obtain b c2 where d: "doc' = doc" and b: "serialize_doc (env_doc E) doc = Inr b" and
    w: "db_write E ''Failed to update document: ''
      (Put (doc_key key) b # upd_batch E (cfgs_of E c1) key old ?v) c1 = (Inr (), c2)" and
    c': "c' = send_change (update_event key old ?v) (update_vector_indexes_on_upsert E key ?v
        (update_vector_indexes_on_delete E key c2))"
    unfolding write_update_def update_event_def by (auto simp: bind_Inr_iff Let_def batch_ops)
  have "keeps_db c2 (update_vector_indexes_on_upsert E key ?v (update_vector_indexes_on_delete E key c2))"
    using vector_delete_keeps vector_upsert_keeps by (rule keeps_db_trans)
  note r = wroteI [OF assms(1,2) w this]
  then show ?thesis
    using that [OF d b] unfolding c' keeps_reads [OF assms(2)] by (simp add: wrote_def send_change_def)
qed

lemma delete_ok:
  assumes "rocks_ok (env_db E) V" "coll_delete E key c = (Inr u, c')"
  obtains doc c1 where "coll_get E key c = Inr doc"
    "wrote E V c (Del (doc_key key) # del_batch E (cfgs_of E c) key (to_value (env_doc E) doc)) c1"
    "same_core V c1 c'" "doc_count c' = doc_count c - 1"
    "changes c' = changes c @ [delete_event key (to_value (env_doc E) doc)]"
proof -
  from assms(2) obtain doc c1 c2 where g: "coll_get E key c = Inr doc" and
    w: "db_write E ''Failed to delete document: ''
      (Del (doc_key key) # del_batch E (cfgs_of E c) key (to_value (env_doc E) doc)) c = (Inr (), c1)" and
    bl: "(if collection_type c1 = ''blob'' then delete_blob_data E key c1 else (Inr (), c1)) = (Inr (), c2)" and
    c': "c' = send_change (delete_event key (to_value (env_doc E) doc))
        (decrement_count (update_vector_indexes_on_delete E key c2))"
    unfolding coll_delete_def by (auto simp: bind_Inr_iff Let_def batch_ops)
  have 1: "wrote E V c (Del (doc_key key) # del_batch E (cfgs_of E c) key (to_value (env_doc E) doc)) c1"
      "doc_count c1 = doc_count c" "changes c1 = changes c"
    using wroteI [OF assms(1) keeps_db_refl w keeps_db_refl] by simp_all
  have 2: "same_core V c1 c2 \<and> doc_count c2 = doc_count c1 \<and> changes c2 = changes c1"
  proof (cases "collection_type c1 = ''blob''")
    case True
    with bl have "delete_blob_data E key c1 = (Inr (), c2)" by simp
    with assms(1) show ?thesis by (rule delete_blob_core)
  qed (use bl in simp)
  have 3: "same_core V c2 c' \<and> doc_count c' = doc_count c2 - 1 \<and>
      changes c' = changes c2 @ [delete_event key (to_value (env_doc E) doc)]"
    unfolding c' by (simp add: same_core_def send_change_def decrement_count_def
        update_vector_indexes_on_delete_def)
  show ?thesis
    using that [OF g 1(1)] same_core_trans [of V c1 c2 c'] 1 2 3 by simp
qed

section \<open>Failed runs\<close>

lemma insert_failed: "coll_insert E fr data c = (Inl e, c') \<Longrightarrow> keeps_db c c'"
  unfolding coll_insert_def insert_internal_def
  by (auto simp: bind_Inl_iff Let_def batch_ops split: prod.splits dest!: db_write_Inl check_edge_keeps
      check_schema_keeps)

lemma write_update_failed: "write_update E key old doc c = (Inl e, c') \<Longrightarrow> c' = c"
  unfolding write_update_def by (auto simp: bind_Inl_iff Let_def batch_ops dest!: db_write_Inl)

lemma update_failed:
  "coll_update E fr key data c = (Inl e, c') \<Longrightarrow> keeps_db c c'"
  "update_with_rev E fr key rv data c = (Inl e, c') \<Longrightarrow> keeps_db c c'"
  unfolding coll_update_def update_with_rev_def
  by (auto simp: bind_Inl_iff Let_def split: if_splits dest!: write_update_failed check_edge_keeps
      check_schema_keeps)

lemma delete_failed:
  "collection_type c \<noteq> ''blob'' \<Longrightarrow> coll_delete E key c = (Inl e, c') \<Longrightarrow> c' = c"
  unfolding coll_delete_def
  by (auto simp: bind_Inl_iff Let_def batch_ops db_write_Inr_iff split: if_splits dest!: db_write_Inl)

end
