(* ===== verification/CollectionSpec.thy ===== *)
theory CollectionSpec
  imports CrudCorrect
begin

text \<open>
  What the operations of a collection promise: each of them refines an update of a map from keys to
  documents and keeps the invariant, so that in every state reached by them the indexes hold exactly
  the entries of the stored documents and the cached count is the number of documents.
\<close>

section \<open>Instance of the foreign code\<close>

text \<open>For the witnesses: a store in memory, the codecs of the earlier instances, and index metadata
  that is just a name, which stands for a unique index of that name on the field of that name.\<close>

definition name_index :: "string \<Rightarrow> index" where
  "name_index n = \<lparr> ix_name = n, ix_fields = [n], ix_type = Hash, ix_unique = True \<rparr>"

definition no_codec :: "'a meta_codec" where
  "no_codec = \<lparr> to_vec = (\<lambda>_. Inl ''unsupported''), from_slice = (\<lambda>_. None) \<rparr>"

definition demo_env :: "((bytes \<times> bytes) list, unit, unit, string set) env" where
  "demo_env = \<lparr> env_db = mem_rocks, env_json = demo_serde, env_doc = demo_doc_codec,
     env_uni = \<lparr> uni_lowercase = (\<lambda>s. s), uni_alphanumeric = (\<lambda>_. False) \<rparr>, env_lossy = (\<lambda>b. b),
     idx_codec = \<lparr> to_vec = (\<lambda>i. Inr (ix_name i)), from_slice = (\<lambda>b. Some (name_index b)) \<rparr>,
     geo_codec = no_codec, ft_codec = no_codec, ttl_codec = no_codec, vec_codec = no_codec,
     schema_codec = no_codec, sea_hash = (\<lambda>_. 0), validator_for = (\<lambda>_. Inr ()),
     schema_errors = (\<lambda>_ _. []), parse_rfc3339 = (\<lambda>_. None), vec_insert = (\<lambda>v _ _. v),
     vec_remove = (\<lambda>v _. v), vec_serialize = (\<lambda>_. Inr []), vec_deserialize = (\<lambda>_. Inr ()),
     bloom_empty = {}, bloom_add = (\<lambda>f x. insert x f), bloom_has = (\<lambda>f x. x \<in> f),
     bloom_codec = no_codec, cuckoo_empty = {}, cuckoo_add = (\<lambda>f x. insert x f),
     cuckoo_del = (\<lambda>f x. f - {x}), cuckoo_has = (\<lambda>f x. x \<in> f), debug_strings = join '', '',
     debug_values = (\<lambda>_. []) \<rparr>"

lemma demo_env_simps [simp]:
  "env_db demo_env = mem_rocks" "env_doc demo_env = demo_doc_codec" "env_json demo_env = demo_serde"
  "from_slice (idx_codec demo_env) b = Some (name_index b)"
  "from_slice (geo_codec demo_env) b = None" "from_slice (ft_codec demo_env) b = None"
  "from_slice (ttl_codec demo_env) b = None" "from_slice (vec_codec demo_env) b = None"
  "from_slice (schema_codec demo_env) b = None"
  by (simp_all add: demo_env_def no_codec_def)

text \<open>A new collection with a unique index on the field \<^verbatim>\<open>age\<close>.\<close>

definition demo_coll :: "((bytes \<times> bytes) list, unit, unit, string set) collection" where
  "demo_coll = coll_new demo_env ''db:people'' [(''idx_meta:age'', ''age'')]"

lemma demo_coll_simps [simp]:
  "coll_db demo_coll = [(''idx_meta:age'', ''age'')]" "coll_name demo_coll = ''db:people''"
  by (simp_all add: demo_coll_def coll_new_def)

lemma demo_view [simp]: "mem_view [p] = [p]"
  by simp

lemma demo_meta:
  "get_all_indexes demo_env demo_coll = [name_index ''age'']"
  "get_all_geo_indexes demo_env demo_coll = []" "get_all_fulltext_indexes demo_env demo_coll = []"
  "get_all_ttl_indexes demo_env demo_coll = []"
  by (simp_all add: get_all_indexes_def get_all_geo_indexes_def get_all_fulltext_indexes_def
      get_all_ttl_indexes_def read_meta_def scan_eq [OF mem_rocks_ok] prefix_defs List.map_filter_def)

text \<open>A store without documents and index entries satisfies the invariant.\<close>

lemma empty_inv:
  assumes "cfgs_ok (cfgs_of E c)" "\<And>k. look V c (doc_key k) = None" "\<And>b. fam_key b \<Longrightarrow> look V c b = None"
  shows "coll_inv E V c" "coll_docs E V c = Map.empty"
proof -
  have "docs_map (env_doc E) (look V c) = Map.empty"
    using assms(2) by (auto simp: docs_map_def fun_eq_iff)
  then show "coll_docs E V c = Map.empty" "coll_inv E V c"
    using assms
    by (simp_all add: coll_docs_def coll_inv_def inv_map_def docs_ok_def indexes_agree_def vals_map_def
        family_agrees_def fam_key_def)
qed

lemma demo_coll_inv:
  "coll_inv demo_env mem_view demo_coll" "coll_docs demo_env mem_view demo_coll = Map.empty"
proof -
  have 1: "cfgs_ok (cfgs_of demo_env demo_coll)"
    by (simp add: cfgs_of_def cfgs_ok_def demo_meta regular_ok_def geo_ok_def fulltext_ok_def ttl_ok_def
        name_index_def name_ok_def)
  have 2: "look mem_view demo_coll (doc_key k) = None" for k
    by (simp add: doc_key_def prefix_defs)
  have 3: "look mem_view demo_coll b = None" if "fam_key b" for b
    using that by (auto simp: fam_key_def idx_ns_def geo_ns_def ft_ns_def ttl_ns_def prefix_defs)
  show "coll_inv demo_env mem_view demo_coll" "coll_docs demo_env mem_view demo_coll = Map.empty"
    using empty_inv [where V = mem_view, OF 1] 2 3 by blast+
qed

section \<open>Refinement\<close>

lemma serialize_deserialize:
  "doc_codec_ok D \<Longrightarrow> serialize_doc D d = Inr b \<Longrightarrow> deserialize_doc D b = Inr d"
  using serialize_ok [of D d] by auto

lemma keeps_unchanged:
  assumes "rocks_ok (env_db E) V" "keeps_db c c'"
  shows "coll_inv E V c' = coll_inv E V c" "coll_docs E V c' = coll_docs E V c"
    "doc_count c' = doc_count c" "changes c' = changes c"
  using same_core_inv [OF assms(1) keeps_db_core [OF assms(2)]] assms(2) by (simp_all add: keeps_db_def)

text \<open>The key that an insert uses is new and is not in the name space of expiry entries.\<close>

definition insertable ::
    "('db, 'v, 's, 'f) env \<Rightarrow> ('db \<Rightarrow> (bytes, bytes) smap) \<Rightarrow> ('db, 'v, 's, 'f) collection \<Rightarrow> fresh \<Rightarrow>
     json \<Rightarrow> bool" where
  "insertable E V c fr data =
     (case take_key (fr_uuid fr) data of
        Inr (key, _) \<Rightarrow> key_ok key \<and> coll_docs E V c key = None
      | Inl _ \<Rightarrow> True)"

lemma insert_steps:
  assumes "rocks_ok (env_db E) V" "doc_codec_ok (env_doc E)" "coll_inv E V c"
    "coll_insert E fr data c = (Inr doc, c')" "insertable E V c fr data"
  shows "key_ok (doc_key_of doc)" "coll_docs E V c (doc_key_of doc) = None" "coll_inv E V c'"
    "coll_docs E V c' = (coll_docs E V c)(doc_key_of doc \<mapsto> doc)" "doc_count c' = doc_count c + 1"
    "changes c' = changes c @ [insert_event (doc_key_of doc) (to_value (env_doc E) doc)]"
proof -
  from insert_ok [OF assms(1,4)] obtain key data' b where
    k: "take_key (fr_uuid fr) data = Inr (key, data')" and
    doc: "doc = doc_with_key (fr_rev fr) (fr_now fr) (coll_name c) key data'" and
    b: "serialize_doc (env_doc E) doc = Inr b" and
    w: "wrote E V c (Put (doc_key key) b # ins_batch E (cfgs_of E c) key (to_value (env_doc E) doc)) c'" and
    r: "doc_count c' = doc_count c + 1" "changes c' = changes c @ [insert_event key (to_value (env_doc E) doc)]"
    by blast
  have key: "doc_key_of doc = key" by (simp add: doc doc_with_key_def)
  with k assms(5) show new: "key_ok (doc_key_of doc)" "coll_docs E V c (doc_key_of doc) = None"
    by (simp_all add: insertable_def)
  show "doc_count c' = doc_count c + 1"
    "changes c' = changes c @ [insert_event (doc_key_of doc) (to_value (env_doc E) doc)]"
    using r key by simp_all
  show "coll_inv E V c'" "coll_docs E V c' = (coll_docs E V c)(doc_key_of doc \<mapsto> doc)"
    using coll_inv_ins [OF assms(1,3) new serialize_deserialize [OF assms(2) b]] w
    by (simp_all add: key wrote_def)
qed

text \<open>
  C1: inserting a document under a new key refines the update of a map. On success the invariant
  holds again (the stored documents are readable under their keys and every regular, geo, full-text
  and TTL index holds exactly the entries of the documents), the document and nothing else is added,
  reading the key returns it, the count grows by one and one change event is sent. On an error
  nothing changes.
\<close>

theorem insert_refines:
  assumes "rocks_ok (env_db E) V" "doc_codec_ok (env_doc E)" "coll_inv E V c"
    "insertable E V c fr data" "coll_insert E fr data c = (r, c')"
  shows "coll_inv E V c' \<and>
    (case r of
       Inl e \<Rightarrow> coll_docs E V c' = coll_docs E V c \<and> doc_count c' = doc_count c \<and> changes c' = changes c
     | Inr doc \<Rightarrow>
         coll_docs E V c' = (coll_docs E V c)(doc_key_of doc \<mapsto> doc) \<and>
         coll_get E (doc_key_of doc) c' = Inr doc \<and> doc_count c' = doc_count c + 1 \<and>
         changes c' = changes c @ [insert_event (doc_key_of doc) (to_value (env_doc E) doc)])"
proof (cases r)
  case (Inl e)
  with assms(3,5) keeps_unchanged [OF assms(1) insert_failed] show ?thesis by simp
next
  case (Inr doc)
  note s = insert_steps [OF assms(1-3) assms(5) [unfolded Inr] assms(4)]
  show ?thesis using coll_get_docs(1) [OF assms(1) s(3,1)] s Inr by simp
qed

lemma insert_accepted:
  assumes "doc_codec_ok (env_doc E)" "collection_type c \<noteq> ''edge''" "get_json_schema E c = None"
    "take_key (fr_uuid fr) data = Inr (key, data')"
    "doc = doc_with_key (fr_rev fr) (fr_now fr) (coll_name c) key data'"
    "check_unique_constraints E key (to_value (env_doc E) doc) c = Inr ()"
    "\<And>ops. \<exists>d. write_batch (env_db E) (coll_db c) ops = Inr d"
  shows "\<exists>c'. coll_insert E fr data c = (Inr doc, c')"
proof -
  obtain b where b: "serialize_doc (env_doc E) doc = Inr b"
    using serialize_ok [OF assms(1)] by blast
  obtain d where d: "write_batch (env_db E) (coll_db c)
      (Put (doc_key key) b # ins_batch E (cfgs_of E c) key (to_value (env_doc E) doc)) = Inr d"
    using assms(7) by blast
  have s: "check_schema E data c = (Inr (), c)"
    using assms(3) by (simp add: check_schema_def get_cached_schema_validator_def bind_def)
  show ?thesis
    using assms(2,4,6) b d s
    by (simp add: coll_insert_def insert_internal_def check_edge_def bind_def db_write_def batch_ops
        Let_def flip: assms(5))
qed

lemma demo_unique: "check_unique_constraints demo_env k v demo_coll = Inr ()"
  by (simp add: check_unique_constraints_def check_unique_def demo_meta Let_def mem_rocks_def
      unique_prefix_def prefix_defs)

definition demo_fresh :: "nat \<Rightarrow> fresh" where
  "demo_fresh n = \<lparr> fr_uuid = ''u'' @ show_nat n, fr_rev = ''r'' @ show_nat n, fr_now = int n \<rparr>"

lemma demo_plain [simp]: "collection_type demo_coll = ''document''" "get_json_schema demo_env demo_coll = None"
  "\<exists>d. write_batch mem_rocks db ops = Inr d"
  by (simp_all add: demo_coll_def coll_new_def mem_rocks_def get_json_schema_def get_meta_def prefix_defs
      split: option.splits)

lemma demo_insert:
  assumes "take_key (fr_uuid fr) data = Inr (key, data')"
  shows "\<exists>c'. coll_insert demo_env fr data demo_coll =
    (Inr (doc_with_key (fr_rev fr) (fr_now fr) ''db:people'' key data'), c')"
  using insert_accepted [of demo_env demo_coll fr data key data'] assms demo_doc_codec_ok demo_unique by simp

definition ann :: json where
  "ann = JObject [(''_key'', JString ''ann''), (''age'', JNumber (PosInt 30))]"

lemma demo_insert_ann:
  "\<exists>c'. coll_insert demo_env (demo_fresh 1) ann demo_coll =
    (Inr (doc_with_key ''r1'' 1 ''db:people'' ''ann'' (JObject [(''age'', JNumber (PosInt 30))])), c')"
proof -
  have "take_key u ann = Inr (''ann'', JObject [(''age'', JNumber (PosInt 30))])" for u
    by (simp add: take_key_def ann_def smap_del_def)
  moreover have "show_nat 1 = ''1''" by (simp add: show_nat.simps digit_char_def char_of_def bit_0)
  ultimately show ?thesis using demo_insert [of "demo_fresh 1" ann] by (simp add: demo_fresh_def)
qed

lemma demo_insertable: "insertable demo_env mem_view demo_coll fr ann"
  by (simp add: insertable_def take_key_def ann_def demo_coll_inv key_ok_def)

theorem insert_refines_witness:
  "\<exists>c'. let doc = doc_with_key ''r1'' 1 ''db:people'' ''ann'' (JObject [(''age'', JNumber (PosInt 30))])
    in coll_insert demo_env (demo_fresh 1) ann demo_coll = (Inr doc, c') \<and>
       coll_inv demo_env mem_view c' \<and> coll_docs demo_env mem_view c' = [''ann'' \<mapsto> doc] \<and>
       coll_get demo_env ''ann'' c' = Inr doc"
proof -
  obtain c' where c': "coll_insert demo_env (demo_fresh 1) ann demo_coll =
      (Inr (doc_with_key ''r1'' 1 ''db:people'' ''ann'' (JObject [(''age'', JNumber (PosInt 30))])), c')"
    using demo_insert_ann by blast
  from insert_refines [OF _ _ demo_coll_inv(1) demo_insertable this] show ?thesis
    using c' by (auto simp: mem_rocks_ok demo_doc_codec_ok demo_coll_inv doc_with_key_def Let_def)
qed

lemma write_update_steps:
  assumes "rocks_ok (env_db E) V" "doc_codec_ok (env_doc E)" "coll_inv E V c" "keeps_db c c1"
    "coll_docs E V c key = Some old" "doc = doc_update rv now data old"
    "write_update E key (to_value (env_doc E) old) doc c1 = (Inr doc', c')"
  shows "doc' = doc" "coll_inv E V c'" "coll_docs E V c' = (coll_docs E V c)(key \<mapsto> doc)"
    "doc_count c' = doc_count c" "collection_type c' = collection_type c"
    "changes c' = changes c @ [update_event key (to_value (env_doc E) old) (to_value (env_doc E) doc)]"
proof -
  from update_ok [OF assms(1,4,7)] obtain b where
    d: "doc' = doc" and b: "serialize_doc (env_doc E) doc = Inr b" and
    w: "wrote E V c (Put (doc_key key) b #
      upd_batch E (cfgs_of E c) key (to_value (env_doc E) old) (to_value (env_doc E) doc)) c'" and
    r: "doc_count c' = doc_count c"
      "changes c' = changes c @ [update_event key (to_value (env_doc E) old) (to_value (env_doc E) doc)]"
    by blast
  have "key_ok key" using assms(5) by (auto simp: coll_docs_def docs_map_def split: if_splits)
  then have "doc_key_of doc = key"
    using coll_get_docs(2) [OF assms(1,3)] assms(5,6) by (simp add: doc_update_def)
  then show "coll_inv E V c'" "coll_docs E V c' = (coll_docs E V c)(key \<mapsto> doc)"
    using coll_inv_upd [OF assms(1,3,5) serialize_deserialize [OF assms(2) b]] w
    by (simp_all add: wrote_def)
  show "doc' = doc" "doc_count c' = doc_count c" "collection_type c' = collection_type c"
    "changes c' = changes c @ [update_event key (to_value (env_doc E) old) (to_value (env_doc E) doc)]"
    using d r w by (simp_all add: wrote_def)
qed

text \<open>A read that succeeds returns the abstract document.\<close>

lemma coll_get_Inr:
  assumes "rocks_ok (env_db E) V" "coll_inv E V c" "key_ok k"
  shows "coll_get E k c = Inr d \<longleftrightarrow> coll_docs E V c k = Some d"
  using coll_get_docs(1) [OF assms] by (auto split: option.splits)

definition updated ::
    "('db, 'v, 's, 'f) env \<Rightarrow> ('db \<Rightarrow> (bytes, bytes) smap) \<Rightarrow> ('db, 'v, 's, 'f) collection \<Rightarrow> string \<Rightarrow>
     document \<Rightarrow> document \<Rightarrow> ('db, 'v, 's, 'f) collection \<Rightarrow> bool" where
  "updated E V c key old doc c' \<longleftrightarrow>
     coll_docs E V c key = Some old \<and> coll_docs E V c' = (coll_docs E V c)(key \<mapsto> doc) \<and>
     doc_count c' = doc_count c \<and>
     changes c' = changes c @ [update_event key (to_value (env_doc E) old) (to_value (env_doc E) doc)]"

lemma update_steps:
  assumes "rocks_ok (env_db E) V" "doc_codec_ok (env_doc E)" "coll_inv E V c" "key_ok key"
    "coll_update E fr key data c = (Inr doc, c')"
  obtains old where "doc = doc_update (fr_rev fr) (fr_now fr) data old" "coll_inv E V c'"
    "updated E V c key old doc c'" "collection_type c' = collection_type c"
proof -
  from assms(5) obtain old c1 c2 where o: "coll_get E key c = Inr old" and
    1: "check_edge (to_value (env_doc E) (doc_update (fr_rev fr) (fr_now fr) data old)) c = (Inr (), c1)" and
    2: "check_schema E (to_value (env_doc E) (doc_update (fr_rev fr) (fr_now fr) data old)) c1 = (Inr (), c2)" and
    w: "write_update E key (to_value (env_doc E) old) (doc_update (fr_rev fr) (fr_now fr) data old) c2 =
      (Inr doc, c')"
    by (auto simp: coll_update_def bind_Inr_iff Let_def split: if_splits)
  have k: "keeps_db c c2" using check_edge_keeps [OF 1] check_schema_keeps [OF 2] by simp
  have old: "coll_docs E V c key = Some old" using o coll_get_Inr [OF assms(1,3,4)] by simp
  show ?thesis
    using that [of old] write_update_steps [OF assms(1-3) k old refl w] old by (simp add: updated_def)
qed

text \<open>
  C2: updating a document refines the update of a map. On success the document was there, the new one
  is the old one with the given fields merged in, it replaces the old one, the invariant holds again
  (the entries of the old value are gone from all indexes, those of the new value are there), the
  count is unchanged and one change event with both values is sent. On an error nothing changes.
\<close>

theorem update_refines:
  assumes "rocks_ok (env_db E) V" "doc_codec_ok (env_doc E)" "coll_inv E V c" "key_ok key"
    "coll_update E fr key data c = (r, c')"
  shows "coll_inv E V c' \<and>
    (case r of
       Inl e \<Rightarrow> coll_docs E V c' = coll_docs E V c \<and> doc_count c' = doc_count c \<and> changes c' = changes c
     | Inr doc \<Rightarrow> \<exists>old. doc = doc_update (fr_rev fr) (fr_now fr) data old \<and> updated E V c key old doc c')"
proof (cases r)
  case (Inl e)
  with assms(3,5) keeps_unchanged [OF assms(1) update_failed(1)] show ?thesis by simp
next
  case (Inr doc)
  from update_steps [OF assms(1-4) assms(5) [unfolded Inr]] show ?thesis using Inr by auto
qed


lemma delete_steps:
  assumes "rocks_ok (env_db E) V" "coll_inv E V c" "key_ok key" "coll_delete E key c = (Inr u, c')"
  obtains old where "coll_docs E V c key = Some old" "coll_inv E V c'"
    "coll_docs E V c' = (coll_docs E V c)(key := None)" "doc_count c' = doc_count c - 1"
    "changes c' = changes c @ [delete_event key (to_value (env_doc E) old)]"
    "collection_type c' = collection_type c"
proof -
  from delete_ok [OF assms(1,4)] obtain old c1 where o: "coll_get E key c = Inr old" and
    w: "wrote E V c (Del (doc_key key) # del_batch E (cfgs_of E c) key (to_value (env_doc E) old)) c1" and
    s: "same_core V c1 c'" and r: "doc_count c' = doc_count c - 1"
      "changes c' = changes c @ [delete_event key (to_value (env_doc E) old)]" by blast
  have old: "coll_docs E V c key = Some old" using o coll_get_Inr [OF assms(1-3)] by simp
  have "coll_inv E V c1 \<and> coll_docs E V c1 = (coll_docs E V c)(key := None)"
    using coll_inv_del [OF assms(1,2) old] w by (simp add: wrote_def)
  then show ?thesis
    using that [OF old] same_core_inv [OF assms(1) s] r w s by (simp add: wrote_def same_core_def)
qed

text \<open>
  C3: deleting a document refines the removal of a key: on success the document was there and is gone
  with all its index entries, the other documents and their entries stay, the count shrinks by one and
  one change event with the old value is sent. If the document is missing, or the write fails,
  nothing changes. (In a blob collection the chunks are deleted in a second write, so there the
  document can be gone although an error is returned.)
\<close>

theorem delete_refines:
  assumes "rocks_ok (env_db E) V" "coll_inv E V c" "key_ok key" "coll_delete E key c = (r, c')"
  shows "case r of
      Inl e \<Rightarrow> collection_type c = ''blob'' \<or> c' = c
    | Inr _ \<Rightarrow> coll_inv E V c' \<and> coll_docs E V c' = (coll_docs E V c)(key := None) \<and>
        doc_count c' = doc_count c - 1 \<and>
        (\<exists>old. coll_docs E V c key = Some old \<and>
               changes c' = changes c @ [delete_event key (to_value (env_doc E) old)])"
proof (cases r)
  case (Inl e)
  with assms(4) delete_failed [of c E key e c'] show ?thesis by auto
next
  case (Inr u)
  from delete_steps [OF assms(1-3) assms(4) [unfolded Inr]] show ?thesis using Inr by auto
qed

section \<open>Witnesses\<close>

lemma write_update_accepted:
  assumes "doc_codec_ok (env_doc E)" "\<And>ops. \<exists>d. write_batch (env_db E) (coll_db c) ops = Inr d"
  shows "\<exists>c'. write_update E key old doc c = (Inr doc, c')"
proof -
  obtain b where b: "serialize_doc (env_doc E) doc = Inr b" using serialize_ok [OF assms(1)] by blast
  obtain d where "write_batch (env_db E) (coll_db c)
      (Put (doc_key key) b # upd_batch E (cfgs_of E c) key old (to_value (env_doc E) doc)) = Inr d"
    using assms(2) by blast
  with b show ?thesis by (simp add: write_update_def bind_def db_write_def batch_ops Let_def)
qed

lemma no_schema_check: "get_json_schema E c = None \<Longrightarrow> check_schema E data c = (Inr (), c)"
  by (simp add: check_schema_def get_cached_schema_validator_def bind_def)

lemma delete_accepted:
  assumes "coll_get E key c = Inr old" "\<And>ops. \<exists>d. write_batch (env_db E) (coll_db c) ops = Inr d"
    "collection_type c \<noteq> ''blob''"
  shows "\<exists>c'. coll_delete E key c = (Inr (), c')"
proof -
  obtain d where "write_batch (env_db E) (coll_db c)
      (Del (doc_key key) # del_batch E (cfgs_of E c) key (to_value (env_doc E) old)) = Inr d"
    using assms(2) by blast
  with assms(1,3) show ?thesis
    by (simp add: coll_delete_def bind_def db_write_def batch_ops Let_def)
qed

definition ann_doc :: document where
  "ann_doc = doc_with_key ''r1'' 1 ''db:people'' ''ann'' (JObject [(''age'', JNumber (PosInt 30))])"

definition demo_coll1 :: "((bytes \<times> bytes) list, unit, unit, string set) collection" where
  "demo_coll1 = snd (coll_insert demo_env (demo_fresh 1) ann demo_coll)"

lemma demo_coll1:
  "coll_inv demo_env mem_view demo_coll1" "coll_docs demo_env mem_view demo_coll1 = [''ann'' \<mapsto> ann_doc]"
  "collection_type demo_coll1 = ''document''" "key_ok ''ann''"
  "coll_get demo_env ''ann'' demo_coll1 = Inr ann_doc" "get_json_schema demo_env demo_coll1 = None"
proof -
  obtain c' where c': "coll_insert demo_env (demo_fresh 1) ann demo_coll = (Inr ann_doc, c')"
    using demo_insert_ann by (auto simp: ann_doc_def)
  have eq: "demo_coll1 = c'" by (simp only: demo_coll1_def c' snd_conv)
  note ok = mem_rocks_ok demo_doc_codec_ok demo_coll_inv(1)
  have "insertable demo_env mem_view demo_coll (demo_fresh 1) ann" by (rule demo_insertable)
  note st = insert_steps [where E = demo_env and V = mem_view, simplified, OF ok c' this]
  show k: "key_ok ''ann''" by (simp add: key_ok_def)
  show inv: "coll_inv demo_env mem_view demo_coll1" using st(3) eq by simp
  show docs: "coll_docs demo_env mem_view demo_coll1 = [''ann'' \<mapsto> ann_doc]"
    using st(4) eq by (simp add: demo_coll_inv ann_doc_def doc_with_key_def)
  show "coll_get demo_env ''ann'' demo_coll1 = Inr ann_doc"
    using coll_get_Inr [OF _ inv k] docs mem_rocks_ok by simp
  show "get_json_schema demo_env demo_coll1 = None"
    by (simp add: get_json_schema_def get_meta_def split: sum.splits option.splits)
  show "collection_type demo_coll1 = ''document''"
    using insert_ok [OF _ c', where V = mem_view] mem_rocks_ok eq by (auto simp: wrote_def)
qed

lemma demo_writes: "\<exists>d. write_batch (env_db demo_env) db ops = Inr d"
  by (simp add: mem_rocks_def)

definition older :: json where
  "older = JObject [(''age'', JNumber (PosInt 31))]"

theorem update_refines_witness:
  "\<exists>c'. let doc = doc_update ''r2'' 2 older ann_doc
    in coll_update demo_env (demo_fresh 2) ''ann'' older demo_coll1 = (Inr doc, c') \<and>
       coll_inv demo_env mem_view c' \<and> coll_docs demo_env mem_view c' = [''ann'' \<mapsto> doc]"
proof -
  have n: "show_nat 2 = ''2''" by (simp add: show_nat.simps digit_char_def char_of_def bit_0)
  let ?doc = "doc_update ''r2'' 2 older ann_doc"
  obtain c' where "write_update demo_env ''ann'' (to_value demo_doc_codec ann_doc) ?doc demo_coll1 = (Inr ?doc, c')"
    using write_update_accepted [where E = demo_env and c = demo_coll1 and doc = ?doc, OF _ demo_writes]
      demo_doc_codec_ok by auto
  then have c': "coll_update demo_env (demo_fresh 2) ''ann'' older demo_coll1 = (Inr ?doc, c')"
    using demo_coll1(3,5,6) n
    by (simp add: coll_update_def bind_def check_edge_def no_schema_check Let_def demo_fresh_def)
  from update_refines [OF _ _ demo_coll1(1,4) this] show ?thesis
    using c' demo_coll1(2) by (auto simp: mem_rocks_ok demo_doc_codec_ok updated_def Let_def)
qed


theorem delete_refines_witness:
  "\<exists>c'. coll_delete demo_env ''ann'' demo_coll1 = (Inr (), c') \<and> coll_inv demo_env mem_view c' \<and>
    coll_docs demo_env mem_view c' = Map.empty"
proof -
  obtain c' where c': "coll_delete demo_env ''ann'' demo_coll1 = (Inr (), c')"
    using delete_accepted [OF demo_coll1(5) demo_writes] demo_coll1(3) by auto
  from delete_refines [OF _ demo_coll1(1,4) this] show ?thesis
    using c' demo_coll1(2) by (auto simp: mem_rocks_ok)
qed

end
