(* ===== verification/Lookup.thy ===== *)
theory Lookup
  imports CollectionSpec
begin

text \<open>
  Reading through an index, \<^verbatim>\<open>src/storage/collection/indexes.rs\<close>: equality, range and sorted lookups
  and the Bloom and cuckoo filters in front of them. In a collection that satisfies the invariant an
  equality lookup returns exactly the documents with the value, in the order of their keys; a range
  lookup returns documents of the range, all of them unless it stops at its limit.
\<close>

section \<open>Filters\<close>

definition BLO_IDX_PREFIX :: string where "BLO_IDX_PREFIX = ''blo_idx:''"

definition get_or_create_bloom_filter ::
    "('db, 'v, 's, 'f) env \<Rightarrow> string \<Rightarrow> ('db, 'v, 's, 'f) collection \<Rightarrow>
     'f \<times> ('db, 'v, 's, 'f) collection" where
  "get_or_create_bloom_filter E index_name c =
     (case map_of (bloom_filters c) index_name of
        Some fl \<Rightarrow> (fl, c)
      | None \<Rightarrow>
          (let new_filter = (case get_meta E (bloom_codec E) (BLO_IDX_PREFIX @ index_name) c of
                               Some fl \<Rightarrow> fl | None \<Rightarrow> bloom_empty E)
           in (new_filter, c\<lparr> bloom_filters := smap_put index_name new_filter (bloom_filters c) \<rparr>)))"

definition save_bloom_filter ::
    "('db, 'v, 's, 'f) env \<Rightarrow> string \<Rightarrow> 'f \<Rightarrow> ('db, 'v, 's, 'f, unit) act" where
  "save_bloom_filter E index_name fl =
     (case to_vec (bloom_codec E) fl of
        Inl e \<Rightarrow> fail (JsonError e)
      | Inr b \<Rightarrow> db_write E '''' [Put (BLO_IDX_PREFIX @ index_name) b])"

definition bloom_insert ::
    "('db, 'v, 's, 'f) env \<Rightarrow> string \<Rightarrow> string \<Rightarrow> ('db, 'v, 's, 'f) collection \<Rightarrow>
     ('db, 'v, 's, 'f) collection" where
  "bloom_insert E index_name item c =
     (let (fl, c) = get_or_create_bloom_filter E index_name c
      in c\<lparr> bloom_filters := smap_put index_name (bloom_add E fl item) (bloom_filters c) \<rparr>)"

definition bloom_check ::
    "('db, 'v, 's, 'f) env \<Rightarrow> string \<Rightarrow> string \<Rightarrow> ('db, 'v, 's, 'f) collection \<Rightarrow>
     bool \<times> ('db, 'v, 's, 'f) collection" where
  "bloom_check E index_name item c =
     (let (fl, c) = get_or_create_bloom_filter E index_name c in (bloom_has E fl item, c))"

text \<open>Both branches of the source insert an empty fl, whether one is stored or not.\<close>

definition preload_cuckoo_filter ::
    "('db, 'v, 's, 'f) env \<Rightarrow> string \<Rightarrow> ('db, 'v, 's, 'f) collection \<Rightarrow> ('db, 'v, 's, 'f) collection" where
  "preload_cuckoo_filter E index_name c =
     (if map_of (cuckoo_filters c) index_name \<noteq> None then c
      else c\<lparr> cuckoo_filters := smap_put index_name (cuckoo_empty E) (cuckoo_filters c) \<rparr>)"

definition save_cuckoo_filter :: "string \<Rightarrow> 'f \<Rightarrow> ('db, 'v, 's, 'f, unit) act" where
  "save_cuckoo_filter index_name fl = ret ()"

definition cuckoo_modify ::
    "('db, 'v, 's, 'f) env \<Rightarrow> ('f \<Rightarrow> 'f) \<Rightarrow> string \<Rightarrow> ('db, 'v, 's, 'f) collection \<Rightarrow>
     ('db, 'v, 's, 'f) collection" where
  "cuckoo_modify E f index_name c =
     (let c = preload_cuckoo_filter E index_name c
      in case map_of (cuckoo_filters c) index_name of
           Some fl \<Rightarrow> c\<lparr> cuckoo_filters := smap_put index_name (f fl) (cuckoo_filters c) \<rparr>
         | None \<Rightarrow> c)"

definition cuckoo_insert ::
    "('db, 'v, 's, 'f) env \<Rightarrow> string \<Rightarrow> string \<Rightarrow> ('db, 'v, 's, 'f) collection \<Rightarrow>
     ('db, 'v, 's, 'f) collection" where
  "cuckoo_insert E index_name item = cuckoo_modify E (\<lambda>f. cuckoo_add E f item) index_name"

definition cuckoo_delete ::
    "('db, 'v, 's, 'f) env \<Rightarrow> string \<Rightarrow> string \<Rightarrow> ('db, 'v, 's, 'f) collection \<Rightarrow>
     ('db, 'v, 's, 'f) collection" where
  "cuckoo_delete E index_name item = cuckoo_modify E (\<lambda>f. cuckoo_del E f item) index_name"

definition cuckoo_check ::
    "('db, 'v, 's, 'f) env \<Rightarrow> string \<Rightarrow> string \<Rightarrow> ('db, 'v, 's, 'f) collection \<Rightarrow>
     bool \<times> ('db, 'v, 's, 'f) collection" where
  "cuckoo_check E index_name item c =
     (let c = preload_cuckoo_filter E index_name c
      in case map_of (cuckoo_filters c) index_name of
           Some fl \<Rightarrow> (cuckoo_has E fl item, c)
         | None \<Rightarrow> (True, c))"

section \<open>Lookups\<close>

definition get_index_for_field ::
    "('db, 'v, 's, 'f) env \<Rightarrow> string \<Rightarrow> ('db, 'v, 's, 'f) collection \<Rightarrow> index option" where
  "get_index_for_field E field c =
     List.find (\<lambda>i. ix_fields i \<noteq> [] \<and> hd (ix_fields i) = field)
       (List.map_filter (\<lambda>p. from_slice (idx_codec E) (snd p))
          (scan_while (env_db E) (coll_db c) IDX_META_PREFIX))"

text \<open>\<^verbatim>\<open>multi_get_cf\<close> of document keys, dropping what is missing or does not parse.\<close>

definition fetch_docs ::
    "('db, 'v, 's, 'f) env \<Rightarrow> ('db, 'v, 's, 'f) collection \<Rightarrow> bytes list \<Rightarrow> document list" where
  "fetch_docs E c keys =
     List.map_filter (\<lambda>k. case get_cf (env_db E) (coll_db c) k of
                            Inr (Some b) \<Rightarrow> res_ok (deserialize_doc (env_doc E) b)
                          | _ \<Rightarrow> None) keys"

text \<open>The loop over the items of an iterator: it ends at the first key of another index or once
  1000 keys are collected, and skips the entries of the bound itself when that is excluded.\<close>

fun range_loop ::
    "('db, 'v, 's, 'f) env \<Rightarrow> bytes \<Rightarrow> bytes \<Rightarrow> bool \<Rightarrow> bytes list \<Rightarrow> (string + bytes \<times> bytes) list \<Rightarrow>
     bytes list" where
  "range_loop E prefix_base seek_key inclusive doc_keys [] = doc_keys"
| "range_loop E prefix_base seek_key inclusive doc_keys (Inl _ # items) =
     (if length doc_keys \<ge> 1000 then doc_keys
      else range_loop E prefix_base seek_key inclusive doc_keys items)"
| "range_loop E prefix_base seek_key inclusive doc_keys (Inr (k, v) # items) =
     (if \<not> starts_with k prefix_base then doc_keys
      else if \<not> inclusive \<and> starts_with k seek_key then
        range_loop E prefix_base seek_key inclusive doc_keys items
      else
        (let doc_keys = doc_keys @ [doc_key (from_utf8_lossy E v)]
         in if length doc_keys \<ge> 1000 then doc_keys
            else range_loop E prefix_base seek_key inclusive doc_keys items))"

definition index_range_scan ::
    "('db, 'v, 's, 'f) env \<Rightarrow> string \<Rightarrow> json \<Rightarrow> bool \<Rightarrow> bool \<Rightarrow> ('db, 'v, 's, 'f) collection \<Rightarrow>
     document list option" where
  "index_range_scan E field value inclusive forward c =
     map_option (\<lambda>index.
       let value_str = hex_encode (encode_key (env_json E) value);
           prefix_base = IDX_PREFIX @ ix_name index @ '':'';
           seek_key = prefix_base @ value_str @ '':'';
           items = (if forward then iter_from (env_db E) (coll_db c) seek_key
                    else iter_back (env_db E) (coll_db c) seek_key);
           doc_keys = range_loop E prefix_base seek_key inclusive [] items
       in if doc_keys = [] then [] else fetch_docs E c doc_keys)
     (get_index_for_field E field c)"

definition index_lookup_gt ::
    "('db, 'v, 's, 'f) env \<Rightarrow> string \<Rightarrow> json \<Rightarrow> ('db, 'v, 's, 'f) collection \<Rightarrow> document list option" where
  "index_lookup_gt E field value = index_range_scan E field value False True"

definition index_lookup_gte ::
    "('db, 'v, 's, 'f) env \<Rightarrow> string \<Rightarrow> json \<Rightarrow> ('db, 'v, 's, 'f) collection \<Rightarrow> document list option" where
  "index_lookup_gte E field value = index_range_scan E field value True True"

definition index_lookup_lt ::
    "('db, 'v, 's, 'f) env \<Rightarrow> string \<Rightarrow> json \<Rightarrow> ('db, 'v, 's, 'f) collection \<Rightarrow> document list option" where
  "index_lookup_lt E field value = index_range_scan E field value False False"

definition index_lookup_lte ::
    "('db, 'v, 's, 'f) env \<Rightarrow> string \<Rightarrow> json \<Rightarrow> ('db, 'v, 's, 'f) collection \<Rightarrow> document list option" where
  "index_lookup_lte E field value = index_range_scan E field value True False"

text \<open>The keys under the entries of one value.\<close>

definition value_prefix :: "serde \<Rightarrow> index \<Rightarrow> json \<Rightarrow> bytes" where
  "value_prefix S index value = IDX_PREFIX @ ix_name index @ '':'' @ hex_encode (encode_key S value) @ '':''"

definition entry_doc_keys ::
    "('db, 'v, 's, 'f) env \<Rightarrow> index \<Rightarrow> json \<Rightarrow> ('db, 'v, 's, 'f) collection \<Rightarrow> bytes list" where
  "entry_doc_keys E index value c =
     map (\<lambda>p. doc_key (from_utf8_lossy E (snd p)))
       (scan_while (env_db E) (coll_db c) (value_prefix (env_json E) index value))"

definition index_lookup_eq ::
    "('db, 'v, 's, 'f) env \<Rightarrow> string \<Rightarrow> json \<Rightarrow> ('db, 'v, 's, 'f) collection \<Rightarrow>
     document list option \<times> ('db, 'v, 's, 'f) collection" where
  "index_lookup_eq E field value c =
     (case get_index_for_field E field c of
        None \<Rightarrow> (None, c)
      | Some index \<Rightarrow>
          (let item = value_to_string (env_json E) value;
               (maybe, c) = (case ix_type index of
                               Bloom \<Rightarrow> bloom_check E (ix_name index) item c
                             | Cuckoo \<Rightarrow> cuckoo_check E (ix_name index) item c
                             | _ \<Rightarrow> (True, c))
           in if \<not> maybe then (Some [], c)
              else (let doc_keys = entry_doc_keys E index value c
                    in (Some (if doc_keys = [] then [] else fetch_docs E c doc_keys), c))))"

definition index_lookup_eq_limit ::
    "('db, 'v, 's, 'f) env \<Rightarrow> string \<Rightarrow> json \<Rightarrow> nat \<Rightarrow> ('db, 'v, 's, 'f) collection \<Rightarrow>
     document list option" where
  "index_lookup_eq_limit E field value limit c =
     map_option (\<lambda>index.
       let doc_keys = take limit (entry_doc_keys E index value c)
       in if doc_keys = [] then [] else fetch_docs E c doc_keys)
     (get_index_for_field E field c)"

definition take_opt :: "nat option \<Rightarrow> 'a list \<Rightarrow> 'a list" where
  "take_opt limit xs = (case limit of Some n \<Rightarrow> take n xs | None \<Rightarrow> xs)"

text \<open>The items with a prefix, from the first or from the last one.\<close>

definition scan_sorted ::
    "('db, 'v, 's, 'f) env \<Rightarrow> bytes \<Rightarrow> bool \<Rightarrow> ('db, 'v, 's, 'f) collection \<Rightarrow> (bytes \<times> bytes) list" where
  "scan_sorted E pre ascending c =
     takeWhile (\<lambda>p. starts_with (fst p) pre)
       (oks (if ascending then iter_from (env_db E) (coll_db c) pre
             else iter_back (env_db E) (coll_db c) (pre @ [CHR 0xFF])))"

definition index_sorted ::
    "('db, 'v, 's, 'f) env \<Rightarrow> string \<Rightarrow> bool \<Rightarrow> nat option \<Rightarrow> ('db, 'v, 's, 'f) collection \<Rightarrow>
     document list option" where
  "index_sorted E field ascending limit c =
     (if field = ''_id'' \<or> field = ''_key'' then
        Some (take_opt limit (List.map_filter (\<lambda>p. res_ok (doc_from_json (env_doc E) (snd p)))
                                (scan_sorted E DOC_PREFIX ascending c)))
      else
        map_option (\<lambda>index.
          let doc_keys = take_opt limit (map (\<lambda>p. from_utf8_lossy E (snd p))
                           (scan_sorted E (IDX_PREFIX @ ix_name index @ '':'') ascending c));
              doc_map = map_of (rev (map (\<lambda>d. (doc_key_of d, d)) (get_many E doc_keys c)))
          in if doc_keys = [] then [] else List.map_filter doc_map doc_keys)
        (get_index_for_field E field c))"

section \<open>The entries of one index\<close>

lemma length_hex_encode [simp]: "length (hex_encode xs) = 2 * length xs"
  by (induction xs) (simp_all add: hex_encode_Cons hex_encode_def)

lemma hex_encode_inject [simp]: "hex_encode xs = hex_encode ys \<longleftrightarrow> xs = ys"
proof
  assume eq: "hex_encode xs = hex_encode ys"
  then have len: "length xs = length ys" using length_hex_encode by (metis mult_cancel1 zero_neq_numeral)
  have "\<not> us < vs" if "hex_encode us = hex_encode vs" "length us = length vs" for us vs :: bytes
    using that lt_at_less [OF hex_encode_lt_at [OF less_same_length]] by fastforce
  with eq len show "xs = ys" by (metis linorder_less_linear)
qed simp

text \<open>The index that answers lookups of a field, when it has no other field and no other index has
  its name.\<close>

definition single_index ::
    "('db, 'v, 's, 'f) env \<Rightarrow> ('db, 'v, 's, 'f) collection \<Rightarrow> string \<Rightarrow> index \<Rightarrow> bool" where
  "single_index E c field i \<longleftrightarrow>
     get_index_for_field E field c = Some i \<and> ix_fields i = [field] \<and>
     distinct (map ix_name (get_all_indexes E c))"

definition field_of :: "('db, 'v, 's, 'f) env \<Rightarrow> string \<Rightarrow> document \<Rightarrow> json" where
  "field_of E field d = extract_field_value (to_value (env_doc E) d) field"

definition index_base :: "index \<Rightarrow> bytes" where
  "index_base i = IDX_PREFIX @ ix_name i @ '':''"

lemma value_prefix_base: "value_prefix S i v = index_base i @ hex_encode (encode_key S v) @ '':''"
  by (simp add: value_prefix_def index_base_def)

lemma get_index_for_field_eq:
  assumes "rocks_ok (env_db E) V"
  shows "get_index_for_field E field c =
    List.find (\<lambda>i. ix_fields i \<noteq> [] \<and> hd (ix_fields i) = field) (get_all_indexes E c)"
  by (simp add: get_index_for_field_def get_all_indexes_def read_meta_def scan_eq [OF assms])

lemma get_index_for_field_mem:
  assumes "rocks_ok (env_db E) V" "get_index_for_field E field c = Some i"
  shows "i \<in> set (get_all_indexes E c)"
  using assms(2) by (auto simp: get_index_for_field_eq [OF assms(1)] find_Some_iff)

lemma entry_key_base:
  assumes "name_ok (ix_name i)" "name_ok (ix_name j)"
  shows "starts_with (idx_entry_key S (ix_name j) vs k) (index_base i) \<longleftrightarrow> ix_name j = ix_name i"
proof
  assume "starts_with (idx_entry_key S (ix_name j) vs k) (index_base i)"
  then obtain r where "ix_name j @ CHR '':'' # (value_part S vs @ '':'' @ k) = ix_name i @ CHR '':'' # r"
    by (auto simp: index_base_def idx_entry_key_def starts_with_iff)
  from sep_inject [OF this] assms show "ix_name j = ix_name i" by (simp add: name_ok_def)
next
  assume "ix_name j = ix_name i"
  then show "starts_with (idx_entry_key S (ix_name j) vs k) (index_base i)"
    by (simp add: index_base_def idx_entry_key_def starts_with_iff)
qed

text \<open>The entries under the name of the index are those of the documents that have the field.\<close>

lemma index_entries:
  assumes "rocks_ok (env_db E) V" "coll_inv E V c" "single_index E c field i" "starts_with b (index_base i)"
  shows "(b, w) \<in> set (V (coll_db c)) \<longleftrightarrow>
    (\<exists>d. coll_docs E V c w = Some d \<and> field_of E field d \<noteq> JNull \<and>
         b = idx_entry_key (env_json E) (ix_name i) [field_of E field d] w)"
proof -
  have ok: "regular_ok (get_all_indexes E c)"
    and fa: "family_agrees idx_ns (regular_entries (env_json E) (get_all_indexes E c)) (look V c)
      (vals_map (env_doc E) (look V c))"
    using assms(2) by (simp_all add: coll_inv_def inv_map_def cfgs_ok_def indexes_agree_def cfgs_of_def)
  have i: "i \<in> set (get_all_indexes E c)" "ix_fields i = [field]"
    using assms(3) get_index_for_field_mem [OF assms(1), of field c i] by (simp_all add: single_index_def)
  have one: "j = i" if "j \<in> set (get_all_indexes E c)" "ix_name j = ix_name i" for j
    using assms(3) that i(1) by (auto simp: single_index_def distinct_map dest: inj_onD)
  have nm: "\<And>j. j \<in> set (get_all_indexes E c) \<Longrightarrow> name_ok (ix_name j)"
    using ok by (simp add: regular_ok_def list_all_iff)
  have "idx_ns b" using assms(4) by (auto simp: idx_ns_def index_base_def starts_with_iff)
  note fa = family_agreesD [OF fa this]
  have "(b, w) \<in> set (V (coll_db c)) \<longleftrightarrow> look V c b = Some w"
    using smap_in_iff [OF rocks_okD(1) [OF assms(1)]] by simp
  also have "\<dots> \<longleftrightarrow> (\<exists>d. coll_docs E V c w = Some d \<and>
      (\<exists>j \<in> set (get_all_indexes E c). \<not> list_all is_null (index_values j (to_value (env_doc E) d)) \<and>
         b = idx_entry_key (env_json E) (ix_name j) (index_values j (to_value (env_doc E) d)) w))"
    unfolding fa by (auto simp: in_regular_entries vals_map_def coll_docs_def)
  also have "\<dots> \<longleftrightarrow> (\<exists>d. coll_docs E V c w = Some d \<and> field_of E field d \<noteq> JNull \<and>
         b = idx_entry_key (env_json E) (ix_name i) [field_of E field d] w)"
  proof (intro arg_cong [where f = Ex] ext conj_cong refl iffI)
    fix d
    let ?v = "to_value (env_doc E) d"
    have iv: "index_values i ?v = [field_of E field d]" by (simp add: i(2) index_values_def field_of_def)
    show "field_of E field d \<noteq> JNull \<and> b = idx_entry_key (env_json E) (ix_name i) [field_of E field d] w"
      if "\<exists>j \<in> set (get_all_indexes E c). \<not> list_all is_null (index_values j ?v) \<and>
        b = idx_entry_key (env_json E) (ix_name j) (index_values j ?v) w"
    proof -
      from that obtain j where j: "j \<in> set (get_all_indexes E c)" "\<not> list_all is_null (index_values j ?v)"
        "b = idx_entry_key (env_json E) (ix_name j) (index_values j ?v) w" by blast
      have "j = i" using one [OF j(1)] entry_key_base [OF nm [OF i(1)] nm [OF j(1)]] assms(4) j(3) by simp
      with j(2,3) iv show ?thesis by simp
    qed
    show "\<exists>j \<in> set (get_all_indexes E c). \<not> list_all is_null (index_values j ?v) \<and>
        b = idx_entry_key (env_json E) (ix_name j) (index_values j ?v) w"
      if "field_of E field d \<noteq> JNull \<and> b = idx_entry_key (env_json E) (ix_name i) [field_of E field d] w"
      using that i(1) iv by (intro bexI [of _ i]) simp_all
  qed
  finally show ?thesis .
qed

section \<open>Equality\<close>

text \<open>The keys of stored documents are strings, so UTF-8.\<close>

definition keys_utf8 ::
    "('db, 'v, 's, 'f) env \<Rightarrow> ('db \<Rightarrow> (bytes, bytes) smap) \<Rightarrow> ('db, 'v, 's, 'f) collection \<Rightarrow> bool" where
  "keys_utf8 E V c \<longleftrightarrow> (\<forall>k \<in> dom (coll_docs E V c). utf8_valid k)"

lemma fetch_docs_eq:
  assumes "rocks_ok (env_db E) V" "coll_inv E V c" "set ks \<subseteq> dom (coll_docs E V c)"
  shows "fetch_docs E c (map doc_key ks) = map (\<lambda>k. the (coll_docs E V c k)) ks"
  using assms(3) rocks_okD(2) [OF assms(1)]
  by (induction ks)
    (auto simp: fetch_docs_def List.map_filter_def coll_docs_def docs_map_def split: if_splits option.splits)

lemma stored_key:
  assumes "rocks_ok (env_db E) V" "coll_inv E V c" "coll_docs E V c k = Some d"
  shows "doc_key_of d = k"
proof -
  have "key_ok k" using assms(3) by (auto simp: coll_docs_def docs_map_def split: if_splits)
  then show ?thesis using coll_get_docs(2) [OF assms(1,2)] assms(3) by simp
qed

lemma in_value_prefix:
  assumes "rocks_ok (env_db E) V" "coll_inv E V c" "single_index E c field i"
  shows "(b, w) \<in> set (V (coll_db c)) \<and> starts_with b (value_prefix (env_json E) i v) \<longleftrightarrow>
    (\<exists>d. coll_docs E V c w = Some d \<and> field_of E field d \<noteq> JNull \<and>
         encode_key (env_json E) (field_of E field d) = encode_key (env_json E) v \<and>
         b = value_prefix (env_json E) i v @ w)"
    (is "?l \<longleftrightarrow> ?r")
proof
  have key: "idx_entry_key (env_json E) (ix_name i) [u] w =
      index_base i @ hex_encode (encode_key (env_json E) u) @ '':'' @ w" for u
    by (simp add: idx_entry_key_def index_base_def value_part_def)
  show ?r if ?l
  proof -
    have "starts_with b (index_base i)" using that by (auto simp: value_prefix_base starts_with_iff)
    from that index_entries [OF assms this, of w] obtain d where
      d: "coll_docs E V c w = Some d" "field_of E field d \<noteq> JNull"
        "b = index_base i @ hex_encode (encode_key (env_json E) (field_of E field d)) @ '':'' @ w"
      by (auto simp: key)
    from that d(3) obtain r where
      "hex_encode (encode_key (env_json E) (field_of E field d)) @ CHR '':'' # w =
       hex_encode (encode_key (env_json E) v) @ CHR '':'' # r"
      by (auto simp: value_prefix_base starts_with_iff)
    from sep_inject [OF this] d show ?thesis by (auto simp: value_prefix_base)
  qed
  show ?l if ?r
  proof -
    from that obtain d where
      d: "coll_docs E V c w = Some d" "field_of E field d \<noteq> JNull"
        "encode_key (env_json E) (field_of E field d) = encode_key (env_json E) v"
        "b = value_prefix (env_json E) i v @ w" by blast
    then have "starts_with b (index_base i)" "starts_with b (value_prefix (env_json E) i v)"
      by (simp_all add: value_prefix_base starts_with_iff)
    with d index_entries [OF assms this(1), of w] show ?thesis by (simp add: key value_prefix_base)
  qed
qed

lemma sorted_filter_fst: "smap_ok m \<Longrightarrow> sorted_wrt (<) (map fst (filter P m))"
  unfolding smap_ok_def sorted_wrt_map by (rule sorted_wrt_filter)

definition value_entries ::
    "('db, 'v, 's, 'f) env \<Rightarrow> ('db \<Rightarrow> (bytes, bytes) smap) \<Rightarrow> ('db, 'v, 's, 'f) collection \<Rightarrow> index \<Rightarrow>
     json \<Rightarrow> (bytes \<times> bytes) list" where
  "value_entries E V c i v =
     filter (\<lambda>p. starts_with (fst p) (value_prefix (env_json E) i v)) (V (coll_db c))"

lemma value_entries_sorted:
  assumes "rocks_ok (env_db E) V" "coll_inv E V c" "single_index E c field i"
  shows "sorted_wrt (<) (map snd (value_entries E V c i v))"
proof -
  let ?pre = "value_prefix (env_json E) i v"
  have "fst p = ?pre @ snd p" if "p \<in> set (value_entries E V c i v)" for p
    using that in_value_prefix [OF assms, of "fst p" "snd p" v] by (auto simp: value_entries_def)
  then have eq: "map fst (value_entries E V c i v) = map (\<lambda>p. ?pre @ snd p) (value_entries E V c i v)" by simp
  have "sorted_wrt (<) (map fst (value_entries E V c i v))"
    unfolding value_entries_def by (rule sorted_filter_fst [OF rocks_okD(1) [OF assms(1)]])
  then show ?thesis unfolding eq by (simp add: sorted_wrt_map)
qed

lemma value_entries_set:
  assumes "rocks_ok (env_db E) V" "coll_inv E V c" "single_index E c field i"
  shows "snd ` set (value_entries E V c i v) =
    {k. \<exists>d. coll_docs E V c k = Some d \<and> field_of E field d \<noteq> JNull \<and>
         encode_key (env_json E) (field_of E field d) = encode_key (env_json E) v}"
proof (intro set_eqI)
  fix k
  have "k \<in> snd ` set (value_entries E V c i v) \<longleftrightarrow>
      (\<exists>b. (b, k) \<in> set (V (coll_db c)) \<and> starts_with b (value_prefix (env_json E) i v))"
    by (force simp: value_entries_def)
  also have "\<dots> \<longleftrightarrow> (\<exists>d. coll_docs E V c k = Some d \<and> field_of E field d \<noteq> JNull \<and>
         encode_key (env_json E) (field_of E field d) = encode_key (env_json E) v)"
    unfolding in_value_prefix [OF assms] by blast
  finally show "k \<in> snd ` set (value_entries E V c i v) \<longleftrightarrow>
    k \<in> {k. \<exists>d. coll_docs E V c k = Some d \<and> field_of E field d \<noteq> JNull \<and>
         encode_key (env_json E) (field_of E field d) = encode_key (env_json E) v}" by simp
qed

lemma entry_doc_keys_eq:
  assumes "rocks_ok (env_db E) V" "coll_inv E V c" "single_index E c field i" "keys_utf8 E V c"
  shows "entry_doc_keys E i v c = map doc_key (map snd (value_entries E V c i v))"
proof -
  have "from_utf8_lossy E (snd p) = snd p" if "p \<in> set (value_entries E V c i v)" for p
  proof -
    have "snd p \<in> snd ` set (value_entries E V c i v)" using that by simp
    then show ?thesis
      using assms(4) unfolding value_entries_set [OF assms(1-3)]
      by (auto simp: keys_utf8_def from_utf8_lossy_def)
  qed
  then show ?thesis by (simp add: entry_doc_keys_def value_entries_def scan_eq [OF assms(1)])
qed

text \<open>Neither check of a filter touches the store.\<close>

lemma filter_check_db:
  "coll_db (snd (bloom_check E n item c)) = coll_db c" "coll_db (snd (cuckoo_check E n item c)) = coll_db c"
  by (simp_all add: bloom_check_def get_or_create_bloom_filter_def cuckoo_check_def
      preload_cuckoo_filter_def Let_def split: option.splits prod.splits)

lemma lookup_eq_steps:
  assumes "rocks_ok (env_db E) V" "coll_inv E V c" "single_index E c field i" "keys_utf8 E V c"
  shows "fetch_docs E c (entry_doc_keys E i v c) =
    map (\<lambda>k. the (coll_docs E V c k)) (map snd (value_entries E V c i v))"
  unfolding entry_doc_keys_eq [OF assms]
  using value_entries_set [OF assms(1-3), of v] by (intro fetch_docs_eq assms(1,2)) auto

lemma docs_by_key:
  assumes "rocks_ok (env_db E) V" "coll_inv E V c" "sorted_wrt (<) ks" "set ks \<subseteq> dom (coll_docs E V c)"
  shows "map doc_key_of (map (\<lambda>k. the (coll_docs E V c k)) ks) = ks"
  using stored_key [OF assms(1,2)] assms(4) by (auto intro!: map_idI)

lemma the_image: "(\<lambda>k. the (D k)) ` {k. \<exists>d. D k = Some d \<and> P d} = {d. \<exists>k. D k = Some d \<and> P d}"
  by force

text \<open>
  C10: an equality lookup through a hash or persistent index on one field returns exactly the stored
  documents whose field has the value (up to the encoding, which identifies numbers with the same
  double), each once and in the order of their keys, and changes nothing. Documents without the field
  are not returned, even for null.
\<close>

theorem index_lookup_eq_correct:
  assumes "rocks_ok (env_db E) V" "coll_inv E V c" "single_index E c field i" "keys_utf8 E V c"
    "ix_type i \<notin> {Bloom, Cuckoo}"
  shows "\<exists>docs. index_lookup_eq E field v c = (Some docs, c) \<and>
    sorted_wrt (<) (map doc_key_of docs) \<and>
    set docs = {d. \<exists>k. coll_docs E V c k = Some d \<and> field_of E field d \<noteq> JNull \<and>
                  encode_key (env_json E) (field_of E field d) = encode_key (env_json E) v}"
proof -
  let ?ks = "map snd (value_entries E V c i v)"
  let ?docs = "map (\<lambda>k. the (coll_docs E V c k)) ?ks"
  have "index_lookup_eq E field v c = (Some ?docs, c)"
    using assms(3,5) lookup_eq_steps [OF assms(1-4), of v]
    by (auto simp: index_lookup_eq_def single_index_def Let_def fetch_docs_def List.map_filter_def
        split: index_type.splits)
  moreover have s: "set ?ks = {k. \<exists>d. coll_docs E V c k = Some d \<and> field_of E field d \<noteq> JNull \<and>
         encode_key (env_json E) (field_of E field d) = encode_key (env_json E) v}"
    using value_entries_set [OF assms(1-3)] by simp
  moreover have "sorted_wrt (<) (map doc_key_of ?docs)"
    using value_entries_sorted [OF assms(1-3), of v] s
    by (subst docs_by_key [OF assms(1,2)]) auto
  moreover have "set ?docs = {d. \<exists>k. coll_docs E V c k = Some d \<and> field_of E field d \<noteq> JNull \<and>
                  encode_key (env_json E) (field_of E field d) = encode_key (env_json E) v}"
    unfolding list.set_map(1) [where v = ?ks] s by (rule the_image)
  ultimately show ?thesis by blast
qed

lemma demo_coll1_indexes: "get_all_indexes demo_env demo_coll1 = [name_index ''age'']"
proof -
  obtain c' where c': "coll_insert demo_env (demo_fresh 1) ann demo_coll = (Inr ann_doc, c')"
    using demo_insert_ann by (auto simp: ann_doc_def)
  have ok: "rocks_ok (env_db demo_env) mem_view" by (simp add: mem_rocks_ok)
  have eq: "demo_coll1 = c'" by (simp only: demo_coll1_def c' snd_conv)
  from insert_ok [OF ok c'] obtain key b where "wrote demo_env mem_view demo_coll
      (Put (doc_key key) b # ins_batch demo_env (cfgs_of demo_env demo_coll) key (to_value (env_doc demo_env) ann_doc)) c'" .
  then have "look mem_view c' = apply_ops
      (Put (doc_key key) b # ins_batch demo_env (cfgs_of demo_env demo_coll) key (to_value (env_doc demo_env) ann_doc))
      (look mem_view demo_coll)"
    unfolding wrote_def by blast
  then have "cfgs_of demo_env c' = cfgs_of demo_env demo_coll"
    by (rule written_cfgs [OF ok]) (simp, erule batch_fam_key(1))
  then show ?thesis by (simp add: eq cfgs_of_def demo_meta)
qed

lemma demo_single: "single_index demo_env demo_coll1 ''age'' (name_index ''age'')"
  by (simp add: single_index_def get_index_for_field_eq [where V = mem_view] mem_rocks_ok
      demo_coll1_indexes name_index_def)

lemma demo_coll1_keys: "keys_utf8 demo_env mem_view demo_coll1"
  by (simp add: keys_utf8_def demo_coll1(2))

lemma demo_age: "field_of demo_env ''age'' ann_doc = JNumber (PosInt 30)"
  by (simp add: field_of_def ann_doc_def doc_with_key_def to_value_def demo_doc_codec_def
      extract_field_value_simple system_fields_def smap_del_def)

theorem index_lookup_eq_correct_witness:
  "\<exists>docs. index_lookup_eq demo_env ''age'' (JNumber (PosInt 30)) demo_coll1 = (Some docs, demo_coll1) \<and>
     set docs = {ann_doc}"
  using index_lookup_eq_correct [OF _ demo_coll1(1) demo_single demo_coll1_keys, of "JNumber (PosInt 30)"]
  by (simp add: mem_rocks_ok name_index_def demo_coll1(2) demo_age) (auto simp: demo_age)

end
