(* ===== verification/RangeScan.thy ===== *)
theory RangeScan
  imports Lookup
begin

text \<open>
  Range lookups through an index (\<^verbatim>\<open>index_range_scan\<close> of \<^verbatim>\<open>indexes.rs\<close>): which documents they
  return, and their limit.
\<close>

section \<open>The loop\<close>

lemma takeWhile_eq_filter: "sorted_wrt (\<lambda>x y. P y \<longrightarrow> P x) xs \<Longrightarrow> takeWhile P xs = filter P xs"
  by (induction xs) (auto simp: filter_empty_conv)

lemma range_loop_eq:
  assumes "length acc < 1000"
  shows "range_loop E base seek inclusive acc (map Inr items) =
    acc @ take (1000 - length acc)
      (map (\<lambda>p. doc_key (from_utf8_lossy E (snd p)))
        (filter (\<lambda>p. inclusive \<or> \<not> starts_with (fst p) seek)
          (takeWhile (\<lambda>p. starts_with (fst p) base) items)))"
  using assms
proof (induction items arbitrary: acc)
  case (Cons p items)
  obtain k v where p: "p = (k, v)" by (cases p)
  have "1000 - length acc = Suc (1000 - length (acc @ [w]))" for w using Cons.prems by simp
  moreover have "length (acc @ [w]) < 1000 \<or> 1000 - length (acc @ [w]) = 0" for w using Cons.prems by auto
  ultimately show ?case using Cons by (auto simp: p Let_def)
qed simp


lemma scan_down:
  assumes "smap_ok m" "starts_with seek base"
  shows "takeWhile (\<lambda>p. starts_with (fst p) base) (rev (filter (\<lambda>p. fst p \<le> seek) m)) =
    rev (filter (\<lambda>p. starts_with (fst p) base \<and> fst p \<le> seek) m)"
proof -
  have "sorted_wrt (\<lambda>p q. fst q < fst p) (rev (filter (\<lambda>p. fst p \<le> seek) m))"
    using sorted_filter_fst [OF assms(1)] by (simp add: sorted_wrt_map sorted_wrt_rev)
  then have "sorted_wrt (\<lambda>p q. starts_with (fst q) base \<longrightarrow> starts_with (fst p) base)
      (rev (filter (\<lambda>p. fst p \<le> seek) m))"
  proof (rule sorted_wrt_mono_rel [rotated])
    fix p q
    assume p: "p \<in> set (rev (filter (\<lambda>p. fst p \<le> seek) m))" "fst q < fst p"
    show "starts_with (fst q) base \<longrightarrow> starts_with (fst p) base"
    proof
      assume "starts_with (fst q) base"
      then have "base \<le> fst p" using prefix_le [of "fst q" base] p(2) by simp
      with p(1) assms(2) past_prefix [of base "fst p" seek] show "starts_with (fst p) base" by auto
    qed
  qed
  from takeWhile_eq_filter [OF this] show ?thesis by (simp add: rev_filter conj_commute)
qed

section \<open>Encodings that are compared\<close>

lemma nul_end: "prefix (s @ [CHR 0x00]) (t @ [CHR 0x00]) \<Longrightarrow> CHR 0x00 \<notin> set t \<Longrightarrow> s = t"
proof -
  assume "prefix (s @ [CHR 0x00]) (t @ [CHR 0x00])" and t: "CHR 0x00 \<notin> set t"
  then obtain r where "t @ [CHR 0x00] = s @ CHR 0x00 # r" by (auto simp: prefix_def)
  then obtain us where "t = s @ us \<and> us @ [CHR 0x00] = CHR 0x00 # r \<or> s = t @ us \<and> [CHR 0x00] = us @ CHR 0x00 # r"
    by (auto simp: append_eq_append_conv2)
  then show "s = t" using t by (cases us) auto
qed

lemma encode_bool: "encode_key S (JBool b) = [CHR 0x02, if b then CHR 0x01 else CHR 0x00]"
  by (cases b) simp_all

lemma encode_prefix_free:
  assumes "prefix (encode_key S a) (encode_key S b)" "nul_free S a" "nul_free S b"
  shows "encode_key S a = encode_key S b"
proof (cases "type_rank b = 5")
  case True
  then have b: "encode_key S b = CHR 0x05 # value_to_string S b @ [CHR 0x00]" by (rule encode_key_complex)
  with assms(1) have "type_rank a = 5" by (cases a) (auto simp: encode_bool)
  then have "encode_key S a = CHR 0x05 # value_to_string S a @ [CHR 0x00]" by (rule encode_key_complex)
  moreover have "CHR 0x00 \<notin> set (value_to_string S b)" using True assms(3) by (cases b) (auto simp: nul_free_def)
  ultimately show ?thesis using assms(1) b nul_end [of "value_to_string S a" "value_to_string S b"] by simp
next
  case False
  have num: "prefix (encode_f64 x) (encode_f64 y) \<Longrightarrow> encode_f64 x = encode_f64 y" for x y
    by (metis append_Nil2 append_eq_append_conv length_encode_f64 prefix_def)
  from False assms show ?thesis
    by (cases a; cases b) (auto simp: encode_bool nul_free_def dest: nul_end num simp del: prefix_snoc)
qed

lemma encode_less_lt_at:
  "encode_key S a < encode_key S b \<Longrightarrow> nul_free S a \<Longrightarrow> nul_free S b \<Longrightarrow> lt_at (encode_key S a) (encode_key S b)"
  using encode_prefix_free [of S a b] by (intro less_lt_at) auto

text \<open>How an entry of the index compares with the bound of a range.\<close>

definition seek_key :: "serde \<Rightarrow> index \<Rightarrow> json \<Rightarrow> bytes" where
  "seek_key S i v = index_base i @ hex_encode (encode_key S v) @ '':''"

lemma entry_vs_seek:
  assumes "b = idx_entry_key S (ix_name i) [u] k" "nul_free S u" "nul_free S v"
  shows "seek_key S i v \<le> b \<longleftrightarrow> encode_key S v \<le> encode_key S u"
    "starts_with b (seek_key S i v) \<longleftrightarrow> encode_key S u = encode_key S v"
    "b \<le> seek_key S i v \<longleftrightarrow> encode_key S u < encode_key S v \<or> encode_key S u = encode_key S v \<and> k = []"
proof -
  have b: "b = index_base i @ hex_encode (encode_key S u) @ '':'' @ k"
    by (simp add: assms(1) idx_entry_key_def index_base_def value_part_def)
  show sw: "starts_with b (seek_key S i v) \<longleftrightarrow> encode_key S u = encode_key S v"
    using sep_inject [of "hex_encode (encode_key S u)" "CHR '':''" k "hex_encode (encode_key S v)"]
    by (auto simp: b seek_key_def starts_with_iff)
  consider (lt) "encode_key S v < encode_key S u" | (eq) "encode_key S u = encode_key S v" |
    (gt) "encode_key S u < encode_key S v" by (rule linorder_cases)
  then have "(seek_key S i v \<le> b \<longleftrightarrow> encode_key S v \<le> encode_key S u) \<and>
    (b \<le> seek_key S i v \<longleftrightarrow> encode_key S u < encode_key S v \<or> encode_key S u = encode_key S v \<and> k = [])"
  proof cases
    case lt
    then have "lt_at (seek_key S i v) b"
      unfolding b seek_key_def lt_at_prefix
      by (intro lt_at_append hex_encode_lt_at encode_less_lt_at assms(2,3))
    then have "seek_key S i v < b" by (rule lt_at_less)
    with lt show ?thesis by auto
  next
    case eq
    then have "b = seek_key S i v @ k" by (simp add: b seek_key_def)
    with eq show ?thesis using prefix_le [of b "seek_key S i v"] by (auto simp: starts_with_iff)
  next
    case gt
    then have "lt_at b (seek_key S i v)"
      unfolding b seek_key_def lt_at_prefix
      by (intro lt_at_append hex_encode_lt_at encode_less_lt_at assms(2,3))
    then have "b < seek_key S i v" by (rule lt_at_less)
    with gt show ?thesis by auto
  qed
  then show "seek_key S i v \<le> b \<longleftrightarrow> encode_key S v \<le> encode_key S u"
    "b \<le> seek_key S i v \<longleftrightarrow> encode_key S u < encode_key S v \<or> encode_key S u = encode_key S v \<and> k = []"
    by blast+
qed

section \<open>Ranges\<close>

lemma fetch_entries:
  assumes "rocks_ok (env_db E) V" "coll_inv E V c" "keys_utf8 E V c" "snd ` set L \<subseteq> dom (coll_docs E V c)"
  shows "fetch_docs E c (map (\<lambda>p. doc_key (from_utf8_lossy E (snd p))) L) =
    map (\<lambda>p. the (coll_docs E V c (snd p))) L"
proof -
  have "from_utf8_lossy E (snd p) = snd p" if "p \<in> set L" for p
    using that assms(3,4) by (auto simp: keys_utf8_def from_utf8_lossy_def image_subset_iff dom_def)
  then have eq: "map (\<lambda>p. doc_key (from_utf8_lossy E (snd p))) L = map doc_key (map snd L)" by simp
  show ?thesis unfolding eq using fetch_docs_eq [OF assms(1,2), of "map snd L"] assms(4) by (simp add: comp_def)
qed

definition index_items ::
    "('db \<Rightarrow> (bytes, bytes) smap) \<Rightarrow> ('db, 'v, 's, 'f) collection \<Rightarrow> index \<Rightarrow> (bytes \<Rightarrow> bool) \<Rightarrow>
     (bytes \<times> bytes) list" where
  "index_items V c i P = filter (\<lambda>p. starts_with (fst p) (index_base i) \<and> P (fst p)) (V (coll_db c))"

lemma seek_base: "starts_with (seek_key S i v) (index_base i)"
  by (simp add: seek_key_def starts_with_iff)

lemma fetch_docs_if: "(if ks = [] then [] else fetch_docs E c ks) = fetch_docs E c ks"
  by (simp add: fetch_docs_def List.map_filter_def)

lemma range_scan_eq:
  assumes "single_index E c field i"
  shows "index_range_scan E field v inclusive forward c =
    Some (fetch_docs E c (range_loop E (index_base i) (seek_key (env_json E) i v) inclusive []
      (if forward then iter_from (env_db E) (coll_db c) (seek_key (env_json E) i v)
       else iter_back (env_db E) (coll_db c) (seek_key (env_json E) i v))))"
  using assms
  by (simp add: index_range_scan_def single_index_def Let_def fetch_docs_if index_base_def seek_key_def)

lemmas range_loop_start = range_loop_eq [of "[]", simplified]


lemma range_scan_down:
  assumes "rocks_ok (env_db E) V" "single_index E c field i"
  shows "index_range_scan E field v inclusive False c =
    Some (fetch_docs E c (map (\<lambda>p. doc_key (from_utf8_lossy E (snd p)))
      (take 1000 (rev (index_items V c i (\<lambda>b. b \<le> seek_key (env_json E) i v \<and>
         (inclusive \<or> \<not> starts_with b (seek_key (env_json E) i v))))))))"
  unfolding range_scan_eq [OF assms(2)] rocks_okD(5) [OF assms(1)] if_False range_loop_start
    scan_down [OF rocks_okD(1) [OF assms(1)] seek_base] index_items_def
  unfolding rev_filter filter_filter take_map conj_assoc ..

text \<open>The values of the field that stored documents have.\<close>

definition fields_ok ::
    "('db, 'v, 's, 'f) env \<Rightarrow> ('db \<Rightarrow> (bytes, bytes) smap) \<Rightarrow> ('db, 'v, 's, 'f) collection \<Rightarrow> string \<Rightarrow> bool" where
  "fields_ok E V c field \<longleftrightarrow> (\<forall>d \<in> ran (coll_docs E V c). nul_free (env_json E) (field_of E field d))"

definition range_docs ::
    "('db, 'v, 's, 'f) env \<Rightarrow> ('db \<Rightarrow> (bytes, bytes) smap) \<Rightarrow> ('db, 'v, 's, 'f) collection \<Rightarrow> string \<Rightarrow>
     (string \<Rightarrow> bytes \<Rightarrow> bool) \<Rightarrow> document set" where
  "range_docs E V c field P =
     {d. \<exists>k. coll_docs E V c k = Some d \<and> field_of E field d \<noteq> JNull \<and>
             P k (encode_key (env_json E) (field_of E field d))}"

lemma index_items_docs:
  assumes "rocks_ok (env_db E) V" "coll_inv E V c" "single_index E c field i"
    "\<And>k d. coll_docs E V c k = Some d \<Longrightarrow>
       Q (idx_entry_key (env_json E) (ix_name i) [field_of E field d] k) \<longleftrightarrow>
       P k (encode_key (env_json E) (field_of E field d))"
  shows "(\<lambda>p. the (coll_docs E V c (snd p))) ` set (index_items V c i Q) = range_docs E V c field P"
    "snd ` set (index_items V c i Q) \<subseteq> dom (coll_docs E V c)"
proof -
  have ent: "(b, k) \<in> set (index_items V c i Q) \<longleftrightarrow>
      (\<exists>d. coll_docs E V c k = Some d \<and> field_of E field d \<noteq> JNull \<and>
           P k (encode_key (env_json E) (field_of E field d)) \<and>
           b = idx_entry_key (env_json E) (ix_name i) [field_of E field d] k)" for b k
  proof -
    have base: "starts_with (idx_entry_key (env_json E) (ix_name i) vs k) (index_base i)" for vs
      by (simp add: idx_entry_key_def index_base_def starts_with_iff)
    have "(b, k) \<in> set (index_items V c i Q) \<longleftrightarrow>
        starts_with b (index_base i) \<and> (b, k) \<in> set (V (coll_db c)) \<and> Q b"
      by (auto simp: index_items_def)
    also have "\<dots> \<longleftrightarrow> starts_with b (index_base i) \<and> (\<exists>d. coll_docs E V c k = Some d \<and>
        field_of E field d \<noteq> JNull \<and> b = idx_entry_key (env_json E) (ix_name i) [field_of E field d] k) \<and> Q b"
      using index_entries [OF assms(1-3)] by blast
    finally show ?thesis using assms(4) base by blast
  qed
  show "snd ` set (index_items V c i Q) \<subseteq> dom (coll_docs E V c)" using ent by fastforce
  show "(\<lambda>p. the (coll_docs E V c (snd p))) ` set (index_items V c i Q) = range_docs E V c field P"
    unfolding range_docs_def by (auto simp: ent image_iff) (use ent in force)+
qed

lemma range_result:
  assumes "rocks_ok (env_db E) V" "coll_inv E V c" "single_index E c field i" "keys_utf8 E V c"
    "\<And>k d. coll_docs E V c k = Some d \<Longrightarrow>
       Q (idx_entry_key (env_json E) (ix_name i) [field_of E field d] k) \<longleftrightarrow>
       P k (encode_key (env_json E) (field_of E field d))"
    "set L = set (index_items V c i Q)"
    "docs = fetch_docs E c (map (\<lambda>p. doc_key (from_utf8_lossy E (snd p))) (take 1000 L))"
  shows "length docs \<le> 1000" "set docs \<subseteq> range_docs E V c field P"
    "length docs < 1000 \<Longrightarrow> set docs = range_docs E V c field P"
proof -
  note items = index_items_docs [where Q = Q and P = P, OF assms(1-3,5)]
  have sub: "set (take 1000 L) \<subseteq> set (index_items V c i Q)" using set_take_subset assms(6) by fastforce
  have docs: "docs = map (\<lambda>p. the (coll_docs E V c (snd p))) (take 1000 L)"
    unfolding assms(7) using items(2) sub by (intro fetch_entries assms(1,2,4)) blast
  then show "length docs \<le> 1000" by simp
  show "set docs \<subseteq> range_docs E V c field P" using docs sub items(1) by auto
  show "set docs = range_docs E V c field P" if "length docs < 1000"
    using that docs items(1) assms(6) by simp
qed


text \<open>
  C32: the inclusive lookup below a bound is not inclusive: \<^verbatim>\<open>index_lookup_lte\<close> returns exactly what
  \<^verbatim>\<open>index_lookup_lt\<close> returns and no document whose field equals the bound, because the reverse scan
  starts at the key before the entries of the bound (the empty document key apart).
\<close>

theorem index_lookup_lte_is_lt:
  assumes "rocks_ok (env_db E) V" "coll_inv E V c" "single_index E c field i" "keys_utf8 E V c"
    "fields_ok E V c field" "nul_free (env_json E) v" "coll_docs E V c [] = None"
  shows "\<exists>docs. index_lookup_lte E field v c = Some docs \<and> index_lookup_lt E field v c = Some docs \<and>
    set docs \<subseteq> range_docs E V c field (\<lambda>_ e. e < encode_key (env_json E) v)"
proof -
  let ?Q = "\<lambda>inclusive b. b \<le> seek_key (env_json E) i v \<and>
      (inclusive \<or> \<not> starts_with b (seek_key (env_json E) i v))"
  let ?P = "\<lambda>_ e. e < encode_key (env_json E) v"
  have Q: "?Q inclusive (idx_entry_key (env_json E) (ix_name i) [field_of E field d] k) \<longleftrightarrow>
        encode_key (env_json E) (field_of E field d) < encode_key (env_json E) v"
    if "coll_docs E V c k = Some d" for k d inclusive
  proof -
    have n: "nul_free (env_json E) (field_of E field d)" using that assms(5) by (auto simp: fields_ok_def ran_def)
    have "k \<noteq> []" using that assms(7) by auto
    then show ?thesis using entry_vs_seek(2,3) [OF refl n assms(6), of i k] by auto
  qed
  have "index_items V c i (?Q True) = index_items V c i (?Q False)"
    unfolding index_items_def
  proof (rule filter_cong [OF refl])
    fix p assume p: "p \<in> set (V (coll_db c))"
    have "?Q True (fst p) = ?Q False (fst p)" if "starts_with (fst p) (index_base i)"
    proof -
      from p index_entries [OF assms(1-3) that, of "snd p"] obtain d where
        "coll_docs E V c (snd p) = Some d"
        "fst p = idx_entry_key (env_json E) (ix_name i) [field_of E field d] (snd p)" by auto
      with Q [of "snd p" d True] Q [of "snd p" d False] show ?thesis by simp
    qed
    then show "(starts_with (fst p) (index_base i) \<and> ?Q True (fst p)) =
      (starts_with (fst p) (index_base i) \<and> ?Q False (fst p))" by blast
  qed
  moreover note lt = range_result(2) [OF assms(1-4), where P = ?P and Q = "?Q False"
      and L = "rev (index_items V c i (?Q False))", OF Q _ refl]
  ultimately show ?thesis
    unfolding index_lookup_lt_def index_lookup_lte_def range_scan_down [OF assms(1,3)]
    using lt by auto
qed

section \<open>Witnesses\<close>

lemma demo_fields: "fields_ok demo_env mem_view demo_coll1 ''age''" "nul_free S (JNumber n)"
  by (simp_all add: fields_ok_def demo_coll1(2) demo_age nul_free_def)



theorem index_lookup_lte_is_lt_witness:
  "index_lookup_lte demo_env ''age'' (JNumber (PosInt 30)) demo_coll1 = Some [] \<and>
   coll_docs demo_env mem_view demo_coll1 ''ann'' = Some ann_doc \<and>
   field_of demo_env ''age'' ann_doc = JNumber (PosInt 30)"
proof -
  have "range_docs demo_env mem_view demo_coll1 ''age'' (\<lambda>_ e. e < encode_key (env_json demo_env) (JNumber (PosInt 30))) = {}"
    by (auto simp: range_docs_def demo_coll1(2) demo_age split: if_splits)
  then show ?thesis
    using index_lookup_lte_is_lt [OF _ demo_coll1(1) demo_single demo_coll1_keys demo_fields, of "PosInt 30"]
    by (auto simp: mem_rocks_ok demo_coll1(2) demo_age)
qed

end
