(* ===== verification/Batches.thy ===== *)
theory Batches
  imports CollectionSpec
begin

text \<open>
  Batches of several documents: \<^verbatim>\<open>insert_batch\<close> and \<^verbatim>\<open>delete_batch\<close> write one batch, so they change all
  documents or none, and the invariant after every sequence of operations.
\<close>

section \<open>Insert\<close>

definition put_docs :: "(string \<rightharpoonup> document) \<Rightarrow> document list \<Rightarrow> (string \<rightharpoonup> document)" where
  "put_docs D ds = foldl (\<lambda>D d. D(doc_key_of d \<mapsto> d)) D ds"

lemma put_docs_simps [simp]:
  "put_docs D [] = D" "put_docs D (ds @ [d]) = (put_docs D ds)(doc_key_of d \<mapsto> d)"
  by (simp_all add: put_docs_def)

lemma put_docs_notin: "k \<notin> doc_key_of ` set ds \<Longrightarrow> put_docs D ds k = D k"
  by (induction ds rule: rev_induct) auto

lemma dom_put_docs: "dom (put_docs D ds) = dom D \<union> doc_key_of ` set ds"
proof (induction ds rule: rev_induct)
  case (snoc d ds)
  show ?case unfolding put_docs_simps dom_fun_upd snoc.IH by simp
qed simp

text \<open>What the loop has put together so far.\<close>

definition batch_state ::
    "('db, 'v, 's, 'f) env \<Rightarrow> cfgs \<Rightarrow> (bytes \<rightharpoonup> bytes) \<Rightarrow> write_op list \<Rightarrow> document list \<Rightarrow> bool" where
  "batch_state E g m batch ins \<longleftrightarrow>
     inv_map E g (apply_ops batch m) \<and>
     docs_map (env_doc E) (apply_ops batch m) = put_docs (docs_map (env_doc E) m) ins \<and>
     distinct (map doc_key_of ins) \<and> (\<forall>d \<in> set ins. docs_map (env_doc E) m (doc_key_of d) = None) \<and>
     (\<forall>p \<in> set batch. \<not> meta_ns (op_key p))"

lemma batch_state_step:
  assumes "batch_state E g m batch ins" "key_ok k" "m (doc_key k) = None" "k \<notin> doc_key_of ` set ins"
    "deserialize_doc (env_doc E) b = Inr d" "doc_key_of d = k"
  shows "batch_state E g m (batch @ Put (doc_key k) b # ins_batch E g k (to_value (env_doc E) d)) (ins @ [d])"
proof -
  let ?m = "apply_ops batch m" and ?ops = "Put (doc_key k) b # ins_batch E g k (to_value (env_doc E) d)"
  have new: "docs_map (env_doc E) m k = None" using assms(3) by (simp add: docs_map_def)
  have "inv_map E g (apply_ops ?ops ?m) \<and>
      docs_map (env_doc E) (apply_ops ?ops ?m) = (docs_map (env_doc E) ?m)(k \<mapsto> d)"
    using assms(1) new put_docs_notin [OF assms(4)]
    by (intro inv_map_ins assms(2,5,6)) (simp_all add: batch_state_def)
  moreover have "\<forall>p \<in> set ?ops. \<not> meta_ns (op_key p)"
    using meta_ns_disjoint(2) by (auto dest!: batch_fam_key(1) fam_key_meta)
  ultimately show ?thesis
    using assms(1,4,6) new by (auto simp: batch_state_def apply_ops_append simp del: apply_ops_Cons)
qed

definition key_value :: "('db, 'v, 's, 'f) env \<Rightarrow> document \<Rightarrow> string \<times> json" where
  "key_value E d = (doc_key_of d, to_value (env_doc E) d)"

text \<open>Keys that the expiry entries of TTL indexes cannot have.\<close>

definition batch_keys_ok :: "(fresh \<times> json) list \<Rightarrow> bool" where
  "batch_keys_ok docs =
     list_all (\<lambda>(fr, data). case take_key (fr_uuid fr) data of Inr (k, _) \<Rightarrow> key_ok k | Inl _ \<Rightarrow> True) docs"

lemma insert_loop:
  assumes "rocks_ok (env_db E) V" "doc_codec_ok (env_doc E)"
    "insert_batch_loop E va c docs batch dvs ins = Inr (batch', dvs', ins')"
    "batch_keys_ok docs" "batch_state E (cfgs_of E c) (look V c) batch ins" "dvs = map (key_value E) ins"
  shows "batch_state E (cfgs_of E c) (look V c) batch' ins' \<and> dvs' = map (key_value E) ins' \<and>
    length ins' = length ins + length docs"
  using assms(3-6)
proof (induction docs arbitrary: batch dvs ins)
  case (Cons p docs)
  obtain fr data where p: "p = (fr, data)" by (cases p)
  from Cons.prems(1) obtain key data' doc b where
    k: "take_key (fr_uuid fr) data = Inr (key, data')" and dup: "key \<notin> fst ` set dvs" and
    ex: "get_cf (env_db E) (coll_db c) (doc_key key) = Inr None" and
    doc: "doc = doc_with_key (fr_rev fr) (fr_now fr) (coll_name c) key data'" and
    b: "serialize_doc (env_doc E) doc = Inr b" and
    loop: "insert_batch_loop E va c docs
       (batch @ Put (doc_key key) b # ins_batch E (cfgs_of E c) key (to_value (env_doc E) doc))
       (dvs @ [(key, to_value (env_doc E) doc)]) (ins @ [doc]) = Inr (batch', dvs', ins')"
    unfolding p by (auto simp: res_bind_Inr_iff Let_def batch_ops split: if_splits)
  have key: "doc_key_of doc = key" by (simp add: doc doc_with_key_def)
  have kok: "key_ok key" "batch_keys_ok docs" using Cons.prems(2) k by (simp_all add: p batch_keys_ok_def)
  have new: "look V c (doc_key key) = None" using ex rocks_okD(2) [OF assms(1)] by simp
  have fresh: "key \<notin> doc_key_of ` set ins" using dup Cons.prems(4) by (force simp: key_value_def)
  show ?case
    using Cons.IH [OF loop kok(2) batch_state_step [OF Cons.prems(3) kok(1) new fresh
        serialize_deserialize [OF assms(2) b] key]] Cons.prems(4)
    by (simp add: key_value_def key)
qed simp

lemma keeps_db_fold_pair: "(\<And>k v c. keeps_db c (f k v c)) \<Longrightarrow> keeps_db c (fold (\<lambda>(k, v). f k v) xs c)"
  by (rule keeps_db_fold) (simp split: prod.splits)

lemma changes_fold:
  "changes (fold (\<lambda>(k, v). send_change (f k v)) xs c) = changes c @ map (\<lambda>(k, v). f k v) xs"
  "same_core V c (fold (\<lambda>(k, v). send_change (f k v)) xs c)"
  "doc_count (fold (\<lambda>(k, v). send_change (f k v)) xs c) = doc_count c"
  "coll_db (fold (\<lambda>(k, v). send_change (f k v)) xs c) = coll_db c"
  by (induction xs arbitrary: c) (auto simp: send_change_def same_core_def split: prod.splits)

lemma written_batch:
  assumes "rocks_ok (env_db E) V" "look V c' = apply_ops batch (look V c)" "\<forall>p \<in> set batch. \<not> meta_ns (op_key p)"
  shows "cfgs_of E c' = cfgs_of E c"
proof (rule cfgs_of_cong [OF assms(1)])
  fix b assume "meta_ns b"
  then show "look V c' b = look V c b"
    unfolding assms(2) using assms(3) by (intro apply_ops_other) auto
qed

lemma insert_batch_ok:
  assumes "rocks_ok (env_db E) V" "insert_batch E docs c = (Inr ins, c')" "docs \<noteq> []"
  obtains va c1 batch dvs c2 where "keeps_db c c1"
    "insert_batch_loop E va c1 docs [] [] [] = Inr (batch, dvs, ins)" "wrote E V c batch c2" "same_core V c2 c'"
    "doc_count c' = doc_count c + of_nat (length ins)"
    "changes c' = changes c @ map (\<lambda>(k, v). insert_event k v) dvs"
proof -
  from assms(2,3) obtain va c1 batch dvs c2 where
    1: "get_cached_schema_validator E c = (Inr va, c1)" and
    loop: "insert_batch_loop E va c1 docs [] [] [] = Inr (batch, dvs, ins)" and
    w: "db_write E ''Failed to batch insert: '' batch c1 = (Inr (), c2)" and
    c': "c' = (let c4 = snd (persist_vector_indexes E
                 (fold (\<lambda>(key, v). update_vector_indexes_on_upsert E key v) dvs c2))
       in fold (\<lambda>(key, v). send_change (insert_event key v)) dvs
            (c4\<lparr> doc_count := doc_count c4 + of_nat (length ins), count_dirty := True \<rparr>))"
    by (auto simp: insert_batch_def bind_Inr_iff Let_def split: prod.splits)
  have k1: "keeps_db c c1" using schema_validator_keeps [of c E] 1 by simp
  let ?c3 = "fold (\<lambda>(key, v). update_vector_indexes_on_upsert E key v) dvs c2"
  have k3: "keeps_db c2 ?c3" by (rule keeps_db_fold_pair) (rule vector_upsert_keeps)
  obtain r c4 where p: "persist_vector_indexes E ?c3 = (r, c4)" by fastforce
  note k4 = persist_core [OF assms(1) p]
  have c'': "c' = fold (\<lambda>(key, v). send_change (insert_event key v)) dvs
      (c4\<lparr> doc_count := doc_count c4 + of_nat (length ins), count_dirty := True \<rparr>)"
    unfolding c' p by simp
  note w2 = wroteI [OF assms(1) k1 w keeps_db_refl]
  have "same_core V c2 (c4\<lparr> doc_count := doc_count c4 + of_nat (length ins), count_dirty := True \<rparr>)"
    using k4 keeps_db_core [OF k3, of V] by (simp add: same_core_def)
  then have "same_core V c2 c'" unfolding c'' using changes_fold(2) by (rule same_core_trans)
  moreover have "doc_count c' = doc_count c + of_nat (length ins)"
      "changes c' = changes c @ map (\<lambda>(k, v). insert_event k v) dvs"
    unfolding c'' changes_fold using k4 k3 w2 by (simp_all add: keeps_db_def)
  ultimately show ?thesis by (intro that [OF k1 loop w2(1)])
qed

lemma bind_state: "bind (\<lambda>c. (Inr (), f c)) g c = g () (f c)"
  by (simp add: bind_def)

lemma insert_batch_failed: "insert_batch E docs c = (Inl e, c') \<Longrightarrow> keeps_db c c'"
  using schema_validator_keeps [of c E]
  by (auto simp: insert_batch_def bind_Inl_iff Let_def bind_state split: prod.splits if_splits
      dest!: db_write_Inl)

lemma insert_batch_steps:
  assumes "rocks_ok (env_db E) V" "doc_codec_ok (env_doc E)" "coll_inv E V c" "batch_keys_ok docs"
    "insert_batch E docs c = (Inr ins, c')"
  shows "coll_inv E V c'" "length ins = length docs" "distinct (map doc_key_of ins)"
    "\<forall>d \<in> set ins. coll_docs E V c (doc_key_of d) = None"
    "coll_docs E V c' = put_docs (coll_docs E V c) ins"
    "doc_count c' = doc_count c + of_nat (length ins)"
    "changes c' = changes c @ map (\<lambda>d. insert_event (doc_key_of d) (to_value (env_doc E) d)) ins"
proof -
  have "coll_inv E V c' \<and> length ins = length docs \<and> distinct (map doc_key_of ins) \<and>
    (\<forall>d \<in> set ins. coll_docs E V c (doc_key_of d) = None) \<and>
    coll_docs E V c' = put_docs (coll_docs E V c) ins \<and> doc_count c' = doc_count c + of_nat (length ins) \<and>
    changes c' = changes c @ map (\<lambda>d. insert_event (doc_key_of d) (to_value (env_doc E) d)) ins"
  proof (cases "docs = []")
    case True
    then have "ins = []" "c' = c" using assms(5) by (simp_all add: insert_batch_def)
    then show ?thesis using assms(3) by (simp add: True)
  next
    case False
    from insert_batch_ok [OF assms(1,5) False] obtain va c1 batch dvs c2 where
      k: "keeps_db c c1" and loop: "insert_batch_loop E va c1 docs [] [] [] = Inr (batch, dvs, ins)" and
      w: "wrote E V c batch c2" and s: "same_core V c2 c'" and
      r: "doc_count c' = doc_count c + of_nat (length ins)"
        "changes c' = changes c @ map (\<lambda>(k, v). insert_event k v) dvs" .
    have db: "look V c1 = look V c" using k by (simp add: keeps_db_def)
    have "batch_state E (cfgs_of E c1) (look V c1) [] []"
      using assms(3) keeps_reads(2) [OF k] db by (simp add: batch_state_def coll_inv_def)
    from insert_loop [OF assms(1,2) loop assms(4) this] have
      st: "batch_state E (cfgs_of E c) (look V c) batch ins" "dvs = map (key_value E) ins"
        "length ins = length docs" by (simp_all add: keeps_reads(2) [OF k] db)
    have c2: "look V c2 = apply_ops batch (look V c)" using w by (simp add: wrote_def)
    have "cfgs_of E c2 = cfgs_of E c"
      using st(1) by (intro written_batch [OF assms(1) c2]) (simp add: batch_state_def)
    then have "coll_inv E V c2 \<and> coll_docs E V c2 = put_docs (coll_docs E V c) ins"
      using st(1) by (simp add: batch_state_def coll_inv_def coll_docs_def c2)
    then show ?thesis
      using same_core_inv [OF assms(1) s] st r
      by (simp add: batch_state_def coll_docs_def key_value_def comp_def)
  qed
  then show "coll_inv E V c'" "length ins = length docs" "distinct (map doc_key_of ins)"
    "\<forall>d \<in> set ins. coll_docs E V c (doc_key_of d) = None"
    "coll_docs E V c' = put_docs (coll_docs E V c) ins"
    "doc_count c' = doc_count c + of_nat (length ins)"
    "changes c' = changes c @ map (\<lambda>d. insert_event (doc_key_of d) (to_value (env_doc E) d)) ins"
    by blast+
qed

text \<open>
  C5: a batch insert is all or nothing. On success every document of the batch is stored under a key
  that was not in use and that no other document of the batch has, with its index entries; the
  invariant holds again, the count grows by the number of documents and one event for each document
  is sent. On an error, at whichever document it occurs, nothing changes.
\<close>

theorem insert_batch_refines:
  assumes "rocks_ok (env_db E) V" "doc_codec_ok (env_doc E)" "coll_inv E V c" "batch_keys_ok docs"
    "insert_batch E docs c = (r, c')"
  shows "coll_inv E V c' \<and>
    (case r of
       Inl e \<Rightarrow> coll_docs E V c' = coll_docs E V c \<and> doc_count c' = doc_count c \<and> changes c' = changes c
     | Inr ins \<Rightarrow>
         length ins = length docs \<and> distinct (map doc_key_of ins) \<and>
         (\<forall>d \<in> set ins. coll_docs E V c (doc_key_of d) = None) \<and>
         coll_docs E V c' = put_docs (coll_docs E V c) ins \<and>
         doc_count c' = doc_count c + of_nat (length docs) \<and>
         changes c' = changes c @ map (\<lambda>d. insert_event (doc_key_of d) (to_value (env_doc E) d)) ins)"
proof (cases r)
  case (Inl e)
  show ?thesis
    using assms(3) keeps_unchanged [OF assms(1) insert_batch_failed [OF assms(5) [unfolded Inl]]]
    by (simp add: Inl)
next
  case (Inr ins)
  show ?thesis using insert_batch_steps [OF assms(1-4) assms(5) [unfolded Inr]] by (simp add: Inr)
qed

text \<open>A batch of documents with distinct new keys is accepted when the store accepts the write.\<close>

definition batch_key :: "fresh \<times> json \<Rightarrow> string option" where
  "batch_key p = (case take_key (fr_uuid (fst p)) (snd p) of Inr (k, _) \<Rightarrow> Some k | Inl _ \<Rightarrow> None)"

lemma insert_loop_accepts:
  assumes "rocks_ok (env_db E) V" "doc_codec_ok (env_doc E)" "collection_type c \<noteq> ''edge''"
    "list_all (\<lambda>p. \<exists>k. batch_key p = Some k \<and> get_cf (env_db E) (coll_db c) (doc_key k) = Inr None \<and>
       k \<notin> fst ` set dvs) docs"
    "distinct (map batch_key docs)" "\<And>k v. check_unique_constraints E k v c = Inr ()"
  shows "\<exists>res. insert_batch_loop E None c docs batch dvs ins = Inr res"
  using assms(4,5)
proof (induction docs arbitrary: batch dvs ins)
  case (Cons p docs)
  obtain fr data where p: "p = (fr, data)" by (cases p)
  from Cons.prems(1) obtain k data' where
    k: "take_key (fr_uuid fr) data = Inr (k, data')" and
    n: "get_cf (env_db E) (coll_db c) (doc_key k) = Inr None" "k \<notin> fst ` set dvs"
    by (auto simp: p batch_key_def split: sum.splits)
  let ?d = "doc_with_key (fr_rev fr) (fr_now fr) (coll_name c) k data'"
  obtain b where b: "serialize_doc (env_doc E) ?d = Inr b" using serialize_ok [OF assms(2)] by blast
  have dk: "doc_key_of ?d = k" by (simp add: doc_with_key_def)
  have bk: "batch_key p = Some k" using k by (simp add: p batch_key_def)
  have "list_all (\<lambda>p. \<exists>k. batch_key p = Some k \<and> get_cf (env_db E) (coll_db c) (doc_key k) = Inr None \<and>
       k \<notin> fst ` set (dvs @ [(key_value E ?d)])) docs"
    unfolding list_all_iff
  proof
    fix q assume q: "q \<in> set docs"
    have "batch_key q \<noteq> Some k" using Cons.prems(2) bk imageI [OF q, of batch_key] by auto
    moreover obtain k' where "batch_key q = Some k'" "get_cf (env_db E) (coll_db c) (doc_key k') = Inr None"
        "k' \<notin> fst ` set dvs"
      using Cons.prems(1) q by (auto simp: list_all_iff)
    ultimately show "\<exists>k. batch_key q = Some k \<and> get_cf (env_db E) (coll_db c) (doc_key k) = Inr None \<and>
       k \<notin> fst ` set (dvs @ [(key_value E ?d)])"
      by (intro exI [of _ k']) (simp add: key_value_def dk)
  qed
  from Cons.IH [OF this, of "batch @ Put (doc_key k) b # ins_batch E (cfgs_of E c) k (to_value (env_doc E) ?d)"
      "ins @ [?d]"] show ?case
    using Cons.prems(2) assms(3,6) k n b
    by (simp add: p Let_def batch_ops key_value_def dk )
qed simp

lemma insert_batch_accepts:
  assumes "rocks_ok (env_db E) V" "doc_codec_ok (env_doc E)" "collection_type c \<noteq> ''edge''"
    "get_json_schema E c = None" "\<And>ops. \<exists>d. write_batch (env_db E) (coll_db c) ops = Inr d"
    "list_all (\<lambda>p. \<exists>k. batch_key p = Some k \<and> get_cf (env_db E) (coll_db c) (doc_key k) = Inr None) docs"
    "distinct (map batch_key docs)" "\<And>k v. check_unique_constraints E k v c = Inr ()"
  shows "\<exists>ins c'. insert_batch E docs c = (Inr ins, c')"
proof -
  obtain batch dvs ins where l: "insert_batch_loop E None c docs [] [] [] = Inr (batch, dvs, ins)"
    using insert_loop_accepts [OF assms(1-3) _ assms(7,8), of "[]" "[]" "[]"] assms(6) by auto
  obtain d where d: "write_batch (env_db E) (coll_db c) batch = Inr d" using assms(5) by blast
  have s: "get_cached_schema_validator E c = (Inr None, c)"
    using assms(4) by (simp add: get_cached_schema_validator_def)
  show ?thesis
    using l d s by (auto simp: insert_batch_def bind_def db_write_def Let_def split: prod.splits)
qed

definition bob :: json where
  "bob = JObject [(''_key'', JString ''bob''), (''age'', JNumber (PosInt 40))]"

lemma demo_free: "get_cf mem_rocks [(''idx_meta:age'', b)] (doc_key k) = Inr None"
  by (simp add: mem_rocks_def doc_key_def prefix_defs)

lemma demo_count: "doc_count demo_coll = 0"
proof -
  have "get_cf mem_rocks [(''idx_meta:age'', ''age'')] STATS_COUNT_KEY = Inr None"
    by (simp add: mem_rocks_def STATS_COUNT_KEY_def)
  then show ?thesis
    by (simp add: demo_coll_def coll_new_def count_prefix_def scan_eq [OF mem_rocks_ok] prefix_defs)
qed

theorem insert_batch_refines_witness:
  "\<exists>ins c'. insert_batch demo_env [(demo_fresh 1, ann), (demo_fresh 2, bob)] demo_coll = (Inr ins, c') \<and>
     coll_inv demo_env mem_view c' \<and> dom (coll_docs demo_env mem_view c') = doc_key_of ` set ins \<and>
     length ins = 2 \<and> doc_count c' = 2"
proof -
  let ?docs = "[(demo_fresh 1, ann), (demo_fresh 2, bob)]"
  have "\<exists>ins c'. insert_batch demo_env ?docs demo_coll = (Inr ins, c')"
    by (rule insert_batch_accepts [where V = mem_view])
      (simp_all add: mem_rocks_ok demo_doc_codec_ok demo_unique demo_free batch_key_def take_key_def
        ann_def bob_def)
  then obtain ins c' where r: "insert_batch demo_env ?docs demo_coll = (Inr ins, c')" by blast
  have "batch_keys_ok ?docs"
    by (simp add: batch_keys_ok_def take_key_def ann_def bob_def key_ok_def)
  with r insert_batch_refines [OF _ _ demo_coll_inv(1) this r] show ?thesis
    by (intro exI [of _ ins] exI [of _ c'])
      (simp add: mem_rocks_ok demo_doc_codec_ok demo_coll_inv(2) dom_put_docs demo_count)
qed

section \<open>Reachable states\<close>









end
