(* ===== verification/IndexAdmin.thy ===== *)
theory IndexAdmin
  imports Lookup Batches
begin

text \<open>
  Creating, dropping, listing and rebuilding indexes, \<^verbatim>\<open>src/storage/collection/indexes.rs\<close>,
  \<^verbatim>\<open>geo.rs\<close>, \<^verbatim>\<open>fulltext.rs\<close> and \<^verbatim>\<open>ttl.rs\<close>. Entries are written in batches of bounded size, so a
  crash or an error in the middle leaves an index half built; the lemmas are about runs in which
  the store accepts the writes.
\<close>

section \<open>Regular indexes\<close>

record index_stats =
  is_name :: string
  is_fields :: "string list"
  is_field :: string
  is_type :: index_type
  is_unique :: bool
  is_unique_values :: nat
  is_indexed_documents :: nat

definition first_or_default :: "string list \<Rightarrow> string" where
  "first_or_default fs = (case fs of [] \<Rightarrow> [] | f # _ \<Rightarrow> f)"

definition stats_of :: "index \<Rightarrow> nat \<Rightarrow> index_stats" where
  "stats_of i n = \<lparr> is_name = ix_name i, is_fields = ix_fields i, is_field = first_or_default (ix_fields i),
     is_type = ix_type i, is_unique = ix_unique i, is_unique_values = n, is_indexed_documents = n \<rparr>"

definition INDEX_BATCH_SIZE_LIMIT :: nat where "INDEX_BATCH_SIZE_LIMIT = 10000"

text \<open>The filters of an index take the indexed values of a document.\<close>

definition feed_filter ::
    "('db, 'v, 's, 'f) env \<Rightarrow> index \<Rightarrow> json list \<Rightarrow> ('db, 'v, 's, 'f) collection \<Rightarrow>
     ('db, 'v, 's, 'f) collection" where
  "feed_filter E i vs c =
     (case ix_type i of
        Bloom \<Rightarrow> fold (\<lambda>v. bloom_insert E (ix_name i) (value_to_string (env_json E) v)) vs c
      | Cuckoo \<Rightarrow> fold (\<lambda>v. cuckoo_insert E (ix_name i) (value_to_string (env_json E) v)) vs c
      | _ \<Rightarrow> c)"

text \<open>The loop of \<^verbatim>\<open>create_index\<close>: the pending batch and the number of entries so far.\<close>

fun build_index ::
    "('db, 'v, 's, 'f) env \<Rightarrow> index \<Rightarrow> document list \<Rightarrow> write_op list \<Rightarrow> nat \<Rightarrow>
     ('db, 'v, 's, 'f, write_op list \<times> nat) act" where
  "build_index E i [] batch indexed_count c = (Inr (batch, indexed_count), c)"
| "build_index E i (doc # docs) batch indexed_count c =
     (let field_values = index_values i (to_value (env_doc E) doc)
      in if list_all is_null field_values then build_index E i docs batch indexed_count c
         else
           (let batch = batch @ [Put (idx_entry_key (env_json E) (ix_name i) field_values (doc_key_of doc))
                                     (doc_key_of doc)];
                indexed_count = indexed_count + 1;
                c = feed_filter E i field_values c
            in if indexed_count mod INDEX_BATCH_SIZE_LIMIT = 0
               then bind (db_write E ''Failed to write index batch: '' batch)
                      (\<lambda>_. build_index E i docs [] indexed_count) c
               else build_index E i docs batch indexed_count c))"

definition save_filter :: "('db, 'v, 's, 'f) env \<Rightarrow> index \<Rightarrow> ('db, 'v, 's, 'f, unit) act" where
  "save_filter E i c =
     (case ix_type i of
        Bloom \<Rightarrow> (case map_of (bloom_filters c) (ix_name i) of
                    Some fl \<Rightarrow> save_bloom_filter E (ix_name i) fl c
                  | None \<Rightarrow> (Inr (), c))
      | Cuckoo \<Rightarrow> (case map_of (cuckoo_filters c) (ix_name i) of
                     Some fl \<Rightarrow> save_cuckoo_filter (ix_name i) fl c
                   | None \<Rightarrow> (Inr (), c))
      | _ \<Rightarrow> (Inr (), c))"

definition create_index ::
    "('db, 'v, 's, 'f) env \<Rightarrow> string \<Rightarrow> string list \<Rightarrow> index_type \<Rightarrow> bool \<Rightarrow>
     ('db, 'v, 's, 'f, index_stats) act" where
  "create_index E name flds index_type unique c =
     (if get_index E name c \<noteq> None
      then (Inl (InvalidDocument (''Index '' @ quoted name @ '' already exists'')), c)
      else
        (let i = \<lparr> ix_name = name, ix_fields = flds, ix_type = index_type, ix_unique = unique \<rparr>
         in bind (lift (map_err JsonError (to_vec (idx_codec E) i))) (\<lambda>index_bytes.
            bind (db_write E ''Failed to create index: '' [Put (idx_meta_key name) index_bytes]) (\<lambda>_.
            \<lambda>c. (let docs = coll_all E c
                 in bind (build_index E i docs [] 0) (\<lambda>(batch, indexed_count).
                    bind (if indexed_count > 0 \<and> indexed_count mod INDEX_BATCH_SIZE_LIMIT \<noteq> 0
                          then db_write E ''Failed to write final index batch: '' batch else ret ()) (\<lambda>_.
                    bind (save_filter E i) (\<lambda>_.
                    ret (stats_of i (length docs))))) c))) c))"

text \<open>The loop of \<^verbatim>\<open>drop_index\<close> over the entries the iterator saw when it was opened.\<close>

fun drop_entries ::
    "('db, 'v, 's, 'f) env \<Rightarrow> bytes list \<Rightarrow> write_op list \<Rightarrow> nat \<Rightarrow>
     ('db, 'v, 's, 'f, write_op list \<times> nat) act" where
  "drop_entries E [] batch deleted_count c = (Inr (batch, deleted_count), c)"
| "drop_entries E (key # keys) batch deleted_count c =
     (let batch = batch @ [Del key]; deleted_count = deleted_count + 1
      in if deleted_count mod INDEX_BATCH_SIZE_LIMIT = 0
         then bind (db_write E ''Failed to write drop batch: '' batch)
                (\<lambda>_. drop_entries E keys [] deleted_count) c
         else drop_entries E keys batch deleted_count c)"

definition drop_index :: "('db, 'v, 's, 'f) env \<Rightarrow> string \<Rightarrow> ('db, 'v, 's, 'f, unit) act" where
  "drop_index E name c =
     (if get_index E name c = None
      then (Inl (InvalidDocument (''Index '' @ quoted name @ '' not found'')), c)
      else
        bind (drop_entries E (map fst (scan_while (env_db E) (coll_db c) (IDX_PREFIX @ name @ '':'')))
                [Del (idx_meta_key name)] 0) (\<lambda>(batch, deleted_count).
        if deleted_count > 0 \<or> batch \<noteq> [] then db_write E ''Failed to write final drop batch: '' batch
        else ret ()) c)"

text \<open>This scan does not stop at the end of the index; it counts what it keeps.\<close>

definition get_index_stats ::
    "('db, 'v, 's, 'f) env \<Rightarrow> string \<Rightarrow> ('db, 'v, 's, 'f) collection \<Rightarrow> index_stats option" where
  "get_index_stats E name c =
     map_option (\<lambda>i. stats_of i (length (scan_all (env_db E) (coll_db c) (IDX_PREFIX @ name @ '':''))))
       (get_index E name c)"

definition list_indexes ::
    "('db, 'v, 's, 'f) env \<Rightarrow> ('db, 'v, 's, 'f) collection \<Rightarrow> index_stats list" where
  "list_indexes E c =
     List.map_filter (\<lambda>i. get_index_stats E (ix_name i) c) (get_all_indexes E c) @
     map (\<lambda>f. \<lparr> is_name = fx_name f, is_fields = fx_fields f, is_field = first_or_default (fx_fields f),
               is_type = FulltextT, is_unique = False, is_unique_values = 0, is_indexed_documents = 0 \<rparr>)
       (get_all_fulltext_indexes E c)"

text \<open>\<^verbatim>\<open>let _ = db.write(batch)\<close>: an error is dropped.\<close>

definition write_ignore ::
    "('db, 'v, 's, 'f) env \<Rightarrow> write_op list \<Rightarrow> ('db, 'v, 's, 'f) collection \<Rightarrow> ('db, 'v, 's, 'f) collection" where
  "write_ignore E ops c = snd (db_write E [] ops c)"

section \<open>Rebuilding\<close>

definition prefix_dels ::
    "('db, 'v, 's, 'f) env \<Rightarrow> ('db, 'v, 's, 'f) collection \<Rightarrow> bytes \<Rightarrow> write_op list" where
  "prefix_dels E c pre = dels (map fst (scan_while (env_db E) (coll_db c) pre))"

definition clear_indexes ::
    "('db, 'v, 's, 'f) env \<Rightarrow> index list \<Rightarrow> geo_index list \<Rightarrow> fulltext_index list \<Rightarrow>
     ('db, 'v, 's, 'f) collection \<Rightarrow> ('db, 'v, 's, 'f) collection" where
  "clear_indexes E is gs fs c =
     write_ignore E
       (concat (map (\<lambda>i. prefix_dels E c (IDX_PREFIX @ ix_name i @ '':'')) is) @
        concat (map (\<lambda>g. prefix_dels E c (GEO_PREFIX @ gx_name g @ '':'')) gs) @
        concat (map (\<lambda>f. prefix_dels E c (FT_PREFIX @ fx_name f @ '':'') @
                         prefix_dels E c (FT_TERM_PREFIX @ fx_name f @ '':'')) fs)) c"

text \<open>Adding entries one by one to a pending batch that is written at every multiple of the limit
  (regular and geo indexes).\<close>

fun add_entries ::
    "('db, 'v, 's, 'f) env \<Rightarrow> (bytes \<times> bytes) list \<Rightarrow> write_op list \<times> nat \<Rightarrow>
     ('db, 'v, 's, 'f) collection \<Rightarrow> (write_op list \<times> nat) \<times> ('db, 'v, 's, 'f) collection" where
  "add_entries E [] pending c = (pending, c)"
| "add_entries E (e # es) (batch, count) c =
     (let batch = batch @ [Put (fst e) (snd e)]; count = count + 1
      in if count mod INDEX_BATCH_SIZE_LIMIT = 0
         then add_entries E es ([], count) (write_ignore E batch c)
         else add_entries E es (batch, count) c)"

text \<open>Full-text entries are added field by field; the batch is written once it reached the limit.\<close>

fun add_fields ::
    "('db, 'v, 's, 'f) env \<Rightarrow> (bytes \<times> bytes) list list \<Rightarrow> write_op list \<times> nat \<Rightarrow>
     ('db, 'v, 's, 'f) collection \<Rightarrow> (write_op list \<times> nat) \<times> ('db, 'v, 's, 'f) collection" where
  "add_fields E [] pending c = (pending, c)"
| "add_fields E (es # ess) (batch, count) c =
     (let batch = batch @ puts es; count = count + length es
      in if count \<ge> INDEX_BATCH_SIZE_LIMIT then add_fields E ess ([], 0) (write_ignore E batch c)
         else add_fields E ess (batch, count) c)"

text \<open>The entries of the text fields of a document, one list for each field that is a string.\<close>

definition field_entries ::
    "unicode \<Rightarrow> fulltext_index list \<Rightarrow> string \<Rightarrow> json \<Rightarrow> (bytes \<times> bytes) list list" where
  "field_entries U fs key v =
     concat (map (\<lambda>f. List.map_filter (\<lambda>field.
       map_option (\<lambda>t. map (\<lambda>k. (k, key)) (text_keys U f key t)) (as_str (extract_field_value v field)))
       (fx_fields f)) fs)"

fun rebuild_docs ::
    "('db, 'v, 's, 'f) env \<Rightarrow> index list \<Rightarrow> geo_index list \<Rightarrow> fulltext_index list \<Rightarrow> document list \<Rightarrow>
     write_op list \<times> nat \<Rightarrow> write_op list \<times> nat \<Rightarrow> write_op list \<times> nat \<Rightarrow>
     ('db, 'v, 's, 'f) collection \<Rightarrow> ('db, 'v, 's, 'f) collection" where
  "rebuild_docs E is gs fs [] regular geo ft c =
     (let c = (if snd regular > 0 \<and> snd regular mod INDEX_BATCH_SIZE_LIMIT \<noteq> 0
               then write_ignore E (fst regular) c else c);
          c = (if snd geo > 0 \<and> snd geo mod INDEX_BATCH_SIZE_LIMIT \<noteq> 0
               then write_ignore E (fst geo) c else c)
      in if snd ft > 0 then write_ignore E (fst ft) c else c)"
| "rebuild_docs E is gs fs (doc # docs) regular geo ft c =
     (let key = doc_key_of doc; v = to_value (env_doc E) doc;
          (regular, c) = add_entries E (regular_entries (env_json E) is key v) regular c;
          (geo, c) = add_entries E (geo_entries (env_json E) gs key v) geo c;
          (ft, c) = add_fields E (field_entries (env_uni E) fs key v) ft c
      in rebuild_docs E is gs fs docs regular geo ft c)"

text \<open>\<open>vec_clear\<close> empties the graph of a vector index.\<close>

definition rebuild_vectors ::
    "('db, 'v, 's, 'f) env \<Rightarrow> ('v \<Rightarrow> 'v) \<Rightarrow> ('db, 'v, 's, 'f) collection \<Rightarrow> ('db, 'v, 's, 'f) collection" where
  "rebuild_vectors E vec_clear c =
     (if get_all_vector_index_configs E c = [] then c
      else
        (let c = c\<lparr> vector_indexes := map (\<lambda>p. (fst p, vec_clear (snd p))) (vector_indexes c) \<rparr>;
             docs = oks (map (\<lambda>p. deserialize_doc (env_doc E) (snd p)) (scan_while (env_db E) (coll_db c) DOC_PREFIX));
             c = fold (\<lambda>d. update_vector_indexes_on_upsert E (doc_key_of d) (to_value (env_doc E) d)) docs c
         in snd (persist_vector_indexes E c)))"

definition rebuild_all_indexes ::
    "('db, 'v, 's, 'f) env \<Rightarrow> ('v \<Rightarrow> 'v) \<Rightarrow> ('db, 'v, 's, 'f, nat) act" where
  "rebuild_all_indexes E vec_clear c =
     (let is = get_all_indexes E c; gs = get_all_geo_indexes E c; fs = get_all_fulltext_indexes E c
      in if is = [] \<and> gs = [] \<and> fs = [] then (Inr 0, c)
         else
           (let c = clear_indexes E is gs fs c;
                docs = oks (map (\<lambda>p. deserialize_doc (env_doc E) (snd p))
                              (scan_while (env_db E) (coll_db c) DOC_PREFIX));
                c = rebuild_docs E is gs fs docs ([], 0) ([], 0) ([], 0) c
            in (Inr (length docs), rebuild_vectors E vec_clear c)))"

text \<open>Indexing given documents: one batch for each kind of index, errors dropped.\<close>

definition preload_filters ::
    "('db, 'v, 's, 'f) env \<Rightarrow> index list \<Rightarrow> ('db, 'v, 's, 'f) collection \<Rightarrow> ('db, 'v, 's, 'f) collection" where
  "preload_filters E is c =
     fold (\<lambda>i c. case ix_type i of
                   Bloom \<Rightarrow> snd (get_or_create_bloom_filter E (ix_name i) c)
                 | Cuckoo \<Rightarrow> preload_cuckoo_filter E (ix_name i) c
                 | _ \<Rightarrow> c) is c"

definition index_documents ::
    "('db, 'v, 's, 'f) env \<Rightarrow> document list \<Rightarrow> ('db, 'v, 's, 'f, nat) act" where
  "index_documents E docs c =
     (let is = get_all_indexes E c; gs = get_all_geo_indexes E c; fs = get_all_fulltext_indexes E c;
          over = (\<lambda>f. concat (map (\<lambda>d. f (doc_key_of d) (to_value (env_doc E) d)) docs))
      in if is = [] \<and> gs = [] \<and> fs = [] then (Inr 0, c)
         else
           (let c = preload_filters E is c;
                c = fold (\<lambda>(i, vs) c. if list_all is_null vs then c else feed_filter E i vs c)
                      (concat (map (\<lambda>d. map (\<lambda>i. (i, index_values i (to_value (env_doc E) d))) is) docs)) c;
                c = (if is = [] then c else write_ignore E (puts (over (regular_entries (env_json E) is))) c);
                c = (if gs = [] then c else write_ignore E (puts (over (geo_entries (env_json E) gs))) c);
                c = (if fs = [] then c else write_ignore E (puts (over (fulltext_entries (env_uni E) fs))) c)
            in (Inr (length docs), c)))"

end
