(* ===== verification/MoreIndexes.thy ===== *)
theory MoreIndexes
  imports IndexAdmin
begin

text \<open>
  Geo, full-text and TTL indexes, \<^verbatim>\<open>geo.rs\<close>, \<^verbatim>\<open>fulltext.rs\<close> and \<^verbatim>\<open>ttl.rs\<close> under
  \<^verbatim>\<open>src/storage/collection\<close>: creating, dropping and listing, the full-text search and the removal of
  expired documents. The geo queries, which compute with trigonometric functions, are not modelled.
\<close>

section \<open>Geo indexes\<close>

record geo_index_stats =
  gs_name :: string
  gs_field :: string
  gs_precision :: nat
  gs_indexed_documents :: nat
  gs_geohash_buckets :: nat

text \<open>Indexing an object with a string: null when the key is missing.\<close>

definition json_at :: "json \<Rightarrow> string \<Rightarrow> json" where
  "json_at v k = (case json_get v k of Some w \<Rightarrow> w | None \<Rightarrow> JNull)"

text \<open>The value found under the path decides whether a document is indexed; the value that is stored
  is the one of the field that has the path as its name.\<close>

fun build_geo ::
    "('db, 'v, 's, 'f) env \<Rightarrow> string \<Rightarrow> string \<Rightarrow> document list \<Rightarrow> nat \<Rightarrow> ('db, 'v, 's, 'f, nat) act" where
  "build_geo E name field [] count c = (Inr count, c)"
| "build_geo E name field (doc # docs) count c =
     (let v = to_value (env_doc E) doc
      in case as_object (extract_field_value v field) of
           Some val \<Rightarrow>
             if map_of val ''lat'' \<noteq> None \<or> map_of val ''latitude'' \<noteq> None
             then bind (db_write E ''Failed to build geo index: ''
                          [Put (geo_entry_key name (doc_key_of doc))
                               (value_to_string (env_json E) (json_at v field))])
                    (\<lambda>_. build_geo E name field docs (count + 1)) c
             else build_geo E name field docs count c
         | None \<Rightarrow> build_geo E name field docs count c)"

definition create_geo_index ::
    "('db, 'v, 's, 'f) env \<Rightarrow> string \<Rightarrow> string \<Rightarrow> ('db, 'v, 's, 'f, geo_index_stats) act" where
  "create_geo_index E name field c =
     (if get_geo_index E name c \<noteq> None
      then (Inl (InvalidDocument (''Geo Index '' @ quoted name @ '' already exists'')), c)
      else
        bind (lift (map_err JsonError (to_vec (geo_codec E)
                \<lparr> gx_name = name, gx_field = field, gx_precision = 6 \<rparr>))) (\<lambda>index_bytes.
        bind (db_write E ''Failed to create geo index: '' [Put (geo_meta_key name) index_bytes]) (\<lambda>_.
        bind (\<lambda>c. build_geo E name field (coll_all E c) 0 c) (\<lambda>count.
        ret \<lparr> gs_name = name, gs_field = field, gs_precision = 6, gs_indexed_documents = count,
              gs_geohash_buckets = 0 \<rparr>))) c)"

fun delete_each :: "('db, 'v, 's, 'f) env \<Rightarrow> string \<Rightarrow> bytes list \<Rightarrow> ('db, 'v, 's, 'f, unit) act" where
  "delete_each E msg [] c = (Inr (), c)"
| "delete_each E msg (k # ks) c = bind (db_write E msg [Del k]) (\<lambda>_. delete_each E msg ks) c"

definition drop_geo_index :: "('db, 'v, 's, 'f) env \<Rightarrow> string \<Rightarrow> ('db, 'v, 's, 'f, unit) act" where
  "drop_geo_index E name c =
     (if get_geo_index E name c = None
      then (Inl (InvalidDocument (''Geo Index '' @ quoted name @ '' not found'')), c)
      else
        bind (db_write E ''Failed to drop geo index: '' [Del (geo_meta_key name)]) (\<lambda>_. \<lambda>c.
          delete_each E ''Failed to drop geo index entry: ''
            (map fst (scan_while (env_db E) (coll_db c) (GEO_PREFIX @ name @ '':''))) c) c)"

definition list_geo_indexes ::
    "('db, 'v, 's, 'f) env \<Rightarrow> ('db, 'v, 's, 'f) collection \<Rightarrow> geo_index_stats list" where
  "list_geo_indexes E c =
     map (\<lambda>g. \<lparr> gs_name = gx_name g, gs_field = gx_field g, gs_precision = gx_precision g,
                gs_indexed_documents = length (scan_while (env_db E) (coll_db c) (GEO_PREFIX @ gx_name g @ '':'')),
                gs_geohash_buckets = 0 \<rparr>) (get_all_geo_indexes E c)"

section \<open>Full-text indexes\<close>

definition get_fulltext_index_for_field ::
    "('db, 'v, 's, 'f) env \<Rightarrow> string \<Rightarrow> ('db, 'v, 's, 'f) collection \<Rightarrow> fulltext_index option" where
  "get_fulltext_index_for_field E field c =
     List.find (\<lambda>f. field \<in> set (fx_fields f)) (get_all_fulltext_indexes E c)"

definition default_min_length :: nat where "default_min_length = 3"

text \<open>The number of text fields indexed so far decides when the batch is written, between documents.\<close>

fun build_fulltext ::
    "('db, 'v, 's, 'f) env \<Rightarrow> fulltext_index \<Rightarrow> document list \<Rightarrow> write_op list \<Rightarrow> nat \<Rightarrow>
     ('db, 'v, 's, 'f, unit) act" where
  "build_fulltext E f [] batch count c =
     (if count > 0 then db_write E ''Failed to build fulltext index: '' batch c else (Inr (), c))"
| "build_fulltext E f (doc # docs) batch count c =
     (let per_field = field_entries (env_uni E) [f] (doc_key_of doc) (to_value (env_doc E) doc);
          batch = batch @ puts (concat per_field);
          count = count + length per_field
      in if count > 1000
         then bind (db_write E ''Failed to build fulltext index: '' batch)
                (\<lambda>_. build_fulltext E f docs [] 0) c
         else build_fulltext E f docs batch count c)"

definition create_fulltext_index ::
    "('db, 'v, 's, 'f) env \<Rightarrow> string \<Rightarrow> string list \<Rightarrow> nat option \<Rightarrow> ('db, 'v, 's, 'f, unit) act" where
  "create_fulltext_index E name flds min_length c =
     (let ml = (case min_length of Some n \<Rightarrow> n | None \<Rightarrow> default_min_length);
          f = \<lparr> fx_name = name, fx_fields = flds, fx_min_length = ml \<rparr>
      in if get_fulltext_index E name c \<noteq> None
         then (Inl (InvalidDocument (''Fulltext Index '' @ quoted name @ '' already exists'')), c)
         else
           bind (lift (map_err JsonError (to_vec (ft_codec E) f))) (\<lambda>index_bytes.
           bind (db_write E ''Failed to create fulltext index: '' [Put (ft_meta_key name) index_bytes]) (\<lambda>_.
           \<lambda>c. build_fulltext E f (coll_all E c) [] 0 c)) c)"

text \<open>The deletions of one prefix, added to the pending batch.\<close>

fun drop_terms ::
    "('db, 'v, 's, 'f) env \<Rightarrow> bytes list \<Rightarrow> write_op list \<Rightarrow> nat \<Rightarrow>
     ('db, 'v, 's, 'f, write_op list \<times> nat) act" where
  "drop_terms E [] batch count c = (Inr (batch, count), c)"
| "drop_terms E (key # keys) batch count c =
     (let batch = batch @ [Del key]; count = count + 1
      in if count > 1000
         then bind (db_write E ''Failed to drop fulltext entries: '' batch) (\<lambda>_. drop_terms E keys [] 0) c
         else drop_terms E keys batch count c)"

definition drop_fulltext_index :: "('db, 'v, 's, 'f) env \<Rightarrow> string \<Rightarrow> ('db, 'v, 's, 'f, unit) act" where
  "drop_fulltext_index E name c =
     (if get_fulltext_index E name c = None
      then (Inl (InvalidDocument (''Fulltext Index '' @ quoted name @ '' not found'')), c)
      else
        bind (db_write E ''Failed to drop fulltext index: '' [Del (ft_meta_key name)]) (\<lambda>_.
        bind (\<lambda>c. drop_terms E (map fst (scan_while (env_db E) (coll_db c) (FT_PREFIX @ name @ '':''))) [] 0 c)
          (\<lambda>(batch, count).
        bind (\<lambda>c. drop_terms E (map fst (scan_while (env_db E) (coll_db c) (FT_TERM_PREFIX @ name @ '':'')))
                     batch count c) (\<lambda>(batch, count).
        if count > 0 then db_write E ''Failed to drop fulltext entries: '' batch else ret ()))) c)"

record fulltext_match =
  fm_doc_key :: string
  fm_score :: nat

text \<open>The key of a document is taken to be the last part of an entry's key.\<close>

definition candidate_key :: "('db, 'v, 's, 'f) env \<Rightarrow> bytes \<Rightarrow> string" where
  "candidate_key E key = last (split_on (CHR '':'') (from_utf8_lossy E key))"

definition candidates ::
    "('db, 'v, 's, 'f) env \<Rightarrow> fulltext_index list \<Rightarrow> string list \<Rightarrow> ('db, 'v, 's, 'f) collection \<Rightarrow>
     string list" where
  "candidates E fs query_terms c =
     remdups (concat (map (\<lambda>f. concat (map (\<lambda>term.
       if length term \<ge> fx_min_length f
       then map (\<lambda>p. candidate_key E (fst p))
              (scan_while (env_db E) (coll_db c) (FT_TERM_PREFIX @ fx_name f @ '':'' @ term @ '':''))
       else []) query_terms)) fs))"

definition term_score :: "string \<Rightarrow> string \<Rightarrow> nat" where
  "term_score q d =
     (let dist = levenshtein_distance q d in if dist = 0 then 10 else if dist \<le> 2 then 5 else 0)"

definition field_score :: "unicode \<Rightarrow> string list \<Rightarrow> string \<Rightarrow> nat" where
  "field_score U query_terms t =
     sum_list (concat (map (\<lambda>q. map (term_score q) (tokenize U t)) query_terms))"

definition best_score ::
    "unicode \<Rightarrow> fulltext_index list \<Rightarrow> string list option \<Rightarrow> string list \<Rightarrow> json \<Rightarrow> nat" where
  "best_score U fs flds query_terms v =
     fold (\<lambda>field best.
       if (case flds of Some ff \<Rightarrow> field \<notin> set ff | None \<Rightarrow> False) then best
       else case as_str (extract_field_value v field) of
              Some t \<Rightarrow> max best (field_score U query_terms t)
            | None \<Rightarrow> best)
       (concat (map fx_fields fs)) 0"

text \<open>The candidates come out of a hash map in an order the argument \<open>shuffle\<close> decides; the sort by
  score is stable. A score is a small integer, which its double represents exactly.\<close>

definition fulltext_search ::
    "('db, 'v, 's, 'f) env \<Rightarrow> (string list \<Rightarrow> string list) \<Rightarrow> string \<Rightarrow> string list option \<Rightarrow> nat \<Rightarrow>
     ('db, 'v, 's, 'f) collection \<Rightarrow> fulltext_match list" where
  "fulltext_search E shuffle query flds limit c =
     (let fs = (case flds of
                  Some target \<Rightarrow> filter (\<lambda>f. list_ex (\<lambda>x. x \<in> set target) (fx_fields f)) (get_all_fulltext_indexes E c)
                | None \<Rightarrow> get_all_fulltext_indexes E c);
          query_terms = tokenize (env_uni E) query
      in if fs = [] \<or> query_terms = [] then []
         else
           take limit (sort_key (\<lambda>m. - int (fm_score m))
             (List.map_filter (\<lambda>key.
                case coll_get E key c of
                  Inr doc \<Rightarrow>
                    (let score = best_score (env_uni E) fs flds query_terms (to_value (env_doc E) doc)
                     in if score > 0 then Some \<lparr> fm_doc_key = key, fm_score = score \<rparr> else None)
                | Inl _ \<Rightarrow> None) (shuffle (candidates E fs query_terms c)))))"

section \<open>TTL indexes\<close>

definition create_ttl_index ::
    "('db, 'v, 's, 'f) env \<Rightarrow> string \<Rightarrow> string \<Rightarrow> u64 \<Rightarrow> ('db, 'v, 's, 'f, ttl_index) act" where
  "create_ttl_index E name field expire_after_seconds c =
     (let t = \<lparr> tx_name = name, tx_field = field, tx_expire_after = expire_after_seconds \<rparr>
      in if get_ttl_index E name c \<noteq> None
         then (Inl (InvalidDocument (''TTL Index '' @ quoted name @ '' already exists'')), c)
         else
           bind (lift (map_err JsonError (to_vec (ttl_codec E) t))) (\<lambda>index_bytes.
           bind (db_write E ''Failed to create TTL index: '' [Put (ttl_meta_key name) index_bytes]) (\<lambda>_.
           ret t)) c)"

definition drop_ttl_index :: "('db, 'v, 's, 'f) env \<Rightarrow> string \<Rightarrow> ('db, 'v, 's, 'f, unit) act" where
  "drop_ttl_index E name c =
     (if get_ttl_index E name c = None
      then (Inl (InvalidDocument (''TTL Index '' @ quoted name @ '' not found'')), c)
      else db_write E ''Failed to drop TTL index: '' [Del (ttl_meta_key name)] c)"

definition list_ttl_indexes :: "('db, 'v, 's, 'f) env \<Rightarrow> ('db, 'v, 's, 'f) collection \<Rightarrow> ttl_index list" where
  "list_ttl_indexes E c = get_all_ttl_indexes E c"

text \<open>The time and the document key in an expiry entry: what stands before and after the first colon
  behind the prefix. An entry without a time is skipped.\<close>

definition parse_expiry :: "('db, 'v, 's, 'f) env \<Rightarrow> bytes \<Rightarrow> bytes \<Rightarrow> (u64 \<times> string) option" where
  "parse_expiry E pre key =
     (let after_prefix = drop (length pre) key;
          ts = takeWhile (\<lambda>b. b \<noteq> CHR '':'') after_prefix
      in if ts = [] \<or> ts = after_prefix then None
         else map_option (\<lambda>expiry_ts. (expiry_ts, from_utf8_lossy E (drop (length ts + 1) after_prefix)))
                (parse_u64 (from_utf8_lossy E ts)))"

text \<open>The scan ends at the first entry that has not expired.\<close>

fun expired_entries ::
    "('db, 'v, 's, 'f) env \<Rightarrow> u64 \<Rightarrow> bytes \<Rightarrow> (bytes \<times> bytes) list \<Rightarrow> (string \<times> bytes) list" where
  "expired_entries E now pre [] = []"
| "expired_entries E now pre (p # ps) =
     (case parse_expiry E pre (fst p) of
        Some (expiry_ts, key) \<Rightarrow> if expiry_ts \<le> now then (key, fst p) # expired_entries E now pre ps else []
      | None \<Rightarrow> expired_entries E now pre ps)"

text \<open>1000 documents with their expiry entries in one batch. The conversion of a store error is the
  one of \<^verbatim>\<open>From<rocksdb::Error>\<close>.\<close>

fun delete_expired ::
    "('db, 'v, 's, 'f) env \<Rightarrow> nat \<Rightarrow> (string \<times> bytes) list \<Rightarrow> nat \<Rightarrow> ('db, 'v, 's, 'f, nat) act" where
  "delete_expired E 0 expired deleted_count c = (Inr deleted_count, c)"
| "delete_expired E (Suc n) expired deleted_count c =
     (if expired = [] then (Inr deleted_count, c)
      else
        (let chunk = take 1000 expired
         in bind (db_write E [] (concat (map (\<lambda>(key, e). [Del (doc_key key), Del e]) chunk)))
              (\<lambda>_. delete_expired E n (drop 1000 expired) (deleted_count + length chunk)) c))"

definition cleanup_expired_documents_for_ttl_index ::
    "('db, 'v, 's, 'f) env \<Rightarrow> u64 \<Rightarrow> ttl_index \<Rightarrow> ('db, 'v, 's, 'f, nat) act" where
  "cleanup_expired_documents_for_ttl_index E now t c =
     (let pre = ttl_expiry_prefix (tx_name t);
          expired = expired_entries E now pre (scan_while (env_db E) (coll_db c) pre)
      in delete_expired E (length expired) expired 0 c)"

fun cleanup_all ::
    "('db, 'v, 's, 'f) env \<Rightarrow> u64 \<Rightarrow> ttl_index list \<Rightarrow> nat \<Rightarrow> ('db, 'v, 's, 'f, nat) act" where
  "cleanup_all E now [] total_deleted c = (Inr total_deleted, c)"
| "cleanup_all E now (t # ts) total_deleted c =
     bind (cleanup_expired_documents_for_ttl_index E now t) (\<lambda>n. cleanup_all E now ts (total_deleted + n)) c"

definition cleanup_all_expired_documents :: "('db, 'v, 's, 'f) env \<Rightarrow> u64 \<Rightarrow> ('db, 'v, 's, 'f, nat) act" where
  "cleanup_all_expired_documents E now c = cleanup_all E now (get_all_ttl_indexes E c) 0 c"

end
