(* ===== verification/IndexBuild.thy ===== *)
theory IndexBuild
  imports IndexAdmin
begin

text \<open>
  An index that is created on a collection with documents holds exactly the entries of the
  documents afterwards, whatever the batches it was written in; an index that is dropped leaves
  nothing behind.
\<close>

section \<open>Writing in batches\<close>

lemma feed_filter_keeps: "keeps_db c (feed_filter E i vs c)"
proof -
  have b: "keeps_db c (bloom_insert E n x c)" for n x c
    by (simp add: bloom_insert_def get_or_create_bloom_filter_def keeps_db_def Let_def split: option.splits)
  have k: "keeps_db c (cuckoo_insert E n x c)" for n x c
    by (simp add: cuckoo_insert_def cuckoo_modify_def preload_cuckoo_filter_def keeps_db_def Let_def
        split: option.splits)
  show ?thesis
    by (cases "ix_type i") (simp_all add: feed_filter_def, (intro keeps_db_fold b k)+)
qed

definition entries_of :: "('db, 'v, 's, 'f) env \<Rightarrow> index \<Rightarrow> document list \<Rightarrow> (bytes \<times> bytes) list" where
  "entries_of E i docs =
     concat (map (\<lambda>d. regular_entries (env_json E) [i] (doc_key_of d) (to_value (env_doc E) d)) docs)"

lemma entries_of_Cons:
  "entries_of E i (d # docs) =
     (if list_all is_null (index_values i (to_value (env_doc E) d)) then []
      else [(idx_entry_key (env_json E) (ix_name i) (index_values i (to_value (env_doc E) d)) (doc_key_of d),
             doc_key_of d)]) @ entries_of E i docs"
  by (simp add: entries_of_def regular_entries_def)

lemma db_write_look:
  assumes "rocks_ok (env_db E) V" "db_write E msg ops c = (Inr u, c')"
  shows "look V c' = apply_ops ops (look V c)" "coll_name c' = coll_name c"
    "collection_type c' = collection_type c" "doc_count c' = doc_count c" "changes c' = changes c"
  using assms(2) rocks_okD(3) [OF assms(1)] by (auto simp: db_write_Inr_iff)

lemma build_index_ok:
  assumes "rocks_ok (env_db E) V" "build_index E i docs batch n c = (Inr (batch', n'), c')"
    "n mod INDEX_BATCH_SIZE_LIMIT = 0 \<Longrightarrow> batch = []"
  shows "(n' mod INDEX_BATCH_SIZE_LIMIT = 0 \<longrightarrow> batch' = []) \<and>
    apply_ops batch' (look V c') = apply_ops (batch @ puts (entries_of E i docs)) (look V c) \<and>
    doc_count c' = doc_count c \<and> changes c' = changes c"
  using assms(2,3)
proof (induction docs arbitrary: batch n c)
  case (Cons d docs)
  let ?vs = "index_values i (to_value (env_doc E) d)"
  let ?c = "feed_filter E i ?vs c"
  let ?op = "Put (idx_entry_key (env_json E) (ix_name i) ?vs (doc_key_of d)) (doc_key_of d)"
  have k: "coll_db ?c = coll_db c" "doc_count ?c = doc_count c" "changes ?c = changes c"
    using feed_filter_keeps [of c E i ?vs] by (simp_all add: keeps_db_def)
  consider (null) "list_all is_null ?vs" | (flush) "\<not> list_all is_null ?vs" "(n + 1) mod INDEX_BATCH_SIZE_LIMIT = 0" |
    (add) "\<not> list_all is_null ?vs" "(n + 1) mod INDEX_BATCH_SIZE_LIMIT \<noteq> 0" by blast
  then show ?case
  proof cases
    case null
    then show ?thesis using Cons.IH [of batch n c] Cons.prems by (simp add: entries_of_Cons)
  next
    case flush
    with Cons.prems(1) obtain c1 where
      w: "db_write E ''Failed to write index batch: '' (batch @ [?op]) ?c = (Inr (), c1)" and
      r: "build_index E i docs [] (n + 1) c1 = (Inr (batch', n'), c')"
      by (auto simp: Let_def bind_Inr_iff)
    note w = db_write_look [OF assms(1) w]
    from Cons.IH [OF r] w k show ?thesis
      using flush(1) by (simp add: entries_of_Cons apply_ops_append puts_def fun_upd_def)
  next
    case add
    with Cons.prems(1) have "build_index E i docs (batch @ [?op]) (n + 1) ?c = (Inr (batch', n'), c')"
      by (simp add: Let_def)
    from Cons.IH [OF this] add k show ?thesis by (simp add: entries_of_Cons apply_ops_append puts_def)
  qed
qed (simp add: entries_of_def puts_def)

lemma core_key_bloom: "\<not> core_key (BLO_IDX_PREFIX @ n)"
  by (simp add: core_key_def BLO_IDX_PREFIX_def idx_ns_def geo_ns_def ft_ns_def meta_ns_def prefix_defs)

lemma save_filter_ok:
  assumes "rocks_ok (env_db E) V" "save_filter E i c = (Inr u, c')"
  shows "same_core V c c'" "doc_count c' = doc_count c" "changes c' = changes c"
proof -
  have "same_core V c c' \<and> doc_count c' = doc_count c \<and> changes c' = changes c"
  proof (cases "c' = c")
    case False
    with assms(2) obtain b where "db_write E '''' [Put (BLO_IDX_PREFIX @ ix_name i) b] c = (Inr u, c')"
      by (auto simp: save_filter_def save_bloom_filter_def save_cuckoo_filter_def
          split: index_type.splits option.splits sum.splits)
    from db_write_look [OF assms(1) this] show ?thesis by (auto simp: same_core_def core_key_bloom)
  qed simp
  then show "same_core V c c'" "doc_count c' = doc_count c" "changes c' = changes c" by blast+
qed

section \<open>What the steps read\<close>

lemma set_map_filter: "set (List.map_filter f xs) = {y. \<exists>x \<in> set xs. f x = Some y}"
  by (force simp: List.map_filter_def)

lemma set_read_meta:
  assumes "rocks_ok (env_db E) V"
  shows "x \<in> set (read_meta E C pre c) \<longleftrightarrow>
    (\<exists>b v. starts_with b pre \<and> look V c b = Some v \<and> from_slice C v = Some x)"
proof -
  have "x \<in> set (read_meta E C pre c) \<longleftrightarrow>
      (\<exists>p \<in> set (V (coll_db c)). starts_with (fst p) pre \<and> from_slice C (snd p) = Some x)"
    by (simp add: read_meta_def scan_eq [OF assms] set_map_filter Bex_def conj_assoc)
  also have "\<dots> \<longleftrightarrow> (\<exists>b v. (b, v) \<in> set (V (coll_db c)) \<and> starts_with b pre \<and> from_slice C v = Some x)"
    by (simp add: Bex_def)
  finally show ?thesis
    using smap_in_iff [OF rocks_okD(1) [OF assms]] by blast
qed

text \<open>A scan of all documents sees the abstract documents; the expiry entries between them are empty
  and do not parse.\<close>

lemma coll_all_ran:
  assumes "rocks_ok (env_db E) V" "docs_ok (env_doc E) (look V c)"
    "\<And>b w. ttl_ns b \<Longrightarrow> look V c b = Some w \<Longrightarrow> w = []"
  shows "set (coll_all E c) = ran (coll_docs E V c)"
proof (intro set_eqI)
  fix d
  note sm = smap_in_iff [OF rocks_okD(1) [OF assms(1)]]
  have ok: "key_ok k" if "look V c (doc_key k) = Some w" "deserialize_doc (env_doc E) w = Inr d" for k w
  proof (rule ccontr)
    assume "\<not> key_ok k"
    then have "w = []" using assms(3) [OF _ that(1)] doc_key_ns(4) by blast
    with that(2) show False by (simp add: deserialize_doc_def)
  qed
  have "d \<in> set (coll_all E c) \<longleftrightarrow>
      (\<exists>p \<in> set (V (coll_db c)). starts_with (fst p) DOC_PREFIX \<and> deserialize_doc (env_doc E) (snd p) = Inr d)"
    by (simp add: coll_all_def coll_scan_def scan_eq [OF assms(1)] set_map_filter Bex_def conj_assoc)
  also have "\<dots> \<longleftrightarrow> (\<exists>k w. look V c (doc_key k) = Some w \<and> deserialize_doc (env_doc E) w = Inr d)"
    by (auto simp: Bex_def sm doc_key_def starts_with_iff)
  also have "\<dots> \<longleftrightarrow> (\<exists>k w. key_ok k \<and> look V c (doc_key k) = Some w \<and> deserialize_doc (env_doc E) w = Inr d)"
    using ok by blast
  also have "\<dots> \<longleftrightarrow> d \<in> ran (coll_docs E V c)"
    by (auto simp: ran_def coll_docs_def docs_map_def res_ok_Some_iff split: if_splits option.splits)
  finally show "d \<in> set (coll_all E c) \<longleftrightarrow> d \<in> ran (coll_docs E V c)" .
qed

lemma inv_ttl_empty:
  assumes "coll_inv E V c" "ttl_ns b" "look V c b = Some w"
  shows "w = []"
proof -
  have "family_agrees ttl_ns (ttl_entries (parse_rfc3339 E) (get_all_ttl_indexes E c)) (look V c)
      (vals_map (env_doc E) (look V c))"
    using assms(1) by (simp add: coll_inv_def inv_map_def indexes_agree_def cfgs_of_def)
  from family_agreesD [OF this assms(2)] assms(3) obtain k d where
    "(b, w) \<in> set (ttl_entries (parse_rfc3339 E) (get_all_ttl_indexes E c) k d)" by blast
  then show ?thesis by (auto simp: ttl_keys_entries)
qed

section \<open>Creating an index\<close>

definition new_index :: "string \<Rightarrow> string list \<Rightarrow> index_type \<Rightarrow> bool \<Rightarrow> index" where
  "new_index name flds ty u = \<lparr> ix_name = name, ix_fields = flds, ix_type = ty, ix_unique = u \<rparr>"

lemma create_index_ok:
  assumes "rocks_ok (env_db E) V" "create_index E name flds ty u c = (Inr st, c')"
  obtains b c1 c2 where "get_index E name c = None" "to_vec (idx_codec E) (new_index name flds ty u) = Inr b"
    "look V c1 = (look V c)(idx_meta_key name \<mapsto> b)" "coll_name c1 = coll_name c"
    "look V c2 = apply_ops (puts (entries_of E (new_index name flds ty u) (coll_all E c1))) (look V c1)"
    "same_core V c2 c'" "doc_count c' = doc_count c" "changes c' = changes c"
    "is_indexed_documents st = length (coll_all E c1)"
proof -
  let ?i = "new_index name flds ty u"
  have g: "get_index E name c = None" using assms(2) by (auto simp: create_index_def split: if_splits)
  from assms(2) obtain b c1 batch n c2 c3 where
    b: "to_vec (idx_codec E) ?i = Inr b" and
    w1: "db_write E ''Failed to create index: '' [Put (idx_meta_key name) b] c = (Inr (), c1)" and
    bl: "build_index E ?i (coll_all E c1) [] 0 c1 = (Inr (batch, n), c2)" and
    w2: "(if n > 0 \<and> n mod INDEX_BATCH_SIZE_LIMIT \<noteq> 0
          then db_write E ''Failed to write final index batch: '' batch else ret ()) c2 = (Inr (), c3)" and
    sv: "save_filter E ?i c3 = (Inr (), c')" and st: "st = stats_of ?i (length (coll_all E c1))"
    by (auto simp: create_index_def g bind_Inr_iff Let_def simp flip: new_index_def)
  note l1 = db_write_look [OF assms(1) w1]
  note l2 = build_index_ok [OF assms(1) bl]
  have l3: "look V c3 = apply_ops batch (look V c2) \<and> doc_count c3 = doc_count c2 \<and> changes c3 = changes c2"
  proof (cases "n > 0 \<and> n mod INDEX_BATCH_SIZE_LIMIT \<noteq> 0")
    case True
    show ?thesis using db_write_look [OF assms(1) w2 [unfolded if_P [OF True]]] by simp
  next
    case False
    then have "batch = []" using l2 by (cases "n = 0") auto
    moreover have "c3 = c2" using w2 unfolding if_not_P [OF False] by (simp add: ret_def)
    ultimately show ?thesis by simp
  qed
  note l4 = save_filter_ok [OF assms(1) sv]
  show ?thesis
    by (rule that [OF g b, of c1 c3]) (use l1 l2 l3 l4 st in \<open>simp_all add: stats_of_def\<close>)
qed

lemma in_entries_of:
  "(b, w) \<in> set (entries_of E i docs) \<longleftrightarrow>
   (\<exists>d \<in> set docs. w = doc_key_of d \<and> \<not> list_all is_null (index_values i (to_value (env_doc E) d)) \<and>
      b = idx_entry_key (env_json E) (ix_name i) (index_values i (to_value (env_doc E) d)) w)"
  by (auto simp: entries_of_def in_regular_entries)

lemma regular_entries_union:
  "set is' = insert i (set is) \<Longrightarrow>
   (b, w) \<in> set (regular_entries S is' k v) \<longleftrightarrow>
   (b, w) \<in> set (regular_entries S [i] k v) \<or> (b, w) \<in> set (regular_entries S is k v)"
  by (auto simp: in_regular_entries)

text \<open>The family of entries grows by the entries of the new index, which meet no old entry.\<close>

lemma family_grows:
  assumes ok: "regular_ok is" "name_ok (ix_name i)" and new: "\<forall>j \<in> set is. ix_name j \<noteq> ix_name i"
    and old: "family_agrees idx_ns (regular_entries (env_json E) is) m D" and is': "set is' = insert i (set is)"
    and docs: "\<And>k v. D k = Some v \<longleftrightarrow> (\<exists>d \<in> set docs. doc_key_of d = k \<and> to_value (env_doc E) d = v)"
  shows "family_agrees idx_ns (regular_entries (env_json E) is') (apply_ops (puts (entries_of E i docs)) m) D"
  unfolding family_agrees_def
proof (intro allI impI)
  fix b w assume ns: "idx_ns b"
  let ?X = "set (entries_of E i docs)"
  have X: "(b, w) \<in> ?X \<longleftrightarrow> (\<exists>k v. D k = Some v \<and> (b, w) \<in> set (regular_entries (env_json E) [i] k v))" for w
    unfolding in_entries_of docs by (auto simp: in_regular_entries)
  have disj: "m b = None" if "(b, w) \<in> ?X" for w
  proof (rule ccontr)
    assume "m b \<noteq> None"
    then obtain w' where "m b = Some w'" by blast
    with family_agreesD [OF old ns] obtain k v where
      "(b, w') \<in> set (regular_entries (env_json E) is k v)" by blast
    with that ok new show False
      by (auto simp: in_entries_of in_regular_entries regular_ok_def list_all_iff dest!: idx_entry_key_inject)
  qed
  have fn: "w' = w" if "(b, w) \<in> ?X" "(b, w') \<in> ?X" for w w'
    using that ok(2) by (auto simp: in_entries_of dest!: idx_entry_key_inject)
  have "apply_ops (puts (entries_of E i docs)) m b = Some w \<longleftrightarrow> (b, w) \<in> ?X \<or> m b = Some w"
  proof (cases "b \<in> fst ` ?X")
    case True
    then obtain w0 where w0: "(b, w0) \<in> ?X" by auto
    from apply_puts [OF this] fn [OF w0] have "apply_ops (puts (entries_of E i docs)) m b = Some w0" by blast
    moreover have "(b, w) \<in> ?X \<longleftrightarrow> w0 = w" using w0 fn [OF w0, of w] by blast
    ultimately show ?thesis using disj [OF w0] by simp
  next
    case False
    then have "(b, w) \<notin> ?X" by force
    then show ?thesis using apply_puts_notin [OF False] by simp
  qed
  then show "apply_ops (puts (entries_of E i docs)) m b = Some w \<longleftrightarrow>
      (\<exists>k v. D k = Some v \<and> (b, w) \<in> set (regular_entries (env_json E) is' k v))"
    unfolding X regular_entries_union [OF is'] family_agreesD [OF old ns] by blast
qed

lemma get_index_look:
  "rocks_ok (env_db E) V \<Longrightarrow>
   get_index E name c = (case look V c (idx_meta_key name) of Some b \<Rightarrow> from_slice (idx_codec E) b | None \<Rightarrow> None)"
  by (simp add: get_index_def get_meta_def rocks_okD(2))

lemma idx_meta_ns: "meta_ns (idx_meta_key n)" "starts_with (idx_meta_key n) IDX_META_PREFIX"
  "\<not> starts_with (idx_meta_key n) GEO_META_PREFIX" "\<not> starts_with (idx_meta_key n) FT_META_PREFIX"
  "\<not> starts_with (idx_meta_key n) TTL_META_PREFIX" "idx_meta_key n \<noteq> doc_key k"
  by (simp_all add: meta_ns_def idx_meta_key_def doc_key_def prefix_defs)

text \<open>The metadata after the new index is stored.\<close>

lemma created_cfgs:
  assumes "rocks_ok (env_db E) V" "from_slice (idx_codec E) b = Some i" "get_index E name c = None"
    "\<And>k. meta_ns k \<Longrightarrow> look V c' k = ((look V c)(idx_meta_key name \<mapsto> b)) k"
  shows "set (get_all_indexes E c') = insert i (set (get_all_indexes E c))"
    "get_all_geo_indexes E c' = get_all_geo_indexes E c"
    "get_all_fulltext_indexes E c' = get_all_fulltext_indexes E c"
    "get_all_ttl_indexes E c' = get_all_ttl_indexes E c"
proof -
  have m: "look V c' k = (if k = idx_meta_key name then Some b else look V c k)"
    if "starts_with k pre" "pre \<in> {IDX_META_PREFIX, GEO_META_PREFIX, FT_META_PREFIX, TTL_META_PREFIX}" for k pre
  proof -
    have "meta_ns k" using that by (auto simp: meta_ns_def)
    then show ?thesis using assms(4) by simp
  qed
  have none: "from_slice (idx_codec E) v \<noteq> Some x" if "look V c (idx_meta_key name) = Some v" for v x
    using assms(3) that by (simp add: get_index_look [OF assms(1)])
  show "set (get_all_indexes E c') = insert i (set (get_all_indexes E c))"
    unfolding get_all_indexes_def set_eq_iff insert_iff set_read_meta [OF assms(1)]
  proof (intro allI iffI; elim exE conjE disjE)
    fix x k v
    assume k: "starts_with k IDX_META_PREFIX" "look V c' k = Some v" "from_slice (idx_codec E) v = Some x"
    with m [OF k(1)] assms(2) show "x = i \<or> (\<exists>k v. starts_with k IDX_META_PREFIX \<and> look V c k = Some v \<and>
        from_slice (idx_codec E) v = Some x)" by (cases "k = idx_meta_key name") auto
  next
    fix x assume "x = i"
    with m [OF idx_meta_ns(2)] assms(2) show "\<exists>k v. starts_with k IDX_META_PREFIX \<and> look V c' k = Some v \<and>
        from_slice (idx_codec E) v = Some x"
      by (intro exI [of _ "idx_meta_key name"] exI [of _ b]) (simp add: idx_meta_ns(2))
  next
    fix x k v
    assume k: "starts_with k IDX_META_PREFIX" "look V c k = Some v" "from_slice (idx_codec E) v = Some x"
    then have "k \<noteq> idx_meta_key name" using none by auto
    with k m [OF k(1)] show "\<exists>k v. starts_with k IDX_META_PREFIX \<and> look V c' k = Some v \<and>
        from_slice (idx_codec E) v = Some x" by (intro exI [of _ k] exI [of _ v]) simp
  qed
  show "get_all_geo_indexes E c' = get_all_geo_indexes E c"
    "get_all_fulltext_indexes E c' = get_all_fulltext_indexes E c"
    "get_all_ttl_indexes E c' = get_all_ttl_indexes E c"
    unfolding get_all_geo_indexes_def get_all_fulltext_indexes_def get_all_ttl_indexes_def
    by (rule read_meta_cong [OF assms(1)], use m idx_meta_ns(3-5) in fastforce)+
qed

lemma entries_of_ns: "b \<in> fst ` set (entries_of E i docs) \<Longrightarrow> idx_ns b"
  by (auto simp: in_entries_of entry_ns)

text \<open>Writing index entries and the metadata changes only their own keys.\<close>

lemma built_look:
  assumes "look V c1 = (look V c)(idx_meta_key name \<mapsto> b)"
    "look V c2 = apply_ops (puts (entries_of E i docs)) (look V c1)" "\<not> idx_ns k"
  shows "look V c2 k = (if k = idx_meta_key name then Some b else look V c k)"
proof -
  have "k \<notin> fst ` set (entries_of E i docs)" using entries_of_ns assms(3) by blast
  from apply_puts_notin [OF this] show ?thesis unfolding assms(2) by (simp add: assms(1))
qed

lemma not_meta_ns: "geo_ns k \<Longrightarrow> k \<noteq> idx_meta_key n" "ft_ns k \<Longrightarrow> k \<noteq> idx_meta_key n"
  "ttl_ns k \<Longrightarrow> k \<noteq> idx_meta_key n" "idx_ns k \<Longrightarrow> k \<noteq> idx_meta_key n"
  using meta_ns_disjoint(1) [OF idx_meta_ns(1), of n] by auto

lemma inv_docs_scan:
  assumes "rocks_ok (env_db E) V" "coll_inv E V c" "look V c1 = (look V c)(idx_meta_key name \<mapsto> b)"
  shows "set (coll_all E c1) = ran (coll_docs E V c)"
proof -
  have "look V c1 (doc_key k) = look V c (doc_key k)" for k
    using assms(3) idx_meta_ns(6) by (metis fun_upd_other)
  then have "docs_ok (env_doc E) (look V c1)" "coll_docs E V c1 = coll_docs E V c"
    using assms(2) by (simp_all add: docs_ok_def coll_inv_def inv_map_def coll_docs_def docs_map_def fun_eq_iff)
  moreover have "w = []" if "ttl_ns k" "look V c1 k = Some w" for k w
    using that inv_ttl_empty [OF assms(2) that(1)] not_meta_ns(3) [OF that(1), of name] assms(3) by simp
  ultimately show ?thesis using coll_all_ran [OF assms(1)] by metis
qed

lemma inv_vals:
  assumes "rocks_ok (env_db E) V" "coll_inv E V c" "set docs = ran (coll_docs E V c)"
  shows "vals_map (env_doc E) (look V c) k = Some v \<longleftrightarrow>
    (\<exists>d \<in> set docs. doc_key_of d = k \<and> to_value (env_doc E) d = v)"
  using stored_key [OF assms(1,2)] unfolding assms(3)
  by (auto simp: vals_map_def ran_def simp flip: coll_docs_def)

lemma created_inv:
  assumes "rocks_ok (env_db E) V" "coll_inv E V c" "name_ok (ix_name i)"
    "\<forall>j \<in> set (get_all_indexes E c). ix_name j \<noteq> ix_name i" "from_slice (idx_codec E) b = Some i"
    "get_index E (ix_name i) c = None" "look V c1 = (look V c)(idx_meta_key (ix_name i) \<mapsto> b)"
    "look V c2 = apply_ops (puts (entries_of E i (coll_all E c1))) (look V c1)"
  shows "coll_inv E V c2" "coll_docs E V c2 = coll_docs E V c"
    "set (get_all_indexes E c2) = insert i (set (get_all_indexes E c))"
proof -
  note l2 = built_look [OF assms(7,8)]
  have meta: "look V c2 k = ((look V c)(idx_meta_key (ix_name i) \<mapsto> b)) k" if "meta_ns k" for k
    using l2 meta_ns_disjoint(1) [OF that] by simp
  note cfg = created_cfgs [OF assms(1,5,6) meta]
  have docs: "look V c2 (doc_key k) = look V c (doc_key k)" for k
    using l2 [OF doc_key_ns(1)] idx_meta_ns(6) [of "ix_name i" k] by simp
  have vals: "vals_map (env_doc E) (look V c2) = vals_map (env_doc E) (look V c)"
    by (simp add: vals_map_def docs_map_def docs fun_eq_iff)
  have inv: "regular_ok (get_all_indexes E c)"
    "family_agrees idx_ns (regular_entries (env_json E) (get_all_indexes E c)) (look V c)
       (vals_map (env_doc E) (look V c))"
    using assms(2) by (simp_all add: coll_inv_def inv_map_def cfgs_ok_def indexes_agree_def cfgs_of_def)
  have old: "family_agrees idx_ns (regular_entries (env_json E) (get_all_indexes E c)) (look V c1)
       (vals_map (env_doc E) (look V c))"
    using inv(2) not_meta_ns(4) by (subst family_agrees_cong [where m' = "look V c"]) (auto simp: assms(7))
  have idx: "family_agrees idx_ns (regular_entries (env_json E) (get_all_indexes E c2)) (look V c2)
       (vals_map (env_doc E) (look V c2))"
    unfolding vals unfolding assms(8)
    by (rule family_grows [OF inv(1) assms(3,4) old cfg(1) inv_vals [OF assms(1,2) inv_docs_scan [OF assms(1,2,7)]]])
  have other: "family_agrees ns ents (look V c2) D = family_agrees ns ents (look V c) D"
    if "\<And>k. ns k \<Longrightarrow> \<not> idx_ns k \<and> k \<noteq> idx_meta_key (ix_name i)" for ns ents D
    by (rule family_agrees_cong) (simp add: that l2)
  have others: "family_agrees geo_ns ents (look V c2) D = family_agrees geo_ns ents (look V c) D"
      "family_agrees ft_ns ents (look V c2) D = family_agrees ft_ns ents (look V c) D"
      "family_agrees ttl_ns ents (look V c2) D = family_agrees ttl_ns ents (look V c) D" for ents D
    using ns_disjoint(2-4) not_meta_ns(1-3) by (intro other; blast)+
  have "docs_ok (env_doc E) (look V c2)"
    using assms(2) docs by (simp add: coll_inv_def inv_map_def docs_ok_def)
  moreover have "regular_ok (get_all_indexes E c2)"
    using inv(1) assms(3) cfg(1) by (auto simp: regular_ok_def list_all_iff)
  ultimately show "coll_inv E V c2"
    using assms(2) idx
    by (simp add: coll_inv_def inv_map_def cfgs_ok_def indexes_agree_def cfgs_of_def cfg(2-4) vals others)
  show "coll_docs E V c2 = coll_docs E V c" by (simp add: coll_docs_def docs_map_def docs fun_eq_iff)
  show "set (get_all_indexes E c2) = insert i (set (get_all_indexes E c))" by (rule cfg(1))
qed

text \<open>
  C9: creating an index on a collection that holds documents adds the index and exactly its entries:
  afterwards the invariant holds with the new index, however many batches were written, and the
  documents, the count and the change stream are as before. (The name is new and has no colon. A
  unique index is created without looking for duplicates among the documents.)
\<close>

theorem create_index_correct:
  assumes "rocks_ok (env_db E) V" "meta_codec_ok (idx_codec E)" "coll_inv E V c" "name_ok name"
    "\<forall>j \<in> set (get_all_indexes E c). ix_name j \<noteq> name"
    "create_index E name flds ty u c = (Inr st, c')"
  shows "coll_inv E V c' \<and> coll_docs E V c' = coll_docs E V c \<and>
    set (get_all_indexes E c') =
      insert \<lparr> ix_name = name, ix_fields = flds, ix_type = ty, ix_unique = u \<rparr> (set (get_all_indexes E c)) \<and>
    doc_count c' = doc_count c \<and> changes c' = changes c"
proof -
  let ?i = "new_index name flds ty u"
  have n: "ix_name ?i = name" by (simp add: new_index_def)
  from create_index_ok [OF assms(1,6)] obtain b c1 c2 where g: "get_index E name c = None" and
    b: "to_vec (idx_codec E) ?i = Inr b" and c1: "look V c1 = (look V c)(idx_meta_key name \<mapsto> b)" and
    c2: "look V c2 = apply_ops (puts (entries_of E ?i (coll_all E c1))) (look V c1)" and
    s: "same_core V c2 c'" and r: "doc_count c' = doc_count c" "changes c' = changes c" .
  have fs: "from_slice (idx_codec E) b = Some ?i"
    using assms(2) b unfolding meta_codec_ok_def by (metis sum.inject(2))
  note inv = created_inv [where i = ?i, unfolded n, OF assms(1,3,4,5) fs g c1 c2]
  have "get_all_indexes E c' = get_all_indexes E c2"
    using same_core_inv(3) [OF assms(1) s] by (simp add: cfgs_of_def)
  with inv same_core_inv(1,2) [OF assms(1) s] r show ?thesis by (simp add: new_index_def)
qed

section \<open>Witness\<close>

lemma db_write_accepts: "(\<And>db ops. \<exists>d. write_batch (env_db E) db ops = Inr d) \<Longrightarrow> \<exists>c'. db_write E msg ops c = (Inr (), c')"
  unfolding db_write_def by (metis (no_types, lifting) sum.simps(6))

lemma build_index_accepts:
  assumes "\<And>db ops. \<exists>d. write_batch (env_db E) db ops = Inr d"
  shows "\<exists>r c'. build_index E i docs batch n c = (Inr r, c')"
proof (induction docs arbitrary: batch n c)
  case (Cons d docs)
  show ?case
    using Cons.IH db_write_accepts [OF assms] by (auto simp: Let_def bind_Inr_iff) meson
qed simp

lemma create_index_accepts:
  assumes "\<And>db ops. \<exists>d. write_batch (env_db E) db ops = Inr d" "meta_codec_ok (idx_codec E)"
    "get_index E name c = None"
  shows "\<exists>st c'. create_index E name flds Hash u c = (Inr st, c')"
proof -
  let ?i = "new_index name flds Hash u"
  obtain b where b: "to_vec (idx_codec E) ?i = Inr b" using assms(2) unfolding meta_codec_ok_def by blast
  obtain c1 where c1: "db_write E ''Failed to create index: '' [Put (idx_meta_key name) b] c = (Inr (), c1)"
    using db_write_accepts [OF assms(1)] by blast
  obtain batch n c2 where c2: "build_index E ?i (coll_all E c1) [] 0 c1 = (Inr (batch, n), c2)"
    using build_index_accepts [OF assms(1)] by fast
  obtain c3 where "db_write E ''Failed to write final index batch: '' batch c2 = (Inr (), c3)"
    using db_write_accepts [OF assms(1)] by blast
  with b c1 c2 assms(3) show ?thesis
    by (auto simp: create_index_def bind_def Let_def save_filter_def new_index_def)
qed

text \<open>Metadata of indexes in full, with a constructor of \<^verbatim>\<open>IndexType\<close> as a number.\<close>

fun type_code :: "index_type \<Rightarrow> nat" where
  "type_code Hash = 0" | "type_code Persistent = 1" | "type_code FulltextT = 2" | "type_code TTLT = 3"
| "type_code Bloom = 4" | "type_code Cuckoo = 5" | "type_code VectorT = 6"

definition code_type :: "nat \<Rightarrow> index_type" where
  "code_type n = [Hash, Persistent, FulltextT, TTLT, Bloom, Cuckoo, VectorT] ! n"

definition full_index_codec :: "index meta_codec" where
  "full_index_codec = \<lparr>
     to_vec = (\<lambda>i. Inr (demo_ser (ix_name i, ix_fields i, type_code (ix_type i), ix_unique i))),
     from_slice = (\<lambda>b. case demo_de b of (n, fs, t, u) \<Rightarrow>
       Some \<lparr> ix_name = n, ix_fields = fs, ix_type = code_type t, ix_unique = u \<rparr>) \<rparr>"

lemma full_index_codec_ok: "meta_codec_ok full_index_codec"
proof -
  have "code_type (type_code t) = t" for t by (cases t) (simp_all add: code_type_def)
  then show ?thesis by (simp add: meta_codec_ok_def full_index_codec_def)
qed

definition full_env :: "((bytes \<times> bytes) list, unit, unit, string set) env" where
  "full_env = demo_env\<lparr> idx_codec := full_index_codec \<rparr>"

lemma full_env_simps [simp]: "env_db full_env = mem_rocks" "idx_codec full_env = full_index_codec"
  by (simp_all add: full_env_def)

definition empty_coll :: "((bytes \<times> bytes) list, unit, unit, string set) collection" where
  "empty_coll = coll_new full_env ''db:people'' []"

lemma full_env_more [simp]: "env_doc full_env = demo_doc_codec" "env_json full_env = demo_serde"
  by (simp_all add: full_env_def)

lemma empty_coll_simps [simp]: "coll_db empty_coll = []" "coll_name empty_coll = ''db:people''"
  "collection_type empty_coll = ''document''" "mem_view [] = []"
  by (simp_all add: empty_coll_def coll_new_def mem_rocks_def mem_view_def)

lemma empty_coll_meta:
  "get_all_indexes full_env empty_coll = []" "get_all_geo_indexes full_env empty_coll = []"
  "get_all_fulltext_indexes full_env empty_coll = []" "get_all_ttl_indexes full_env empty_coll = []"
  by (simp_all add: get_all_indexes_def get_all_geo_indexes_def get_all_fulltext_indexes_def
      get_all_ttl_indexes_def read_meta_def scan_eq [OF mem_rocks_ok] List.map_filter_def)

lemma empty_coll_inv: "coll_inv full_env mem_view empty_coll" "coll_docs full_env mem_view empty_coll = Map.empty"
proof -
  have "cfgs_ok (cfgs_of full_env empty_coll)"
    by (simp add: cfgs_of_def cfgs_ok_def empty_coll_meta regular_ok_def geo_ok_def fulltext_ok_def ttl_ok_def)
  from empty_inv [where V = mem_view, OF this] show "coll_inv full_env mem_view empty_coll"
    "coll_docs full_env mem_view empty_coll = Map.empty" by simp_all
qed

lemma full_one_doc:
  obtains c where "coll_inv full_env mem_view c" "coll_docs full_env mem_view c = [''ann'' \<mapsto> ann_doc]"
    "get_index full_env ''age'' c = None" "get_all_indexes full_env c = []"
proof -
  have ok: "rocks_ok (env_db full_env) mem_view" "doc_codec_ok (env_doc full_env)"
    by (simp_all add: mem_rocks_ok demo_doc_codec_ok)
  have tk: "take_key u ann = Inr (''ann'', JObject [(''age'', JNumber (PosInt 30))])" for u
    by (simp add: take_key_def ann_def smap_del_def)
  have schema: "get_json_schema full_env empty_coll = None"
    by (simp add: get_json_schema_def get_meta_def mem_rocks_def)
  have uq: "check_unique_constraints full_env k v empty_coll = Inr ()" for k v
    by (simp add: check_unique_constraints_def empty_coll_meta)
  have n: "show_nat 1 = ''1''" by (simp add: show_nat.simps digit_char_def char_of_def bit_0)
  obtain c where c: "coll_insert full_env (demo_fresh 1) ann empty_coll = (Inr ann_doc, c)"
    using insert_accepted [of full_env empty_coll "demo_fresh 1" ann "''ann''" _ ann_doc]
      tk schema uq n demo_doc_codec_ok by (auto simp: ann_doc_def demo_fresh_def)
  have "insertable full_env mem_view empty_coll (demo_fresh 1) ann"
    by (simp add: insertable_def tk empty_coll_inv(2) key_ok_def)
  note st = insert_steps [OF ok empty_coll_inv(1) c this]
  from insert_ok [OF ok(1) c] obtain key b where
    "wrote full_env mem_view empty_coll (Put (doc_key key) b #
      ins_batch full_env (cfgs_of full_env empty_coll) key (to_value (env_doc full_env) ann_doc)) c" .
  then have w: "look mem_view c = apply_ops (Put (doc_key key) b #
      ins_batch full_env (cfgs_of full_env empty_coll) key (to_value (env_doc full_env) ann_doc))
      (look mem_view empty_coll)"
    unfolding wrote_def by blast
  have "cfgs_of full_env c = cfgs_of full_env empty_coll"
    using w by (rule written_cfgs [OF ok(1)]) (simp, erule batch_fam_key(1))
  then have cfg: "get_all_indexes full_env c = []" by (simp add: cfgs_of_def empty_coll_meta)
  have "get_index full_env ''age'' c = None"
  proof (rule ccontr)
    assume "get_index full_env ''age'' c \<noteq> None"
    then obtain x v where "look mem_view c (idx_meta_key ''age'') = Some v" "from_slice (idx_codec full_env) v = Some x"
      by (auto simp: get_index_look [OF ok(1)] split: option.splits)
    then have "x \<in> set (get_all_indexes full_env c)"
      unfolding get_all_indexes_def set_read_meta [OF ok(1)] using idx_meta_ns(2) by blast
    with cfg show False by simp
  qed
  then show ?thesis
    using that [of c] st cfg by (simp add: empty_coll_inv(2) ann_doc_def doc_with_key_def)
qed

theorem create_index_correct_witness:
  "\<exists>c st c'. coll_docs full_env mem_view c = [''ann'' \<mapsto> ann_doc] \<and>
     create_index full_env ''age'' [''age''] Hash True c = (Inr st, c') \<and>
     coll_inv full_env mem_view c' \<and> coll_docs full_env mem_view c' = [''ann'' \<mapsto> ann_doc] \<and>
     get_all_indexes full_env c' \<noteq> []"
proof -
  obtain c where c: "coll_inv full_env mem_view c" "coll_docs full_env mem_view c = [''ann'' \<mapsto> ann_doc]"
    "get_index full_env ''age'' c = None" "get_all_indexes full_env c = []" by (rule full_one_doc)
  obtain st c' where r: "create_index full_env ''age'' [''age''] Hash True c = (Inr st, c')"
    using create_index_accepts [of full_env "''age''" c "[''age'']" True] c(3) full_index_codec_ok by auto
  have "name_ok ''age''" by (simp add: name_ok_def)
  moreover have "rocks_ok (env_db full_env) mem_view" "meta_codec_ok (idx_codec full_env)"
    "\<forall>j \<in> set (get_all_indexes full_env c). ix_name j \<noteq> ''age''"
    by (simp_all add: mem_rocks_ok full_index_codec_ok c(4))
  ultimately have "coll_inv full_env mem_view c' \<and> coll_docs full_env mem_view c' = coll_docs full_env mem_view c"
    "set (get_all_indexes full_env c') \<noteq> {}"
    using create_index_correct [OF _ _ c(1) _ _ r] by simp_all
  with r c(2) show ?thesis by (metis set_empty)
qed

end
