(* ===== verification/TtlCleanup.thy ===== *)
theory TtlCleanup
  imports MoreIndexes IndexBuild
begin

text \<open>
  The removal of expired documents (\<^verbatim>\<open>cleanup_expired_documents_for_ttl_index\<close> of \<^verbatim>\<open>ttl.rs\<close>): only
  documents whose expiry time has passed are removed; their entries in other indexes and the cached
  count are not.
\<close>

lemma delete_expired_ok:
  assumes "rocks_ok (env_db E) V" "delete_expired E n expired k c = (Inr r, c')" "length expired \<le> n"
  shows "r = k + length expired" "look V c' = apply_ops (concat (map (\<lambda>(key, e). [Del (doc_key key), Del e]) expired)) (look V c)"
    "doc_count c' = doc_count c" "coll_name c' = coll_name c"
proof -
  have "r = k + length expired \<and>
    look V c' = apply_ops (concat (map (\<lambda>(key, e). [Del (doc_key key), Del e]) expired)) (look V c) \<and>
    doc_count c' = doc_count c \<and> coll_name c' = coll_name c"
    using assms(2,3)
  proof (induction n arbitrary: expired k c)
    case (Suc n)
    show ?case
    proof (cases "expired = []")
      case False
      with Suc.prems(1) obtain c1 where
        w: "db_write E [] (concat (map (\<lambda>(key, e). [Del (doc_key key), Del e]) (take 1000 expired))) c = (Inr (), c1)" and
        r: "delete_expired E n (drop 1000 expired) (k + length (take 1000 expired)) c1 = (Inr r, c')"
        by (auto simp: Let_def bind_Inr_iff)
      have "length (drop 1000 expired) \<le> n" using Suc.prems(2) False by (cases expired) auto
      note ih = Suc.IH [OF r this]
      have "map f expired = map f (take 1000 expired) @ map f (drop 1000 expired)" for f :: "_ \<Rightarrow> write_op list"
        by (simp flip: map_append)
      then show ?thesis
        using ih db_write_look [OF assms(1) w] by (simp add: apply_ops_append)
    qed (use Suc.prems in auto)
  qed auto
  then show "r = k + length expired"
    "look V c' = apply_ops (concat (map (\<lambda>(key, e). [Del (doc_key key), Del e]) expired)) (look V c)"
    "doc_count c' = doc_count c" "coll_name c' = coll_name c" by blast+
qed

lemma dels_pairs:
  "concat (map (\<lambda>(key, e). [Del (doc_key key), Del e]) expired) =
   dels (concat (map (\<lambda>(key, e). [doc_key key, e]) expired))"
  by (induction expired) (auto simp: dels_def)

lemma in_expired:
  "(key, e) \<in> set (expired_entries E now pre ps) \<Longrightarrow>
   e \<in> fst ` set ps \<and> (\<exists>ts. parse_expiry E pre e = Some (ts, key) \<and> ts \<le> now)"
  by (induction ps) (auto split: option.splits if_splits)

lemma parse_expiry_key:
  assumes "utf8_valid k"
  shows "parse_expiry E (ttl_expiry_prefix n) (ttl_expiry_key n ts k) = Some (ts, k)"
proof -
  have "drop (length (ttl_expiry_prefix n)) (ttl_expiry_key n ts k) = show_u64 ts @ CHR '':'' # k"
    by (simp add: ttl_expiry_prefix_def ttl_expiry_key_def prefix_defs)
  moreover have "takeWhile (\<lambda>b. b \<noteq> CHR '':'') (show_u64 ts @ CHR '':'' # k) = show_u64 ts"
    by (subst takeWhile_append2) (auto intro: ccontr)
  moreover have "utf8_valid (show_u64 ts)"
    unfolding show_u64_def using set_show_nat [of "unat ts"] digit_char_range
    by (intro is_ascii_utf8) (fastforce simp: image_subset_iff)
  moreover have "show_u64 ts \<noteq> []" by (simp add: show_u64_def)
  ultimately show ?thesis
    using assms by (simp add: parse_expiry_def Let_def from_utf8_lossy_def)
qed

text \<open>An entry under the prefix of a TTL index belongs to a stored document with an expiry time.\<close>

lemma ttl_entry_doc:
  assumes "rocks_ok (env_db E) V" "coll_inv E V c" "t \<in> set (get_all_ttl_indexes E c)"
    "distinct (map tx_name (get_all_ttl_indexes E c))" "look V c b = Some w"
    "starts_with b (ttl_expiry_prefix (tx_name t))"
  obtains k d e where "coll_docs E V c k = Some d"
    "extract_expiry_time (parse_rfc3339 E) (to_value (env_doc E) d) (tx_field t) = Some e"
    "b = ttl_expiry_key (tx_name t) (e + tx_expire_after t) k"
proof -
  have ok: "ttl_ok (get_all_ttl_indexes E c)"
    and fa: "family_agrees ttl_ns (ttl_entries (parse_rfc3339 E) (get_all_ttl_indexes E c)) (look V c)
      (vals_map (env_doc E) (look V c))"
    using assms(2) by (simp_all add: coll_inv_def inv_map_def cfgs_ok_def indexes_agree_def cfgs_of_def)
  have "ttl_ns b" using assms(6) by (auto simp: ttl_ns_def ttl_expiry_prefix_def starts_with_iff)
  from family_agreesD [OF fa this] assms(5) obtain k v where
    v: "vals_map (env_doc E) (look V c) k = Some v" and
    "(b, w) \<in> set (ttl_entries (parse_rfc3339 E) (get_all_ttl_indexes E c) k v)" by blast
  then obtain t' e where t': "t' \<in> set (get_all_ttl_indexes E c)"
      "extract_expiry_time (parse_rfc3339 E) v (tx_field t') = Some e"
      "b = ttl_expiry_key (tx_name t') (e + tx_expire_after t') k"
    by (auto simp: ttl_keys_entries in_ttl_keys)
  have n: "name_ok (tx_name t)" "name_ok (tx_name t')"
    using ok assms(3) t'(1) by (simp_all add: ttl_ok_def list_all_iff)
  from assms(6) t'(3) obtain r where
    "tx_name t' @ CHR '':'' # (show_u64 (e + tx_expire_after t') @ '':'' @ k) = tx_name t @ CHR '':'' # r"
    by (auto simp: ttl_expiry_prefix_def ttl_expiry_key_def starts_with_iff)
  from sep_inject [OF this] n have "tx_name t' = tx_name t" by (simp add: name_ok_def)
  then have "t' = t" using assms(3,4) t'(1) by (auto simp: distinct_map dest: inj_onD)
  with v t' show ?thesis using that by (auto simp: vals_map_def simp flip: coll_docs_def)
qed

text \<open>
  C24: a cleanup of a TTL index removes only documents whose expiry time (the time in the field plus
  the delay, modulo \<open>2\<^sup>6\<^sup>4\<close>) has passed, and returns how many entries it worked through. It
  touches nothing else: the entries of the removed documents in the other indexes stay behind and the
  cached count is not lowered.
\<close>

theorem ttl_cleanup_only_expired:
  assumes "rocks_ok (env_db E) V" "coll_inv E V c" "keys_utf8 E V c" "t \<in> set (get_all_ttl_indexes E c)"
    "distinct (map tx_name (get_all_ttl_indexes E c))"
    "cleanup_expired_documents_for_ttl_index E now t c = (Inr n, c')"
  shows "\<exists>gone. card gone \<le> n \<and>
    (\<forall>k \<in> gone. \<exists>d e. coll_docs E V c k = Some d \<and>
       extract_expiry_time (parse_rfc3339 E) (to_value (env_doc E) d) (tx_field t) = Some e \<and>
       e + tx_expire_after t \<le> now) \<and>
    coll_docs E V c' = coll_docs E V c |` (- gone) \<and>
    (\<forall>b. idx_ns b \<or> geo_ns b \<or> ft_ns b \<longrightarrow> look V c' b = look V c b) \<and> doc_count c' = doc_count c"
proof -
  let ?pre = "ttl_expiry_prefix (tx_name t)"
  let ?exp = "expired_entries E now ?pre (scan_while (env_db E) (coll_db c) ?pre)"
  let ?gone = "fst ` set ?exp"
  note r = delete_expired_ok [OF assms(1) assms(6) [unfolded cleanup_expired_documents_for_ttl_index_def Let_def] order_refl]
  have item: "(\<exists>d e. coll_docs E V c key = Some d \<and>
       extract_expiry_time (parse_rfc3339 E) (to_value (env_doc E) d) (tx_field t) = Some e \<and>
       e + tx_expire_after t \<le> now) \<and> ttl_ns b" if "(key, b) \<in> set ?exp" for key b
  proof -
    from in_expired [OF that] obtain w ts where
      p: "(b, w) \<in> set (V (coll_db c))" "starts_with b ?pre" "parse_expiry E ?pre b = Some (ts, key)" "ts \<le> now"
      by (auto simp: scan_eq [OF assms(1)])
    have "look V c b = Some w" using p(1) smap_in_iff [OF rocks_okD(1) [OF assms(1)]] by blast
    from ttl_entry_doc [OF assms(1,2,4,5) this p(2)] obtain k d e where
      d: "coll_docs E V c k = Some d"
        "extract_expiry_time (parse_rfc3339 E) (to_value (env_doc E) d) (tx_field t) = Some e"
        "b = ttl_expiry_key (tx_name t) (e + tx_expire_after t) k" .
    have "utf8_valid k" using assms(3) d(1) by (auto simp: keys_utf8_def)
    from parse_expiry_key [OF this, of E "tx_name t" "e + tx_expire_after t"] p(3) d(3)
    have "k = key" "ts = e + tx_expire_after t" by simp_all
    with d p(2,4) show ?thesis by (auto simp: entry_ns)
  qed
  have look: "look V c' b = (if b \<in> doc_key ` ?gone \<or> b \<in> snd ` set ?exp then None else look V c b)" for b
    unfolding r(2) dels_pairs apply_dels by (force split: prod.splits)
  have "coll_docs E V c' = coll_docs E V c |` (- ?gone)"
  proof
    fix k
    have "doc_key k \<notin> snd ` set ?exp" if "key_ok k" using item doc_key_ns(4) that by force
    moreover have "doc_key k \<in> doc_key ` ?gone \<longleftrightarrow> k \<in> ?gone" by (intro inj_image_mem_iff) (simp add: inj_def)
    ultimately show "coll_docs E V c' k = (coll_docs E V c |` (- ?gone)) k"
      by (simp add: coll_docs_def docs_map_def look restrict_map_def)
  qed
  moreover have "look V c' b = look V c b" if "idx_ns b \<or> geo_ns b \<or> ft_ns b" for b
  proof -
    have "b \<notin> doc_key ` ?gone" using that doc_key_ns by blast
    moreover have "b \<notin> snd ` set ?exp"
    proof
      assume "b \<in> snd ` set ?exp"
      then have "ttl_ns b" using item by auto
      with ns_disjoint(4) that show False by blast
    qed
    ultimately show ?thesis by (simp add: look)
  qed
  moreover have "card ?gone \<le> n"
    using r(1) card_image_le [of "set ?exp" fst] card_length [of ?exp] by simp
  moreover have "\<forall>k \<in> ?gone. \<exists>d e. coll_docs E V c k = Some d \<and>
       extract_expiry_time (parse_rfc3339 E) (to_value (env_doc E) d) (tx_field t) = Some e \<and>
       e + tx_expire_after t \<le> now"
    using item by auto
  ultimately show ?thesis using r(3) by blast
qed

section \<open>Witness\<close>

text \<open>Metadata of TTL indexes that is just a name, for an index of that name on the field of that name
  with a delay of ten seconds.\<close>

definition name_ttl :: "string \<Rightarrow> ttl_index" where
  "name_ttl n = \<lparr> tx_name = n, tx_field = n, tx_expire_after = 10 \<rparr>"

definition ttl_env :: "((bytes \<times> bytes) list, unit, unit, string set) env" where
  "ttl_env = demo_env\<lparr> idx_codec := no_codec,
     ttl_codec := \<lparr> to_vec = (\<lambda>t. Inr (tx_name t)), from_slice = (\<lambda>b. Some (name_ttl b)) \<rparr> \<rparr>"

definition ttl_coll :: "((bytes \<times> bytes) list, unit, unit, string set) collection" where
  "ttl_coll = coll_new ttl_env ''db:s'' [(''ttl_meta:exp'', ''exp'')]"

lemma ttl_env_simps [simp]: "env_db ttl_env = mem_rocks" "env_doc ttl_env = demo_doc_codec"
  by (simp_all add: ttl_env_def)

lemma ttl_coll_simps [simp]: "coll_db ttl_coll = [(''ttl_meta:exp'', ''exp'')]" "coll_name ttl_coll = ''db:s''"
  "collection_type ttl_coll = ''document''"
  by (simp_all add: ttl_coll_def coll_new_def mem_rocks_def prefix_defs)

lemma ttl_coll_meta:
  "get_all_indexes ttl_env ttl_coll = []" "get_all_geo_indexes ttl_env ttl_coll = []"
  "get_all_fulltext_indexes ttl_env ttl_coll = []" "get_all_ttl_indexes ttl_env ttl_coll = [name_ttl ''exp'']"
  by (simp_all add: get_all_indexes_def get_all_geo_indexes_def get_all_fulltext_indexes_def
      get_all_ttl_indexes_def read_meta_def scan_eq [OF mem_rocks_ok] prefix_defs List.map_filter_def ttl_env_def
      no_codec_def)

lemma ttl_coll_inv: "coll_inv ttl_env mem_view ttl_coll" "coll_docs ttl_env mem_view ttl_coll = Map.empty"
proof -
  have 1: "cfgs_ok (cfgs_of ttl_env ttl_coll)"
    by (simp add: cfgs_of_def cfgs_ok_def ttl_coll_meta regular_ok_def geo_ok_def fulltext_ok_def ttl_ok_def
        name_ttl_def name_ok_def)
  have 2: "look mem_view ttl_coll (doc_key k) = None" for k
    by (simp add: doc_key_def prefix_defs)
  have 3: "look mem_view ttl_coll b = None" if "fam_key b" for b
    using that by (auto simp: fam_key_def idx_ns_def geo_ns_def ft_ns_def ttl_ns_def prefix_defs)
  show "coll_inv ttl_env mem_view ttl_coll" "coll_docs ttl_env mem_view ttl_coll = Map.empty"
    using empty_inv [where V = mem_view, OF 1] 2 3 by blast+
qed

definition session :: json where
  "session = JObject [(''_key'', JString ''s1''), (''exp'', JNumber (PosInt 5))]"

definition session_doc :: document where
  "session_doc = doc_with_key ''r1'' 1 ''db:s'' ''s1'' (JObject [(''exp'', JNumber (PosInt 5))])"

lemma one_session:
  obtains c where "coll_inv ttl_env mem_view c" "coll_docs ttl_env mem_view c = [''s1'' \<mapsto> session_doc]"
    "get_all_ttl_indexes ttl_env c = [name_ttl ''exp'']"
proof -
  have ok: "rocks_ok (env_db ttl_env) mem_view" "doc_codec_ok (env_doc ttl_env)"
    by (simp_all add: mem_rocks_ok demo_doc_codec_ok)
  have tk: "take_key u session = Inr (''s1'', JObject [(''exp'', JNumber (PosInt 5))])" for u
    by (simp add: take_key_def session_def smap_del_def)
  have schema: "get_json_schema ttl_env ttl_coll = None"
    by (simp add: get_json_schema_def get_meta_def mem_rocks_def ttl_env_def no_codec_def split: option.splits)
  have uq: "check_unique_constraints ttl_env k v ttl_coll = Inr ()" for k v
    by (simp add: check_unique_constraints_def ttl_coll_meta)
  have n: "show_nat 1 = ''1''" by (simp add: show_nat.simps digit_char_def char_of_def bit_0)
  obtain c where c: "coll_insert ttl_env (demo_fresh 1) session ttl_coll = (Inr session_doc, c)"
    using insert_accepted [of ttl_env ttl_coll "demo_fresh 1" session "''s1''" _ session_doc]
      tk schema uq n demo_doc_codec_ok by (auto simp: session_doc_def demo_fresh_def)
  have "insertable ttl_env mem_view ttl_coll (demo_fresh 1) session"
    by (simp add: insertable_def tk ttl_coll_inv(2) key_ok_def)
  note st = insert_steps [OF ok ttl_coll_inv(1) c this]
  from insert_ok [OF ok(1) c] obtain key b where
    "wrote ttl_env mem_view ttl_coll (Put (doc_key key) b #
      ins_batch ttl_env (cfgs_of ttl_env ttl_coll) key (to_value (env_doc ttl_env) session_doc)) c" .
  then have "cfgs_of ttl_env c = cfgs_of ttl_env ttl_coll"
    unfolding wrote_def by (elim conjE, intro written_cfgs [OF ok(1)]) (assumption, simp, erule batch_fam_key(1))
  then show ?thesis
    using that [of c] st
    by (simp add: cfgs_of_def ttl_coll_meta ttl_coll_inv(2) session_doc_def doc_with_key_def)
qed

theorem ttl_cleanup_only_expired_witness:
  "\<exists>c r c'. coll_docs ttl_env mem_view c = [''s1'' \<mapsto> session_doc] \<and>
     cleanup_expired_documents_for_ttl_index ttl_env 100 (name_ttl ''exp'') c = (Inr r, c') \<and>
     doc_count c' = doc_count c"
proof -
  obtain c where c: "coll_inv ttl_env mem_view c" "coll_docs ttl_env mem_view c = [''s1'' \<mapsto> session_doc]"
    "get_all_ttl_indexes ttl_env c = [name_ttl ''exp'']" by (rule one_session)
  have "\<exists>r c'. delete_expired ttl_env n ex k c1 = (Inr r, c')" for n ex k c1
  proof (induction n arbitrary: ex k c1)
    case (Suc n)
    then show ?case by (auto simp: Let_def bind_Inr_iff db_write_def mem_rocks_def)
  qed simp
  then obtain r c' where r: "cleanup_expired_documents_for_ttl_index ttl_env 100 (name_ttl ''exp'') c = (Inr r, c')"
    unfolding cleanup_expired_documents_for_ttl_index_def Let_def by blast
  have "keys_utf8 ttl_env mem_view c" by (simp add: keys_utf8_def c(2))
  from ttl_cleanup_only_expired [OF _ c(1) this _ _ r] c r show ?thesis by (auto simp: mem_rocks_ok)
qed

end
