(* ===== verification/Transaction.thy ===== *)
theory Transaction
  imports Json Utf8
begin

text \<open>
  Transactions and the write-ahead log: \<^verbatim>\<open>src/transaction/mod.rs\<close>, \<^verbatim>\<open>wal.rs\<close> and \<^verbatim>\<open>manager.rs\<close>.

  The log is the content of a file, a byte string; a writer appends one line of JSON per entry. The
  JSON form of an entry is \<^verbatim>\<open>serde_json\<close>'s and is the parameter \<open>wal_codec\<close>; the outcome of a write
  (success, a short write, a failed sync) is the argument \<open>io\<close>. Clock readings are arguments. A
  method that returns an error and leaves a changed state returns both.
\<close>

section \<open>Transactions\<close>

type_synonym tx_id = u64

datatype tx_state = Active | Preparing | Committed | Aborted

datatype isolation_level = ReadUncommitted | ReadCommitted | RepeatableRead | Serializable

datatype operation =
    OpInsert (op_database: string) (op_collection: string) (op_key: string) (op_data: json)
  | OpUpdate (op_database: string) (op_collection: string) (op_key: string) (op_old_data: json)
      (op_new_data: json)
  | OpDelete (op_database: string) (op_collection: string) (op_key: string) (op_old_data: json)
  | OpPutBlobChunk (op_database: string) (op_collection: string) (op_key: string)
      (op_chunk_index: u32) (op_bytes: bytes)
  | OpDeleteBlob (op_database: string) (op_collection: string) (op_key: string)

record transaction =
  id_of :: tx_id
  state_of :: tx_state
  isolation :: isolation_level
  operations :: "operation list"
  read_timestamp :: u64
  write_timestamp :: "u64 option"
  created_at :: int
  validation_errors :: "string list"

definition show_tx_id :: "tx_id \<Rightarrow> string" where
  "show_tx_id i = ''tx:'' @ show_u64 i"

definition tx_new :: "tx_id \<Rightarrow> int \<Rightarrow> isolation_level \<Rightarrow> transaction" where
  "tx_new i utc level =
     \<lparr> id_of = i, state_of = Active, isolation = level, operations = [], read_timestamp = i,
       write_timestamp = None, created_at = utc, validation_errors = [] \<rparr>"

definition add_operation :: "transaction \<Rightarrow> operation \<Rightarrow> transaction" where
  "add_operation tx op = tx\<lparr> operations := operations tx @ [op] \<rparr>"

definition tx_is_active :: "transaction \<Rightarrow> bool" where
  "tx_is_active tx \<longleftrightarrow> state_of tx = Active"

definition add_validation_error :: "transaction \<Rightarrow> string \<Rightarrow> transaction" where
  "add_validation_error tx e = tx\<lparr> validation_errors := validation_errors tx @ [e] \<rparr>"

definition has_validation_errors :: "transaction \<Rightarrow> bool" where
  "has_validation_errors tx \<longleftrightarrow> validation_errors tx \<noteq> []"

definition clear_validation_errors :: "transaction \<Rightarrow> transaction" where
  "clear_validation_errors tx = tx\<lparr> validation_errors := [] \<rparr>"

definition tx_prepare :: "u64 \<Rightarrow> transaction \<Rightarrow> transaction" where
  "tx_prepare now tx = tx\<lparr> state_of := Preparing, write_timestamp := Some now \<rparr>"

definition tx_commit :: "transaction \<Rightarrow> transaction" where
  "tx_commit tx = tx\<lparr> state_of := Committed \<rparr>"

definition tx_abort :: "transaction \<Rightarrow> transaction" where
  "tx_abort tx = tx\<lparr> state_of := Aborted \<rparr>"

section \<open>The write-ahead log\<close>

datatype wal_entry =
    WBegin tx_id u64
  | WOperation tx_id operation
  | WCommit tx_id u64
  | WAbort tx_id u64
  | WCheckpoint u64

fun entry_tx_id :: "wal_entry \<Rightarrow> tx_id option" where
  "entry_tx_id (WBegin i _) = Some i"
| "entry_tx_id (WOperation i _) = Some i"
| "entry_tx_id (WCommit i _) = Some i"
| "entry_tx_id (WAbort i _) = Some i"
| "entry_tx_id (WCheckpoint _) = None"

record wal_codec =
  entry_to_string :: "wal_entry \<Rightarrow> string + string"
  entry_from_str :: "string \<Rightarrow> string + wal_entry"

text \<open>The outcome of appending a line: all of it on disk, a short write of \<open>n\<close> bytes, or a line
  that was written but not synced.\<close>

datatype io_outcome = IoOk | WriteFails nat string | SyncFails string

definition newline :: char where
  "newline = CHR 0x0A"

definition wal_write :: "wal_codec \<Rightarrow> io_outcome \<Rightarrow> wal_entry \<Rightarrow> bytes \<Rightarrow> unit db_result \<times> bytes" where
  "wal_write C io entry file =
     (case entry_to_string C entry of
        Inl e \<Rightarrow> (Inl (InternalError (''Failed to serialize WAL entry: '' @ e)), file)
      | Inr js \<Rightarrow>
          (case io of
             IoOk \<Rightarrow> (Inr (), file @ js @ [newline])
           | WriteFails n e \<Rightarrow>
               (Inl (InternalError (''Failed to write WAL entry: '' @ e)),
                file @ take n (js @ [newline]))
           | SyncFails e \<Rightarrow>
               (Inl (InternalError (''Failed to sync WAL: '' @ e)), file @ js @ [newline])))"

definition write_begin :: "wal_codec \<Rightarrow> io_outcome \<Rightarrow> tx_id \<Rightarrow> bytes \<Rightarrow> unit db_result \<times> bytes" where
  "write_begin C io i = wal_write C io (WBegin i i)"

definition write_operation ::
    "wal_codec \<Rightarrow> io_outcome \<Rightarrow> tx_id \<Rightarrow> operation \<Rightarrow> bytes \<Rightarrow> unit db_result \<times> bytes" where
  "write_operation C io i op = wal_write C io (WOperation i op)"

definition write_commit :: "wal_codec \<Rightarrow> io_outcome \<Rightarrow> u64 \<Rightarrow> tx_id \<Rightarrow> bytes \<Rightarrow> unit db_result \<times> bytes" where
  "write_commit C io now i = wal_write C io (WCommit i now)"

definition write_abort :: "wal_codec \<Rightarrow> io_outcome \<Rightarrow> u64 \<Rightarrow> tx_id \<Rightarrow> bytes \<Rightarrow> unit db_result \<times> bytes" where
  "write_abort C io now i = wal_write C io (WAbort i now)"

definition write_checkpoint :: "wal_codec \<Rightarrow> io_outcome \<Rightarrow> u64 \<Rightarrow> bytes \<Rightarrow> unit db_result \<times> bytes" where
  "write_checkpoint C io now = wal_write C io (WCheckpoint now)"

text \<open>\<^verbatim>\<open>BufRead::lines\<close>: a terminated line loses its newline and one carriage return before it; an
  unterminated rest is a line if it is not empty.\<close>

definition strip_cr :: "bytes \<Rightarrow> bytes" where
  "strip_cr l = (if l \<noteq> [] \<and> last l = CHR 0x0D then butlast l else l)"

definition file_lines :: "bytes \<Rightarrow> bytes list" where
  "file_lines f =
     (let parts = split_on newline f
      in map strip_cr (butlast parts) @ (if last parts = [] then [] else [last parts]))"

fun read_lines :: "wal_codec \<Rightarrow> nat \<Rightarrow> bytes list \<Rightarrow> wal_entry list db_result" where
  "read_lines C n [] = Inr []"
| "read_lines C n (l # ls) =
     (if \<not> utf8_valid l then
        Inl (InternalError (''Failed to read WAL line '' @ show_nat n @ '': '' @
          ''stream did not contain valid UTF-8''))
      else if is_blank l then read_lines C (n + 1) ls
      else case entry_from_str C l of
             Inl e \<Rightarrow>
               Inl (InternalError (''Failed to parse WAL entry at line '' @ show_nat n @ '': '' @ e))
           | Inr en \<Rightarrow> res_bind (read_lines C (n + 1) ls) (\<lambda>es. Inr (en # es)))"

definition read_all :: "wal_codec \<Rightarrow> bytes option \<Rightarrow> wal_entry list db_result" where
  "read_all C file = (case file of None \<Rightarrow> Inr [] | Some f \<Rightarrow> read_lines C 0 (file_lines f))"

text \<open>One iteration of \<^verbatim>\<open>replay\<close>: the open transactions and the committed ones so far. \<open>utc\<close> is the
  clock reading that a recreated transaction gets.\<close>

type_synonym replay_state = "(tx_id, transaction) smap \<times> transaction list"

fun replay_step :: "int \<Rightarrow> replay_state \<Rightarrow> wal_entry \<Rightarrow> replay_state" where
  "replay_step utc (txs, done) (WBegin i ts) =
     (smap_put i ((tx_new i utc ReadCommitted)\<lparr> read_timestamp := ts \<rparr>) txs, done)"
| "replay_step utc (txs, done) (WOperation i op) =
     (case map_of txs i of
        Some tx \<Rightarrow> (smap_put i (add_operation tx op) txs, done)
      | None \<Rightarrow> (txs, done))"
| "replay_step utc (txs, done) (WCommit i _) =
     (case map_of txs i of
        Some tx \<Rightarrow> (smap_del i txs, done @ [tx_commit tx])
      | None \<Rightarrow> (txs, done))"
| "replay_step utc (txs, done) (WAbort i _) = (smap_del i txs, done)"
| "replay_step utc (txs, done) (WCheckpoint _) = (txs, done)"

definition replay_entries :: "int \<Rightarrow> wal_entry list \<Rightarrow> transaction list" where
  "replay_entries utc es = snd (foldl (replay_step utc) ([], []) es)"

definition replay :: "wal_codec \<Rightarrow> int \<Rightarrow> bytes option \<Rightarrow> transaction list db_result" where
  "replay C utc file = res_bind (read_all C file) (\<lambda>es. Inr (replay_entries utc es))"

fun is_checkpoint :: "wal_entry \<Rightarrow> bool" where
  "is_checkpoint (WCheckpoint _) = True"
| "is_checkpoint _ = False"

text \<open>The entries after the last checkpoint, if there is one.\<close>

definition after_checkpoint :: "wal_entry list \<Rightarrow> wal_entry list option" where
  "after_checkpoint es =
     (if list_ex is_checkpoint es
      then Some (rev (takeWhile (\<lambda>e. \<not> is_checkpoint e) (rev es)))
      else None)"

fun entries_text :: "wal_codec \<Rightarrow> wal_entry list \<Rightarrow> bytes db_result" where
  "entries_text C [] = Inr []"
| "entries_text C (e # es) =
     (case entry_to_string C e of
        Inl m \<Rightarrow> Inl (InternalError (''Failed to serialize entry: '' @ m))
      | Inr js \<Rightarrow> res_bind (entries_text C es) (\<lambda>t. Inr (js @ [newline] @ t)))"

text \<open>\<^verbatim>\<open>truncate_wal\<close> rewrites the file through a temporary file and a rename; \<open>io\<close> is the error of
  the first file operation that fails, if one does.\<close>

definition truncate_wal ::
    "wal_codec \<Rightarrow> string option \<Rightarrow> bytes option \<Rightarrow> unit db_result \<times> bytes option" where
  "truncate_wal C io file =
     (case read_all C file of
        Inl e \<Rightarrow> (Inl e, file)
      | Inr es \<Rightarrow>
          (case after_checkpoint es of
             None \<Rightarrow> (Inr (), file)
           | Some keep \<Rightarrow>
               (case entries_text C keep of
                  Inl e \<Rightarrow> (Inl e, file)
                | Inr t \<Rightarrow>
                    (case io of
                       Some e \<Rightarrow> (Inl (InternalError e), file)
                     | None \<Rightarrow> (Inr (), Some t)))))"


section \<open>Reading back what was written\<close>

text \<open>What the code relies on of \<^verbatim>\<open>serde_json\<close>: the text of an entry parses back to it, is one line of
  UTF-8 (control characters are escaped), and is not blank. \<open>E\<close> is the set of entries that the
  statement at hand writes.\<close>

definition wal_line_ok :: "string \<Rightarrow> bool" where
  "wal_line_ok js \<longleftrightarrow>
     newline \<notin> set js \<and> CHR 0x0D \<notin> set js \<and> utf8_valid js \<and> \<not> is_blank js"

definition wal_codec_ok :: "wal_codec \<Rightarrow> wal_entry set \<Rightarrow> bool" where
  "wal_codec_ok C E \<longleftrightarrow> (\<forall>e \<in> E. \<exists>js. entry_to_string C e = Inr js \<and> entry_from_str C js = Inr e \<and>
     wal_line_ok js)"

definition entry_text :: "wal_codec \<Rightarrow> wal_entry \<Rightarrow> bytes" where
  "entry_text C e = (case entry_to_string C e of Inr js \<Rightarrow> js | Inl _ \<Rightarrow> [])"

definition log_text :: "wal_codec \<Rightarrow> wal_entry list \<Rightarrow> bytes" where
  "log_text C es = concat (map (\<lambda>e. entry_text C e @ [newline]) es)"

lemma wal_codec_okD:
  assumes "wal_codec_ok C E" "e \<in> E"
  shows "entry_to_string C e = Inr (entry_text C e)" "entry_from_str C (entry_text C e) = Inr e"
    "newline \<notin> set (entry_text C e)" "CHR 0x0D \<notin> set (entry_text C e)"
    "utf8_valid (entry_text C e)" "\<not> is_blank (entry_text C e)"
proof -
  obtain js where js: "entry_to_string C e = Inr js" "entry_from_str C js = Inr e"
    "newline \<notin> set js" "CHR 0x0D \<notin> set js" "utf8_valid js" "\<not> is_blank js"
    using assms unfolding wal_codec_ok_def wal_line_ok_def by blast
  then have "entry_text C e = js" by (simp add: entry_text_def)
  with js show "entry_to_string C e = Inr (entry_text C e)" "entry_from_str C (entry_text C e) = Inr e"
    "newline \<notin> set (entry_text C e)" "CHR 0x0D \<notin> set (entry_text C e)"
    "utf8_valid (entry_text C e)" "\<not> is_blank (entry_text C e)" by simp_all
qed

lemma split_on_append: "c \<notin> set a \<Longrightarrow> split_on c (a @ c # b) = a # split_on c b"
  by (induction a) auto

lemma strip_cr_id: "CHR 0x0D \<notin> set l \<Longrightarrow> strip_cr l = l"
  unfolding strip_cr_def using last_in_set by fastforce

lemma split_log_text:
  assumes "wal_codec_ok C E" "set es \<subseteq> E" "newline \<notin> set r"
  shows "split_on newline (log_text C es @ r) = map (entry_text C) es @ [r]"
  using assms(2)
proof (induction es)
  case (Cons e es)
  have "log_text C (e # es) @ r = entry_text C e @ newline # (log_text C es @ r)"
    by (simp add: log_text_def)
  then show ?case
    using Cons split_on_append [OF wal_codec_okD(3) [OF assms(1)]] by simp
qed (use assms in \<open>simp add: log_text_def split_on_no_sep\<close>)

lemma file_lines_log_text:
  assumes "wal_codec_ok C E" "set es \<subseteq> E" "newline \<notin> set r"
  shows "file_lines (log_text C es @ r) = map (entry_text C) es @ (if r = [] then [] else [r])"
proof -
  have "map (strip_cr \<circ> entry_text C) es = map (entry_text C) es"
    using assms(2) wal_codec_okD(4) [OF assms(1)] by (auto simp: strip_cr_id)
  then show ?thesis
    by (simp add: file_lines_def split_log_text [OF assms] butlast_append)
qed

lemma read_lines_log:
  assumes "wal_codec_ok C E" "set es \<subseteq> E"
  shows "read_lines C n (map (entry_text C) es @ ls) =
    res_bind (read_lines C (n + length es) ls) (\<lambda>rest. Inr (es @ rest))"
  using assms(2)
proof (induction es arbitrary: n)
  case Nil
  show ?case by (cases "read_lines C n ls") auto
next
  case (Cons e es)
  then show ?case
    using wal_codec_okD [OF assms(1), of e] by (cases "read_lines C (Suc (n + length es)) ls") auto
qed

lemma read_all_log_text:
  assumes "wal_codec_ok C E" "set es \<subseteq> E"
  shows "read_all C (Some (log_text C es)) = Inr es"
  using file_lines_log_text [OF assms, of "[]"] read_lines_log [OF assms, of 0 "[]"]
  by (simp add: read_all_def)

lemma wal_write_log_text:
  assumes "wal_codec_ok C E" "e \<in> E"
  shows "wal_write C IoOk e (log_text C es) = (Inr (), log_text C (es @ [e]))"
  using wal_codec_okD(1) [OF assms] by (simp add: wal_write_def log_text_def)

text \<open>A concrete codec for the witnesses: a letter and two decimal numbers.\<close>

definition demo_op :: operation where
  "demo_op = OpInsert ''db'' ''c'' ''k'' JNull"

fun demo_to_string :: "wal_entry \<Rightarrow> string + string" where
  "demo_to_string (WBegin i t) = Inr (''B'' @ show_u64 i @ '','' @ show_u64 t)"
| "demo_to_string (WOperation i op) =
     (if op = demo_op then Inr (''O'' @ show_u64 i @ '','' @ show_u64 0) else Inl ''unsupported'')"
| "demo_to_string (WCommit i t) = Inr (''C'' @ show_u64 i @ '','' @ show_u64 t)"
| "demo_to_string (WAbort i t) = Inr (''A'' @ show_u64 i @ '','' @ show_u64 t)"
| "demo_to_string (WCheckpoint t) = Inr (''P'' @ show_u64 0 @ '','' @ show_u64 t)"

definition demo_from_str :: "string \<Rightarrow> string + wal_entry" where
  "demo_from_str s =
     (case s of
        [] \<Rightarrow> Inl ''empty''
      | c # r \<Rightarrow>
          (case (parse_u64 (before (CHR '','') r), parse_u64 (after (CHR '','') r)) of
             (Some i, Some t) \<Rightarrow>
               (if c = CHR ''B'' then Inr (WBegin i t)
                else if c = CHR ''O'' then Inr (WOperation i demo_op)
                else if c = CHR ''C'' then Inr (WCommit i t)
                else if c = CHR ''A'' then Inr (WAbort i t)
                else if c = CHR ''P'' then Inr (WCheckpoint t)
                else Inl ''tag'')
           | _ \<Rightarrow> Inl ''number''))"

definition demo_codec :: wal_codec where
  "demo_codec = \<lparr> entry_to_string = demo_to_string, entry_from_str = demo_from_str \<rparr>"

definition demo_entries :: "wal_entry set" where
  "demo_entries = {e. \<forall>i op. e = WOperation i op \<longrightarrow> op = demo_op}"

lemma show_u64_ascii: "c \<in> set (show_u64 n) \<Longrightarrow> 48 \<le> (of_char c :: nat) \<and> (of_char c :: nat) \<le> 57"
proof -
  assume "c \<in> set (show_u64 n)"
  then have "\<not> (of_char c < (48 :: nat) \<or> of_char c > (57 :: nat))"
    using show_nat_no_sep [of c "unat n"] unfolding show_u64_def by blast
  then show ?thesis by simp
qed

lemma show_u64_no_comma [simp]: "CHR '','' \<notin> set (show_u64 n)"
  using show_u64_ascii [of "CHR '',''" n] by auto

lemma demo_line:
  assumes "x \<in> {CHR ''B'', CHR ''O'', CHR ''C'', CHR ''A'', CHR ''P''}"
  shows "wal_line_ok (x # show_u64 i @ CHR '','' # show_u64 t)" (is "wal_line_ok ?l")
proof -
  have d: "c \<in> set (show_u64 n) \<Longrightarrow> (of_char c :: nat) \<ge> 48 \<and> (of_char c :: nat) < 0x80" for c n
    using show_u64_ascii [of c n] by auto
  have n: "newline \<notin> set (show_u64 n)" "CHR 0x0D \<notin> set (show_u64 n)" for n
    using d [of newline n] d [of "CHR 0x0D" n] by (auto simp: newline_def)
  have a: "\<forall>c \<in> set ?l. (of_char c :: nat) < 0x80" using d assms by auto
  have "\<not> is_blank ?l"
    unfolding is_blank_def utf8_chars_ascii [OF a] using assms by (auto simp: is_whitespace_def)
  with is_ascii_utf8 [OF a] show ?thesis
    unfolding wal_line_ok_def using n assms by (auto simp: newline_def)
qed

lemma demo_codec_ok: "wal_codec_ok demo_codec demo_entries"
  unfolding wal_codec_ok_def
proof
  fix e assume "e \<in> demo_entries"
  then show "\<exists>js. entry_to_string demo_codec e = Inr js \<and> entry_from_str demo_codec js = Inr e \<and>
      wal_line_ok js"
    by (cases e) (simp_all add: demo_codec_def demo_from_str_def demo_entries_def demo_line)
qed

section \<open>Replay\<close>

text \<open>
  A log is well formed when every transaction begins once and its operations, commit or abort come
  while it is open: \<open>log_state\<close> computes the ids used and the ids open at its end.
\<close>

fun log_step :: "wal_entry \<Rightarrow> tx_id set \<times> tx_id set \<Rightarrow> (tx_id set \<times> tx_id set) option" where
  "log_step (WBegin i _) (used, op) =
     (if i \<in> used then None else Some (insert i used, insert i op))"
| "log_step (WOperation i _) (used, op) = (if i \<in> op then Some (used, op) else None)"
| "log_step (WCommit i _) (used, op) = (if i \<in> op then Some (used, op - {i}) else None)"
| "log_step (WAbort i _) (used, op) = (if i \<in> op then Some (used, op - {i}) else None)"
| "log_step (WCheckpoint _) (used, op) = Some (used, op)"

definition log_state :: "wal_entry list \<Rightarrow> (tx_id set \<times> tx_id set) option" where
  "log_state es = foldl (\<lambda>s e. Option.bind s (log_step e)) (Some ({}, {})) es"

fun ops_of :: "tx_id \<Rightarrow> wal_entry list \<Rightarrow> operation list" where
  "ops_of i [] = []"
| "ops_of i (WOperation j op # es) = (if i = j then op # ops_of i es else ops_of i es)"
| "ops_of i (_ # es) = ops_of i es"

fun commits_of :: "wal_entry list \<Rightarrow> tx_id list" where
  "commits_of [] = []"
| "commits_of (WCommit i _ # es) = i # commits_of es"
| "commits_of (_ # es) = commits_of es"

lemma ops_of_append [simp]: "ops_of i (es @ fs) = ops_of i es @ ops_of i fs"
  by (induction i es rule: ops_of.induct) auto

lemma commits_of_append [simp]: "commits_of (es @ fs) = commits_of es @ commits_of fs"
  by (induction es rule: commits_of.induct) auto

lemma log_state_snoc: "log_state (es @ [e]) = Option.bind (log_state es) (log_step e)"
  by (simp add: log_state_def)

definition tx_view :: "transaction \<Rightarrow> tx_id \<times> operation list \<times> tx_state" where
  "tx_view tx = (id_of tx, operations tx, state_of tx)"

definition replay_inv ::
    "tx_id set \<Rightarrow> tx_id set \<Rightarrow> wal_entry list \<Rightarrow> replay_state \<Rightarrow> bool" where
  "replay_inv used op es s \<longleftrightarrow>
     smap_ok (fst s) \<and> dom (map_of (fst s)) = op \<and>
     (\<forall>i tx. map_of (fst s) i = Some tx \<longrightarrow> id_of tx = i \<and> operations tx = ops_of i es) \<and>
     op \<subseteq> used \<and> set (commits_of es) \<subseteq> used - op \<and> (\<forall>i. i \<notin> used \<longrightarrow> ops_of i es = []) \<and>
     map tx_view (snd s) = map (\<lambda>i. (i, ops_of i es, Committed)) (commits_of es)"

lemma replay_inv_step:
  assumes "replay_inv used op es (txs, dn)" "log_step e (used, op) = Some (used', op')"
  shows "replay_inv used' op' (es @ [e]) (replay_step utc (txs, dn) e)"
proof (cases e)
  case (WBegin i ts)
  with assms show ?thesis
    by (auto simp: replay_inv_def tx_new_def split: if_splits)
next
  case (WOperation i oper)
  with assms have "i \<in> dom (map_of txs)" by (auto simp: replay_inv_def split: if_splits)
  then obtain tx where tx: "map_of txs i = Some tx" by auto
  have "map (\<lambda>j. (j, ops_of j (es @ [e]), Committed)) (commits_of es) =
      map (\<lambda>j. (j, ops_of j es, Committed)) (commits_of es)"
    using assms WOperation by (auto simp: replay_inv_def split: if_splits)
  with assms WOperation tx show ?thesis
    by (auto simp: replay_inv_def add_operation_def split: if_splits)
next
  case (WCommit i ts)
  with assms have "i \<in> dom (map_of txs)" by (auto simp: replay_inv_def split: if_splits)
  then obtain tx where tx: "map_of txs i = Some tx" by auto
  with assms WCommit show ?thesis
    by (auto simp: replay_inv_def tx_view_def tx_commit_def split: if_splits)
next
  case (WAbort i ts)
  with assms show ?thesis by (auto simp: replay_inv_def split: if_splits)
next
  case (WCheckpoint ts)
  with assms show ?thesis by (auto simp: replay_inv_def)
qed

lemma replay_inv_log:
  "log_state es = Some (used, op) \<Longrightarrow>
   replay_inv used op es (foldl (replay_step utc) ([], []) es)"
proof (induction es arbitrary: used op rule: rev_induct)
  case Nil
  then show ?case by (auto simp: log_state_def replay_inv_def)
next
  case (snoc e es)
  then obtain u o' where s: "log_state es = Some (u, o')" "log_step e (u, o') = Some (used, op)"
    by (auto simp: log_state_snoc bind_eq_Some_conv)
  obtain txs dn where f: "foldl (replay_step utc) ([], []) es = (txs, dn)" by fastforce
  show ?case
    using replay_inv_step [OF snoc.IH [OF s(1), unfolded f] s(2), of utc] f by simp
qed

text \<open>
  C28: replay of a well-formed log returns exactly the committed transactions, in the order of their
  commits, each marked committed and with exactly its logged operations in the order they were
  logged; transactions that are aborted or still open leave nothing.
\<close>

theorem replay_exactly_committed:
  assumes "wal_codec_ok C (set es)" "log_state es = Some (used, op)"
  shows "\<exists>txs. replay C utc (Some (log_text C es)) = Inr txs \<and>
    map tx_view txs = map (\<lambda>i. (i, ops_of i es, Committed)) (commits_of es)"
  using replay_inv_log [OF assms(2), of utc]
  by (simp add: replay_def read_all_log_text [OF assms(1) order_refl] replay_entries_def replay_inv_def)


lemma wal_codec_ok_mono: "wal_codec_ok C E \<Longrightarrow> F \<subseteq> E \<Longrightarrow> wal_codec_ok C F"
  by (auto simp: wal_codec_ok_def)

definition demo_log :: "wal_entry list" where
  "demo_log = [WBegin 1 1, WBegin 2 2, WOperation 2 demo_op, WOperation 1 demo_op, WAbort 1 3, WCommit 2 4]"

theorem replay_exactly_committed_witness:
  "\<exists>txs. replay demo_codec 0 (Some (log_text demo_codec demo_log)) = Inr txs \<and>
    map tx_view txs = [(2, [demo_op], Committed)]"
proof -
  have "wal_codec_ok demo_codec (set demo_log)"
    by (rule wal_codec_ok_mono [OF demo_codec_ok]) (simp add: demo_log_def demo_entries_def)
  moreover have "log_state demo_log = Some ({1, 2}, {})"
    by (auto simp: log_state_def demo_log_def)
  ultimately show ?thesis
    using replay_exactly_committed [of demo_codec demo_log "{1, 2}" "{}" 0]
    by (simp add: demo_log_def)
qed


section \<open>Torn writes\<close>

text \<open>
  a write that stops in the middle of a line (the process or the machine dies) makes the whole
  log unreadable: recovery returns an error instead of the transactions committed before, because
  the reader refuses a log with an incomplete last line.
\<close>

theorem torn_write_blocks_recovery:
  assumes "wal_codec_ok C (insert e (set es))" "n < length (entry_text C e)"
    and "entry_from_str C (take n (entry_text C e)) = Inl m" "\<not> is_blank (take n (entry_text C e))"
  shows "\<exists>err. replay C utc (Some (snd (wal_write C (WriteFails n msg) e (log_text C es)))) = Inl err"
proof -
  let ?l = "take n (entry_text C e)"
  note ok = wal_codec_ok_mono [OF assms(1) subset_insertI]
  have nl: "newline \<notin> set ?l"
    using wal_codec_okD(3) [OF assms(1), of e] set_take_subset [of n "entry_text C e"] by auto
  have fl: "snd (wal_write C (WriteFails n msg) e (log_text C es)) = log_text C es @ ?l"
    using wal_codec_okD(1) [OF assms(1), of e] assms(2) by (simp add: wal_write_def)
  have "is_blank []" by (simp add: is_blank_def)
  then have "?l \<noteq> []" using assms(4) by metis
  then have "file_lines (log_text C es @ ?l) = map (entry_text C) es @ [?l]"
    using file_lines_log_text [OF ok order_refl nl] by simp
  then show ?thesis
    using read_lines_log [OF ok order_refl, of 0 "[?l]"] assms(3,4)
    by (simp add: replay_def read_all_def fl)
qed

theorem torn_write_blocks_recovery_witness:
  "\<exists>err. replay demo_codec 0 (Some (snd (wal_write demo_codec (WriteFails 1 ''disk full'')
      (WBegin 3 3) (log_text demo_codec demo_log)))) = Inl err"
proof (rule torn_write_blocks_recovery)
  show "wal_codec_ok demo_codec (insert (WBegin 3 3) (set demo_log))"
    by (rule wal_codec_ok_mono [OF demo_codec_ok]) (simp add: demo_log_def demo_entries_def)
  have f: "entry_from_str demo_codec = demo_from_str" by (simp add: demo_codec_def)
  have t: "entry_text demo_codec (WBegin 3 3) = ''B'' @ show_u64 3 @ '','' @ show_u64 3"
    by (simp add: entry_text_def demo_codec_def)
  show "1 < length (entry_text demo_codec (WBegin 3 3))" by (simp add: t)
  show "entry_from_str demo_codec (take 1 (entry_text demo_codec (WBegin 3 3))) = Inl ''number''"
    by (simp add: t f demo_from_str_def before_def parse_u64_def)
  show "\<not> is_blank (take 1 (entry_text demo_codec (WBegin 3 3)))"
    by (simp add: t is_blank_def is_whitespace_def)
qed

section \<open>Truncation\<close>

lemma replay_step_done:
  "replay_step utc (txs, d0 @ d) e =
     (fst (replay_step utc (txs, d) e), d0 @ snd (replay_step utc (txs, d) e))"
  by (cases e) (auto split: option.splits)

lemma replay_foldl_done:
  "foldl (replay_step utc) (txs, d0 @ d) es =
     (fst (foldl (replay_step utc) (txs, d) es), d0 @ snd (foldl (replay_step utc) (txs, d) es))"
proof (induction es arbitrary: txs d)
  case (Cons e es)
  show ?case
    using Cons.IH [of "fst (replay_step utc (txs, d) e)" "snd (replay_step utc (txs, d) e)"]
    by (simp add: replay_step_done)
qed simp

lemma replay_split:
  assumes "log_state pre = Some (used, {})"
  shows "replay_entries utc (pre @ WCheckpoint t # post) =
    replay_entries utc pre @ replay_entries utc post"
proof -
  obtain txs dn where f: "foldl (replay_step utc) ([], []) pre = (txs, dn)" by fastforce
  have "txs = []" using replay_inv_log [OF assms, of utc] f by (simp add: replay_inv_def)
  then show ?thesis
    using f replay_foldl_done [of utc "[]" dn "[]" post] by (simp add: replay_entries_def)
qed

lemma after_checkpoint_split:
  "\<not> list_ex is_checkpoint post \<Longrightarrow> after_checkpoint (pre @ WCheckpoint t # post) = Some post"
  by (simp add: after_checkpoint_def list_ex_iff takeWhile_append)

lemma entries_text_ok:
  "wal_codec_ok C E \<Longrightarrow> set es \<subseteq> E \<Longrightarrow> entries_text C es = Inr (log_text C es)"
  by (induction es) (auto simp: log_text_def wal_codec_okD(1))

lemma truncate_wal_log_text:
  assumes "wal_codec_ok C (set (pre @ WCheckpoint t # post))" "\<not> list_ex is_checkpoint post"
  shows "truncate_wal C None (Some (log_text C (pre @ WCheckpoint t # post))) =
    (Inr (), Some (log_text C post))"
proof -
  have "set post \<subseteq> set (pre @ WCheckpoint t # post)" by auto
  from entries_text_ok [OF assms(1) this] show ?thesis
    using read_all_log_text [OF assms(1) order_refl] after_checkpoint_split [OF assms(2)]
    by (simp add: truncate_wal_def)
qed

text \<open>
  truncation at a checkpoint is safe when no transaction is open there: the truncated log
  replays to exactly the transactions that committed after the checkpoint, and the ones it drops
  are those that committed before it.
\<close>

theorem truncate_wal_safe:
  assumes "wal_codec_ok C (set (pre @ WCheckpoint t # post))" "\<not> list_ex is_checkpoint post"
    and "log_state pre = Some (used, {})"
  shows "truncate_wal C None (Some (log_text C (pre @ WCheckpoint t # post))) =
      (Inr (), Some (log_text C post)) \<and>
    replay C utc (Some (log_text C post)) = Inr (replay_entries utc post) \<and>
    replay C utc (Some (log_text C (pre @ WCheckpoint t # post))) =
      Inr (replay_entries utc pre @ replay_entries utc post)"
proof -
  have post: "set post \<subseteq> set (pre @ WCheckpoint t # post)" by auto
  show ?thesis
    using truncate_wal_log_text [OF assms(1,2)] read_all_log_text [OF assms(1) order_refl]
      read_all_log_text [OF assms(1) post] replay_split [OF assms(3)]
    by (simp add: replay_def)
qed

theorem truncate_wal_safe_witness:
  "replay demo_codec 0 (Some (log_text demo_codec (demo_log @ [WCheckpoint 5]))) =
   Inr (replay_entries 0 demo_log @ replay_entries 0 [])"
proof -
  have "wal_codec_ok demo_codec (set (demo_log @ WCheckpoint 5 # []))"
    by (rule wal_codec_ok_mono [OF demo_codec_ok]) (simp add: demo_log_def demo_entries_def)
  moreover have "log_state demo_log = Some ({1, 2}, {})"
    by (auto simp: log_state_def demo_log_def)
  ultimately show ?thesis
    using truncate_wal_safe [of demo_codec demo_log 5 "[]" "{1, 2}" 0] by simp
qed

lemma log_state_append:
  "log_state (es @ fs) = foldl (\<lambda>s e. Option.bind s (log_step e)) (log_state es) fs"
  by (simp add: log_state_def)

lemma log_fold_None [simp]: "foldl (\<lambda>s e. Option.bind s (log_step e)) None es = None"
  by (induction es) auto

lemma log_no_second_begin:
  "foldl (\<lambda>s e. Option.bind s (log_step e)) (Some (used, op)) es \<noteq> None \<Longrightarrow> i \<in> used \<Longrightarrow>
   WBegin i t \<notin> set es"
proof (induction es arbitrary: used op)
  case (Cons e es)
  then obtain u o' where s: "log_step e (used, op) = Some (u, o')" by (cases "log_step e (used, op)") auto
  then have "i \<in> u" using Cons.prems by (cases e) (auto split: if_splits)
  with Cons s show ?case by (cases e) (auto split: if_splits)
qed simp

lemma replay_only_begun:
  "(\<forall>i tx. map_of (fst s) i = Some tx \<longrightarrow> id_of tx = i) \<Longrightarrow> smap_ok (fst s) \<Longrightarrow>
   \<forall>t. WBegin i t \<notin> set es \<Longrightarrow> map_of (fst s) i = None \<Longrightarrow> i \<notin> id_of ` set (snd s) \<Longrightarrow>
   i \<notin> id_of ` set (snd (foldl (replay_step utc) s es))"
proof (induction es arbitrary: s)
  case (Cons e es)
  obtain txs dn where s: "s = (txs, dn)" by fastforce
  let ?s = "replay_step utc (txs, dn) e"
  have "(\<forall>i tx. map_of (fst ?s) i = Some tx \<longrightarrow> id_of tx = i) \<and> smap_ok (fst ?s) \<and>
      map_of (fst ?s) i = None \<and> i \<notin> id_of ` set (snd ?s)"
    using Cons.prems unfolding s
    by (cases e) (auto simp: tx_new_def add_operation_def tx_commit_def split: option.splits if_splits)
  then show ?case using Cons.IH [of ?s] Cons.prems(3) s by simp
qed simp

text \<open>
  a transaction that is open at the checkpoint and commits after it is lost by truncation: the
  full log recovers it, the truncated log does not, because its begin entry (and every operation
  logged before the checkpoint) is cut off.
\<close>

theorem truncate_wal_loses_open:
  assumes "wal_codec_ok C (set (pre @ WCheckpoint t # post))" "\<not> list_ex is_checkpoint post"
    and "log_state (pre @ WCheckpoint t # post) \<noteq> None"
    and "log_state pre = Some (used, op)" "i \<in> op" "i \<in> set (commits_of post)"
  shows "truncate_wal C None (Some (log_text C (pre @ WCheckpoint t # post))) =
      (Inr (), Some (log_text C post)) \<and>
    i \<in> id_of ` set (replay_entries utc (pre @ WCheckpoint t # post)) \<and>
    i \<notin> id_of ` set (replay_entries utc post)"
proof (intro conjI)
  let ?es = "pre @ WCheckpoint t # post"
  show "truncate_wal C None (Some (log_text C ?es)) = (Inr (), Some (log_text C post))"
    by (rule truncate_wal_log_text [OF assms(1,2)])
  obtain u o' where "log_state ?es = Some (u, o')" using assms(3) by auto
  from replay_inv_log [OF this, of utc]
  have v: "map tx_view (replay_entries utc ?es) = map (\<lambda>i. (i, ops_of i ?es, Committed)) (commits_of ?es)"
    by (simp add: replay_inv_def replay_entries_def)
  have "id_of ` set (replay_entries utc ?es) = set (map fst (map tx_view (replay_entries utc ?es)))"
    by (force simp: tx_view_def)
  also have "\<dots> = set (commits_of ?es)" unfolding v by force
  finally show "i \<in> id_of ` set (replay_entries utc ?es)" using assms(6) by simp
  have "op \<subseteq> used" using replay_inv_log [OF assms(4), of utc] by (simp add: replay_inv_def)
  then have "\<forall>t. WBegin i t \<notin> set post"
    using log_no_second_begin [of used op post i] assms(3,4,5)
    by (auto simp: log_state_append)
  then show "i \<notin> id_of ` set (replay_entries utc post)"
    unfolding replay_entries_def by (intro replay_only_begun) auto
qed

theorem truncate_wal_loses_open_witness:
  "7 \<in> id_of ` set (replay_entries 0 [WBegin 7 7, WOperation 7 demo_op, WCheckpoint 8, WCommit 7 9]) \<and>
   7 \<notin> id_of ` set (replay_entries 0 [WCommit 7 9])"
proof -
  have ok: "wal_codec_ok demo_codec (set ([WBegin 7 7, WOperation 7 demo_op] @ WCheckpoint 8 # [WCommit 7 9]))"
    by (rule wal_codec_ok_mono [OF demo_codec_ok]) (simp add: demo_entries_def)
  show ?thesis
    using truncate_wal_loses_open [OF ok, of "{7}" "{7}" 7 0] by (simp add: log_state_def)
qed

end
