(* ===== verification/TxManager.thy ===== *)
theory TxManager
  imports Transaction
begin

text \<open>
  The transaction manager, \<^verbatim>\<open>src/transaction/manager.rs\<close>, over the log of \<open>Transaction\<close>: the active
  transactions, validation, commit, rollback, expiry and checkpoints. A shared
  \<^verbatim>\<open>Arc<RwLock<Transaction>>\<close> is the entry of the table; a client's change to it is \<open>mgr_update\<close>.
  The iteration order of a hash table is the argument \<open>ord\<close>, a permutation.
\<close>

section \<open>The manager\<close>

record tx_manager =
  active :: "(tx_id, transaction) smap"
  wal_file :: bytes
  timeout :: int

definition mgr_new :: tx_manager where
  "mgr_new = \<lparr> active = [], wal_file = [], timeout = 300 * 1000000000 \<rparr>"


definition mgr_get :: "tx_manager \<Rightarrow> tx_id \<Rightarrow> transaction db_result" where
  "mgr_get m i =
     (case map_of (active m) i of
        Some tx \<Rightarrow> Inr tx
      | None \<Rightarrow> Inl (TransactionNotFound (show_tx_id i)))"

definition mgr_is_active :: "tx_manager \<Rightarrow> tx_id \<Rightarrow> bool" where
  "mgr_is_active m i =
     (case map_of (active m) i of Some tx \<Rightarrow> tx_is_active tx | None \<Rightarrow> False)"

definition mgr_update :: "tx_id \<Rightarrow> (transaction \<Rightarrow> transaction) \<Rightarrow> tx_manager \<Rightarrow> tx_manager" where
  "mgr_update i f m =
     (case map_of (active m) i of
        Some tx \<Rightarrow> m\<lparr> active := smap_put i (f tx) (active m) \<rparr>
      | None \<Rightarrow> m)"

definition op_name :: "operation \<Rightarrow> string" where
  "op_name op = op_database op @ '':'' @ op_collection op @ '':'' @ op_key op"

definition seen_keys :: "operation list \<Rightarrow> (string, operation list) smap" where
  "seen_keys ops =
     foldl (\<lambda>m op. smap_put (op_name op) (smap_get_or [] m (op_name op) @ [op]) m) [] ops"

definition key_errors :: "string \<Rightarrow> operation list \<Rightarrow> string list" where
  "key_errors key ops =
     (let inserts = filter is_OpInsert ops;
          e1 = (if length inserts > 1
                then [''Duplicate insert for key '' @ key @ '' within transaction''] else []);
          deletes = filter is_OpDelete ops;
          e2 = (if deletes \<noteq> [] then
                  (let updates_after_delete = filter is_OpUpdate (dropWhile (\<lambda>op. \<not> is_OpDelete op) ops)
                   in if updates_after_delete \<noteq> []
                      then [''Cannot update deleted document '' @ key @ '' within transaction'']
                      else [])
                else [])
      in e1 @ e2)"

definition validation_messages :: "(string list \<Rightarrow> string list) \<Rightarrow> operation list \<Rightarrow> string list" where
  "validation_messages ord ops =
     (let seen = seen_keys ops
      in concat (map (\<lambda>k. key_errors k (smap_get_or [] seen k)) (ord (map fst seen))))"

definition mgr_validate ::
    "(string list \<Rightarrow> string list) \<Rightarrow> tx_id \<Rightarrow> tx_manager \<Rightarrow> unit db_result \<times> tx_manager" where
  "mgr_validate ord i m =
     (case mgr_get m i of
        Inl e \<Rightarrow> (Inl e, m)
      | Inr tx \<Rightarrow>
          (let errors = validation_messages ord (operations tx);
               tx' = foldl add_validation_error (clear_validation_errors tx) errors;
               m' = mgr_update i (\<lambda>_. tx') m
           in if has_validation_errors tx'
              then (Inl (TransactionConflict (''Transaction validation failed: '' @
                      join ''; '' (validation_errors tx'))), m')
              else (Inr (), m')))"

fun show_state :: "tx_state \<Rightarrow> string" where
  "show_state Active = ''Active''"
| "show_state Preparing = ''Preparing''"
| "show_state Committed = ''Committed''"
| "show_state Aborted = ''Aborted''"

definition mgr_commit ::
    "wal_codec \<Rightarrow> io_outcome \<Rightarrow> (string list \<Rightarrow> string list) \<Rightarrow> u64 \<Rightarrow> u64 \<Rightarrow> tx_id \<Rightarrow> tx_manager \<Rightarrow>
     unit db_result \<times> tx_manager" where
  "mgr_commit C io ord now1 now2 i m =
     (case mgr_validate ord i m of
        (Inl e, m1) \<Rightarrow> (Inl e, m1)
      | (Inr _, m1) \<Rightarrow>
          (case mgr_get m1 i of
             Inl e \<Rightarrow> (Inl e, m1)
           | Inr tx \<Rightarrow>
               if \<not> tx_is_active tx then
                 (Inl (TransactionConflict (''Transaction '' @ show_tx_id i @
                    '' is not active (state: '' @ show_state (state_of tx) @ '')'')), m1)
               else
                 (let m2 = mgr_update i (tx_prepare now1) m1
                  in case write_commit C io now2 i (wal_file m2) of
                       (Inl e, f) \<Rightarrow> (Inl e, m2\<lparr> wal_file := f \<rparr>)
                     | (Inr _, f) \<Rightarrow>
                         (Inr (), (mgr_update i tx_commit m2)
                            \<lparr> wal_file := f,
                              active := smap_del i (active (mgr_update i tx_commit m2)) \<rparr>))))"

definition mgr_rollback ::
    "wal_codec \<Rightarrow> io_outcome \<Rightarrow> u64 \<Rightarrow> tx_id \<Rightarrow> tx_manager \<Rightarrow> unit db_result \<times> tx_manager" where
  "mgr_rollback C io now i m =
     (case mgr_get m i of
        Inl e \<Rightarrow> (Inl e, m)
      | Inr tx \<Rightarrow>
          (case write_abort C io now i (wal_file m) of
             (Inl e, f) \<Rightarrow> (Inl e, m\<lparr> wal_file := f \<rparr>)
           | (Inr _, f) \<Rightarrow>
               (Inr (), (mgr_update i tx_abort m)
                  \<lparr> wal_file := f, active := smap_del i (active (mgr_update i tx_abort m)) \<rparr>)))"

definition active_transaction_ids :: "(tx_id list \<Rightarrow> tx_id list) \<Rightarrow> tx_manager \<Rightarrow> tx_id list" where
  "active_transaction_ids ord m = ord (map fst (active m))"

definition transaction_count :: "tx_manager \<Rightarrow> nat" where
  "transaction_count m = length (active m)"

text \<open>Expired: older than the timeout; a creation time in the future counts as age zero.\<close>

definition is_expired :: "int \<Rightarrow> tx_manager \<Rightarrow> transaction \<Rightarrow> bool" where
  "is_expired utc m tx \<longleftrightarrow> max 0 (utc - created_at tx) > timeout m"

definition cleanup_expired ::
    "wal_codec \<Rightarrow> (tx_id \<Rightarrow> io_outcome) \<Rightarrow> (tx_id list \<Rightarrow> tx_id list) \<Rightarrow> int \<Rightarrow> u64 \<Rightarrow> tx_manager \<Rightarrow>
     nat \<times> tx_manager" where
  "cleanup_expired C io ord utc now m =
     (let expired = filter (\<lambda>i. case map_of (active m) i of
                               Some tx \<Rightarrow> is_expired utc m tx | None \<Rightarrow> False)
                      (ord (map fst (active m)))
      in (length expired, foldl (\<lambda>m i. snd (mgr_rollback C (io i) now i m)) m expired))"



section \<open>Validation\<close>

text \<open>Two operations of one transaction, in this order, that the manager refuses on one document.\<close>

definition ops_clash :: "operation \<Rightarrow> operation \<Rightarrow> bool" where
  "ops_clash a b \<longleftrightarrow> is_OpInsert a \<and> is_OpInsert b \<or> is_OpDelete a \<and> is_OpUpdate b"

definition tx_ops_ok :: "operation list \<Rightarrow> bool" where
  "tx_ops_ok ops \<longleftrightarrow> sorted_wrt (\<lambda>a b. op_name a = op_name b \<longrightarrow> \<not> ops_clash a b) ops"

definition perm_order :: "('a list \<Rightarrow> 'a list) \<Rightarrow> bool" where
  "perm_order ord \<longleftrightarrow> (\<forall>xs. distinct xs \<longrightarrow> distinct (ord xs) \<and> set (ord xs) = set xs)"

lemma filter_le_one: "length (filter P xs) \<le> 1 \<longleftrightarrow> sorted_wrt (\<lambda>a b. \<not> (P a \<and> P b)) xs"
proof (induction xs)
  case (Cons x xs)
  have "filter P xs = [] \<longleftrightarrow> (\<forall>b \<in> set xs. \<not> P b)" by (simp add: filter_empty_conv)
  moreover have "(\<forall>b \<in> set xs. \<not> P b) \<Longrightarrow> sorted_wrt (\<lambda>a b. \<not> (P a \<and> P b)) xs"
    by (induction xs) auto
  ultimately show ?case using Cons by auto
qed simp

lemma filter_dropWhile_empty:
  assumes "\<And>x. D x \<Longrightarrow> \<not> U x"
  shows "filter U (dropWhile (\<lambda>x. \<not> D x) xs) = [] \<longleftrightarrow> sorted_wrt (\<lambda>a b. \<not> (D a \<and> U b)) xs"
proof (induction xs)
  case (Cons x xs)
  have "(\<forall>b \<in> set xs. \<not> U b) \<Longrightarrow> sorted_wrt (\<lambda>a b. \<not> (D a \<and> U b)) xs"
    by (induction xs) auto
  with Cons show ?case using assms by (auto simp: filter_empty_conv)
qed simp

lemma sorted_wrt_by_class:
  "(\<forall>k. sorted_wrt R (filter (\<lambda>x. f x = k) xs)) \<longleftrightarrow> sorted_wrt (\<lambda>a b. f a = f b \<longrightarrow> R a b) xs"
proof (induction xs)
  case (Cons x xs)
  have "(\<forall>k. sorted_wrt R (filter (\<lambda>y. f y = k) (x # xs))) \<longleftrightarrow>
      (\<forall>y \<in> set xs. f y = f x \<longrightarrow> R x y) \<and> (\<forall>k. sorted_wrt R (filter (\<lambda>y. f y = k) xs))"
    by (auto split: if_splits)
  also have "\<dots> \<longleftrightarrow> sorted_wrt (\<lambda>a b. f a = f b \<longrightarrow> R a b) (x # xs)"
    unfolding Cons.IH by auto
  finally show ?case .
qed simp

lemma sorted_wrt_conj:
  "sorted_wrt (\<lambda>a b. P a b \<and> Q a b) xs \<longleftrightarrow> sorted_wrt P xs \<and> sorted_wrt Q xs"
  by (induction xs) auto

lemma key_errors_empty: "key_errors k ops = [] \<longleftrightarrow> sorted_wrt (\<lambda>a b. \<not> ops_clash a b) ops"
proof -
  have d: "filter is_OpUpdate (dropWhile (\<lambda>op. \<not> is_OpDelete op) ops) = [] \<longleftrightarrow>
      sorted_wrt (\<lambda>a b. \<not> (is_OpDelete a \<and> is_OpUpdate b)) ops"
  proof (rule filter_dropWhile_empty)
    fix x show "is_OpDelete x \<Longrightarrow> \<not> is_OpUpdate x" by (cases x) auto
  qed
  have "key_errors k ops = [] \<longleftrightarrow> length (filter is_OpInsert ops) \<le> 1 \<and>
      filter is_OpUpdate (dropWhile (\<lambda>op. \<not> is_OpDelete op) ops) = []"
  proof (cases "filter is_OpDelete ops = []")
    case True
    then have "dropWhile (\<lambda>op. \<not> is_OpDelete op) ops = []"
      by (simp add: filter_empty_conv dropWhile_eq_Nil_conv)
    then have "filter is_OpUpdate (dropWhile (\<lambda>op. \<not> is_OpDelete op) ops) = []"
      by (simp only: filter.simps)
    with True show ?thesis by (simp add: key_errors_def not_less)
  next
    case False
    then show ?thesis by (simp add: key_errors_def Let_def not_less)
  qed
  also have "\<dots> \<longleftrightarrow> sorted_wrt (\<lambda>a b. \<not> ops_clash a b) ops"
    unfolding filter_le_one d sorted_wrt_conj [symmetric] by (simp add: ops_clash_def)
  finally show ?thesis .
qed

lemma seen_keys_inv:
  "smap_ok (seen_keys ops) \<and>
   (\<forall>k. smap_get_or [] (seen_keys ops) k = filter (\<lambda>op. op_name op = k) ops) \<and>
   set (map fst (seen_keys ops)) = op_name ` set ops"
proof (induction ops rule: rev_induct)
  case Nil
  show ?case by (simp add: seen_keys_def smap_get_or_def)
next
  case (snoc op ops)
  have s: "seen_keys (ops @ [op]) =
      smap_put (op_name op) (smap_get_or [] (seen_keys ops) (op_name op) @ [op]) (seen_keys ops)"
    by (simp add: seen_keys_def)
  have "set (map fst (smap_put k v m)) = insert k (set (map fst m))" for k v and m :: "(string, operation list) smap"
    by (induction m) auto
  with snoc s show ?case by auto
qed

lemma validation_messages_empty:
  assumes "perm_order ord"
  shows "validation_messages ord ops = [] \<longleftrightarrow> tx_ops_ok ops"
proof -
  note inv = seen_keys_inv [of ops]
  have keys: "set (ord (map fst (seen_keys ops))) = op_name ` set ops"
    using assms inv smap_ok_distinct [of "seen_keys ops"] by (auto simp: perm_order_def)
  have "validation_messages ord ops = [] \<longleftrightarrow>
      (\<forall>k \<in> op_name ` set ops. sorted_wrt (\<lambda>a b. \<not> ops_clash a b) (filter (\<lambda>op. op_name op = k) ops))"
    using inv by (auto simp: validation_messages_def Let_def keys key_errors_empty)
  also have "\<dots> \<longleftrightarrow> (\<forall>k. sorted_wrt (\<lambda>a b. \<not> ops_clash a b) (filter (\<lambda>op. op_name op = k) ops))"
  proof -
    have "filter (\<lambda>op. op_name op = k) ops = []" if "k \<notin> op_name ` set ops" for k
      using that by (auto simp: filter_empty_conv)
    then show ?thesis by (metis sorted_wrt.simps(1))
  qed
  also have "\<dots> \<longleftrightarrow> tx_ops_ok ops"
    unfolding sorted_wrt_by_class tx_ops_ok_def by simp
  finally show ?thesis .
qed

lemma fold_validation_errors:
  "foldl add_validation_error (clear_validation_errors tx) es = tx\<lparr> validation_errors := es \<rparr>"
proof -
  have "foldl add_validation_error tx es = tx\<lparr> validation_errors := validation_errors tx @ es \<rparr>" for tx
    by (induction es arbitrary: tx) (auto simp: add_validation_error_def)
  then show ?thesis by (simp add: clear_validation_errors_def)
qed

definition mgr_inv :: "tx_manager \<Rightarrow> bool" where
  "mgr_inv m \<longleftrightarrow> smap_ok (active m) \<and> (\<forall>i tx. map_of (active m) i = Some tx \<longrightarrow> id_of tx = i)"

lemma mgr_validate_result:
  assumes "perm_order ord" "map_of (active m) i = Some tx"
  shows "(fst (mgr_validate ord i m) = Inr () \<longleftrightarrow> tx_ops_ok (operations tx)) \<and>
    snd (mgr_validate ord i m) =
      m\<lparr> active := smap_put i (tx\<lparr> validation_errors := validation_messages ord (operations tx) \<rparr>) (active m) \<rparr>"
  using assms validation_messages_empty [OF assms(1), of "operations tx"]
  by (simp add: mgr_validate_def mgr_get_def mgr_update_def Let_def fold_validation_errors
      has_validation_errors_def)


section \<open>Commit\<close>

lemma mgr_commit_result:
  assumes "wal_codec_ok C {WCommit i now2}" "perm_order ord" "mgr_inv m" "map_of (active m) i = Some tx"
  shows "mgr_commit C IoOk ord now1 now2 i m =
    (if \<not> tx_ops_ok (operations tx) then mgr_validate ord i m
     else if state_of tx \<noteq> Active then
       (Inl (TransactionConflict (''Transaction '' @ show_tx_id i @
          '' is not active (state: '' @ show_state (state_of tx) @ '')'')),
        snd (mgr_validate ord i m))
     else (Inr (), m\<lparr> active := smap_del i (active m),
                      wal_file := wal_file m @ entry_text C (WCommit i now2) @ [newline] \<rparr>))"
proof -
  note v = mgr_validate_result [OF assms(2,4)]
  obtain r m1 where r: "mgr_validate ord i m = (r, m1)" by fastforce
  have m1: "m1 = m\<lparr> active := smap_put i (tx\<lparr> validation_errors := validation_messages ord (operations tx) \<rparr>)
      (active m) \<rparr>" using v r by simp
  have ok: "smap_ok (active m)" using assms(3) by (simp add: mgr_inv_def)
  have del: "smap_del i (smap_put i x (smap_put i y (smap_put i z (active m)))) = smap_del i (active m)" for x y z
    using ok by (intro smap_eqI) auto
  show ?thesis
  proof (cases "tx_ops_ok (operations tx)")
    case True
    then have "r = Inr ()" using v r by simp
    then show ?thesis
      using True ok wal_codec_okD(1) [OF assms(1), of "WCommit i now2"] r
      by (simp add: mgr_commit_def m1 mgr_get_def mgr_update_def tx_is_active_def Let_def
          write_commit_def wal_write_def del)
  next
    case False
    then obtain e where "r = Inl e" using v r by (cases r) auto
    then show ?thesis using False r by (simp add: mgr_commit_def)
  qed
qed

text \<open>
  a commit succeeds exactly when the transaction is known, still active, and no two of its
  operations clash on a document (two inserts, or an update after a delete). On success the
  transaction leaves the table and its commit entry is the new end of the log; otherwise the log is
  untouched and the transaction stays in the table.
\<close>

theorem mgr_commit_correct:
  assumes "wal_codec_ok C {WCommit i now2}" "perm_order ord" "mgr_inv m"
    and "mgr_commit C IoOk ord now1 now2 i m = (r, m')"
  shows "(r = Inr () \<longleftrightarrow>
      (\<exists>tx. map_of (active m) i = Some tx \<and> state_of tx = Active \<and> tx_ops_ok (operations tx))) \<and>
    (r = Inr () \<longrightarrow> active m' = smap_del i (active m) \<and>
       wal_file m' = wal_file m @ entry_text C (WCommit i now2) @ [newline]) \<and>
    (r \<noteq> Inr () \<longrightarrow> wal_file m' = wal_file m \<and> dom (map_of (active m')) = dom (map_of (active m)))"
proof (cases "map_of (active m) i")
  case None
  then have "mgr_commit C IoOk ord now1 now2 i m = (Inl (TransactionNotFound (show_tx_id i)), m)"
    by (simp add: mgr_commit_def mgr_validate_def mgr_get_def)
  with None assms(4) show ?thesis by auto
next
  case (Some tx)
  note c = mgr_commit_result [OF assms(1-3) Some, of now1]
  note v = mgr_validate_result [OF assms(2) Some]
  have ok: "smap_ok (active m)" using assms(3) by (simp add: mgr_inv_def)
  obtain r1 m1 where r: "mgr_validate ord i m = (r1, m1)" by fastforce
  show ?thesis
    using assms(4) Some v ok unfolding c r by (auto split: if_splits)
qed

definition demo_mgr :: tx_manager where
  "demo_mgr = mgr_new\<lparr> active := [(5, add_operation (tx_new 5 0 ReadCommitted) demo_op)] \<rparr>"

theorem mgr_commit_correct_witness:
  "fst (mgr_commit demo_codec IoOk id 6 7 5 demo_mgr) = Inr () \<and>
   active (snd (mgr_commit demo_codec IoOk id 6 7 5 demo_mgr)) = []"
proof -
  obtain r m' where e: "mgr_commit demo_codec IoOk id 6 7 5 demo_mgr = (r, m')" by fastforce
  have "wal_codec_ok demo_codec {WCommit 5 7}"
    by (rule wal_codec_ok_mono [OF demo_codec_ok]) (simp add: demo_entries_def)
  moreover have "mgr_inv demo_mgr"
    by (simp add: mgr_inv_def demo_mgr_def add_operation_def tx_new_def)
  ultimately have "r = Inr () \<and> active m' = []"
    using mgr_commit_correct [OF _ _ _ e]
    by (simp add: perm_order_def demo_mgr_def add_operation_def tx_new_def tx_ops_ok_def smap_del_def)
  with e show ?thesis by simp
qed

section \<open>What recovery finds\<close>












end
