(* ===== verification/CollectionTx.thy ===== *)
theory CollectionTx
  imports Batches TxManager
begin

text \<open>
  Transactions on one collection, \<^verbatim>\<open>src/storage/collection/txn.rs\<close>: operations are collected in a
  transaction and applied to the collection in one write when it commits. The log argument of the
  first three methods is unused in the code and left out.
\<close>

section \<open>Collecting operations\<close>

text \<open>\<^verbatim>\<open>split_once(':')\<close> of the collection's name, with its default.\<close>

definition split_name :: "string \<Rightarrow> string \<times> string" where
  "split_name n =
     (if CHR '':'' \<in> set n
      then (takeWhile (\<lambda>x. x \<noteq> CHR '':'') n, tl (dropWhile (\<lambda>x. x \<noteq> CHR '':'') n))
      else ([], n))"

definition insert_tx ::
    "('db, 'v, 's, 'f) env \<Rightarrow> fresh \<Rightarrow> json \<Rightarrow> ('db, 'v, 's, 'f) collection \<Rightarrow> transaction \<Rightarrow>
     document db_result \<times> transaction" where
  "insert_tx E fr data c tx =
     (case res_bind (if collection_type c = ''edge'' then validate_edge_document data else Inr ()) (\<lambda>_.
           res_bind (take_key (fr_uuid fr) data) (\<lambda>(key, data).
           (let doc = doc_with_key (fr_rev fr) (fr_now fr) (coll_name c) key data
            in res_bind (check_unique_constraints E key (to_value (env_doc E) doc) c) (\<lambda>_. Inr doc)))) of
        Inl e \<Rightarrow> (Inl e, tx)
      | Inr doc \<Rightarrow>
          (Inr doc, add_operation tx (OpInsert (fst (split_name (coll_name c))) (snd (split_name (coll_name c)))
                                        (doc_key_of doc) (to_value (env_doc E) doc))))"

definition update_tx ::
    "('db, 'v, 's, 'f) env \<Rightarrow> fresh \<Rightarrow> string \<Rightarrow> json \<Rightarrow> ('db, 'v, 's, 'f) collection \<Rightarrow> transaction \<Rightarrow>
     document db_result \<times> transaction" where
  "update_tx E fr key data c tx =
     (if collection_type c = ''timeseries''
      then (Inl (OperationNotSupported ''Update operations are not allowed on timeseries collections''), tx)
      else
        case res_bind (coll_get E key c) (\<lambda>old.
             (let doc = doc_update (fr_rev fr) (fr_now fr) data old
              in res_bind (if collection_type c = ''edge'' then validate_edge_document (to_value (env_doc E) doc)
                           else Inr ()) (\<lambda>_. Inr (old, doc)))) of
          Inl e \<Rightarrow> (Inl e, tx)
        | Inr (old, doc) \<Rightarrow>
            (Inr doc, add_operation tx (OpUpdate (fst (split_name (coll_name c))) (snd (split_name (coll_name c)))
                                          key (to_value (env_doc E) old) (to_value (env_doc E) doc))))"

definition delete_tx ::
    "('db, 'v, 's, 'f) env \<Rightarrow> string \<Rightarrow> ('db, 'v, 's, 'f) collection \<Rightarrow> transaction \<Rightarrow>
     unit db_result \<times> transaction" where
  "delete_tx E key c tx =
     (case coll_get E key c of
        Inl e \<Rightarrow> (Inl e, tx)
      | Inr doc \<Rightarrow>
          (Inr (), add_operation tx (OpDelete (fst (split_name (coll_name c))) (snd (split_name (coll_name c)))
                                       key (to_value (env_doc E) doc))))"

section \<open>Applying operations\<close>

text \<open>The document that an insert or update stores: a new one, so its creation time is the time of
  the commit.\<close>

definition tx_doc :: "('db, 'v, 's, 'f) collection \<Rightarrow> fresh \<Rightarrow> string \<Rightarrow> json \<Rightarrow> document" where
  "tx_doc c fr key data = doc_with_key (fr_rev fr) (fr_now fr) (coll_name c) key data"

text \<open>The write operations and the event of one operation.\<close>

fun op_batch ::
    "('db, 'v, 's, 'f) env \<Rightarrow> ('db, 'v, 's, 'f) collection \<Rightarrow> fresh \<Rightarrow> operation \<Rightarrow>
     (write_op list \<times> change_event list) db_result" where
  "op_batch E c fr (OpInsert _ _ key data) =
     res_bind (serialize_doc (env_doc E) (tx_doc c fr key data)) (\<lambda>b.
     res_bind (insert_ops E key data c) (\<lambda>ops.
       Inr (Put (doc_key key) b # ops, [insert_event key data])))"
| "op_batch E c fr (OpUpdate _ _ key old_data new_data) =
     res_bind (serialize_doc (env_doc E) (tx_doc c fr key new_data)) (\<lambda>b.
     res_bind (update_ops E key old_data new_data c) (\<lambda>ops.
       Inr (Put (doc_key key) b # ops, [update_event key old_data new_data])))"
| "op_batch E c fr (OpDelete _ _ key old_data) =
     res_bind (delete_ops E key old_data c) (\<lambda>ops.
       Inr (Del (doc_key key) # ops, [delete_event key old_data]))"
| "op_batch E c fr (OpPutBlobChunk _ _ _ _ _) = Inr ([], [])"
| "op_batch E c fr (OpDeleteBlob _ _ _) = Inr ([], [])"

fun tx_batch ::
    "('db, 'v, 's, 'f) env \<Rightarrow> ('db, 'v, 's, 'f) collection \<Rightarrow> (fresh \<times> operation) list \<Rightarrow>
     write_op list \<Rightarrow> change_event list \<Rightarrow> (write_op list \<times> change_event list) db_result" where
  "tx_batch E c [] batch change_events = Inr (batch, change_events)"
| "tx_batch E c ((fr, op) # ops) batch change_events =
     res_bind (op_batch E c fr op) (\<lambda>(ws, evs). tx_batch E c ops (batch @ ws) (change_events @ evs))"

fun op_upkeep ::
    "('db, 'v, 's, 'f) env \<Rightarrow> operation \<Rightarrow> ('db, 'v, 's, 'f) collection \<Rightarrow> ('db, 'v, 's, 'f) collection" where
  "op_upkeep E (OpInsert _ _ key data) c = increment_count (update_vector_indexes_on_upsert E key data c)"
| "op_upkeep E (OpUpdate _ _ key _ new_data) c =
     update_vector_indexes_on_upsert E key new_data (update_vector_indexes_on_delete E key c)"
| "op_upkeep E (OpDelete _ _ _ _) c = decrement_count c"
| "op_upkeep E (OpPutBlobChunk _ _ _ _ _) c = c"
| "op_upkeep E (OpDeleteBlob _ _ _) c = c"

definition apply_transaction_operations ::
    "('db, 'v, 's, 'f) env \<Rightarrow> (fresh \<times> operation) list \<Rightarrow> ('db, 'v, 's, 'f, unit) act" where
  "apply_transaction_operations E ops c =
     bind (lift (tx_batch E c ops [] [])) (\<lambda>(batch, change_events).
     bind (db_write E ''Failed to commit transaction batch: '' batch) (\<lambda>_.
     bind (modify (fold (\<lambda>(_, op). op_upkeep E op) ops)) (\<lambda>_.
     modify (fold send_change change_events)))) c"

section \<open>Correctness\<close>

text \<open>What an operation does to the abstract documents.\<close>

fun op_docs ::
    "('db, 'v, 's, 'f) collection \<Rightarrow> fresh \<times> operation \<Rightarrow> (string \<rightharpoonup> document) \<Rightarrow> (string \<rightharpoonup> document)" where
  "op_docs c (fr, OpInsert _ _ key data) D = D(key \<mapsto> tx_doc c fr key data)"
| "op_docs c (fr, OpUpdate _ _ key _ new_data) D = D(key \<mapsto> tx_doc c fr key new_data)"
| "op_docs c (fr, OpDelete _ _ key _) D = D(key := None)"
| "op_docs c (fr, OpPutBlobChunk _ _ _ _ _) D = D"
| "op_docs c (fr, OpDeleteBlob _ _ _) D = D"

fun op_delta :: "operation \<Rightarrow> int" where
  "op_delta (OpInsert _ _ _ _) = 1"
| "op_delta (OpDelete _ _ _ _) = -1"
| "op_delta _ = 0"

text \<open>An operation fits the documents it is applied to: an insert uses a new key, the old value of an
  update or a delete has the index entries of the stored document, and the value of the operation has
  the entries of the document that is stored for it (so no index is on a system field).\<close>

fun op_fits ::
    "('db, 'v, 's, 'f) env \<Rightarrow> ('db, 'v, 's, 'f) collection \<Rightarrow> (string \<rightharpoonup> document) \<Rightarrow> fresh \<times> operation \<Rightarrow> bool" where
  "op_fits E c D (fr, OpInsert _ _ key data) \<longleftrightarrow>
     key_ok key \<and> D key = None \<and>
     ins_batch E (cfgs_of E c) key data = ins_batch E (cfgs_of E c) key (to_value (env_doc E) (tx_doc c fr key data))"
| "op_fits E c D (fr, OpUpdate _ _ key old_data new_data) \<longleftrightarrow>
     (case D key of
        None \<Rightarrow> False
      | Some old \<Rightarrow>
          upd_batch E (cfgs_of E c) key old_data new_data =
          upd_batch E (cfgs_of E c) key (to_value (env_doc E) old)
            (to_value (env_doc E) (tx_doc c fr key new_data)))"
| "op_fits E c D (fr, OpDelete _ _ key old_data) \<longleftrightarrow>
     (case D key of
        None \<Rightarrow> False
      | Some old \<Rightarrow>
          del_batch E (cfgs_of E c) key old_data = del_batch E (cfgs_of E c) key (to_value (env_doc E) old))"
| "op_fits E c D (fr, OpPutBlobChunk _ _ _ _ _) \<longleftrightarrow> True"
| "op_fits E c D (fr, OpDeleteBlob _ _ _) \<longleftrightarrow> True"

fun tx_fits ::
    "('db, 'v, 's, 'f) env \<Rightarrow> ('db, 'v, 's, 'f) collection \<Rightarrow> (string \<rightharpoonup> document) \<Rightarrow>
     (fresh \<times> operation) list \<Rightarrow> bool" where
  "tx_fits E c D [] \<longleftrightarrow> True"
| "tx_fits E c D (o1 # ops) \<longleftrightarrow> op_fits E c D o1 \<and> tx_fits E c (op_docs c o1 D) ops"

text \<open>One operation keeps the invariant on the contents of the store and acts as its abstract effect.\<close>

lemma op_batch_inv:
  assumes "doc_codec_ok (env_doc E)" "inv_map E (cfgs_of E c) m" "op_fits E c (docs_map (env_doc E) m) (fr, op)"
    "op_batch E c fr op = Inr (ws, evs)"
  shows "inv_map E (cfgs_of E c) (apply_ops ws m) \<and>
    docs_map (env_doc E) (apply_ops ws m) = op_docs c (fr, op) (docs_map (env_doc E) m) \<and>
    (\<forall>p \<in> set ws. \<not> meta_ns (Store.op_key p))"
proof -
  let ?g = "cfgs_of E c"
  have doc: "deserialize_doc (env_doc E) b = Inr d" if "serialize_doc (env_doc E) d = Inr b" for d b
    using serialize_deserialize [OF assms(1) that] .
  have key: "doc_key_of (tx_doc c fr k v) = k" for k v by (simp add: tx_doc_def doc_with_key_def)
  have meta: "\<forall>p \<in> set ws. \<not> meta_ns (Store.op_key p)"
    using assms(4) batch_fam_key fam_key_meta meta_ns_disjoint(2)
    by (cases op) (auto simp: res_bind_Inr_iff batch_ops dest!: batch_fam_key fam_key_meta)
  have "inv_map E ?g (apply_ops ws m) \<and>
    docs_map (env_doc E) (apply_ops ws m) = op_docs c (fr, op) (docs_map (env_doc E) m)"
  proof (cases op)
    case (OpInsert d cl k v)
    with assms(4) obtain b where b: "serialize_doc (env_doc E) (tx_doc c fr k v) = Inr b"
        "ws = Put (doc_key k) b # ins_batch E ?g k v"
      by (auto simp: res_bind_Inr_iff batch_ops)
    show ?thesis
      using inv_map_ins [OF assms(2) _ _ doc [OF b(1)] key] assms(3) OpInsert b(2) by simp
  next
    case (OpUpdate d cl k ov v)
    with assms(4) obtain b where b: "serialize_doc (env_doc E) (tx_doc c fr k v) = Inr b"
        "ws = Put (doc_key k) b # upd_batch E ?g k ov v"
      by (auto simp: res_bind_Inr_iff batch_ops)
    show ?thesis
      using inv_map_upd [OF assms(2) _ doc [OF b(1)] key] assms(3) OpUpdate b(2)
      by (auto split: option.splits)
  next
    case (OpDelete d cl k ov)
    with assms(4) have "ws = Del (doc_key k) # del_batch E ?g k ov"
      by (auto simp: res_bind_Inr_iff batch_ops)
    then show ?thesis
      using inv_map_del [OF assms(2)] assms(3) OpDelete by (auto split: option.splits)
  qed (use assms(2,4) in auto)
  with meta show ?thesis by blast
qed

lemma tx_batch_inv:
  assumes "doc_codec_ok (env_doc E)" "inv_map E (cfgs_of E c) (apply_ops batch m)"
    "tx_fits E c (docs_map (env_doc E) (apply_ops batch m)) ops"
    "tx_batch E c ops batch evs = Inr (batch', evs')" "\<forall>p \<in> set batch. \<not> meta_ns (Store.op_key p)"
  shows "inv_map E (cfgs_of E c) (apply_ops batch' m) \<and>
    docs_map (env_doc E) (apply_ops batch' m) = fold (op_docs c) ops (docs_map (env_doc E) (apply_ops batch m)) \<and>
    (\<forall>p \<in> set batch'. \<not> meta_ns (Store.op_key p))"
  using assms(2-5)
proof (induction ops arbitrary: batch evs)
  case (Cons o1 ops)
  obtain fr op where o1: "o1 = (fr, op)" by (cases o1)
  from Cons.prems(3) obtain ws es where
    w: "op_batch E c fr op = Inr (ws, es)" and r: "tx_batch E c ops (batch @ ws) (evs @ es) = Inr (batch', evs')"
    by (auto simp: o1 res_bind_Inr_iff)
  have "op_fits E c (docs_map (env_doc E) (apply_ops batch m)) (fr, op)" using Cons.prems(2) o1 by simp
  note st = op_batch_inv [OF assms(1) Cons.prems(1) this w]
  show ?case
    using Cons.IH [OF _ _ r] st Cons.prems(2,4) by (auto simp: o1 apply_ops_append)
qed simp

lemma op_upkeep_keeps:
  "coll_db (op_upkeep E op c) = coll_db c" "coll_name (op_upkeep E op c) = coll_name c"
  "changes (op_upkeep E op c) = changes c" "collection_type (op_upkeep E op c) = collection_type c"
  "doc_count (op_upkeep E op c) = doc_count c + of_int (op_delta op)"
  using vector_upsert_keeps [of c E] vector_upsert_keeps [of "update_vector_indexes_on_delete E _ c" E]
    vector_delete_keeps [of c E]
  by (cases op; simp add: keeps_db_def increment_count_def decrement_count_def)+

lemma upkeep_fold:
  "coll_db (fold (\<lambda>(_, op). op_upkeep E op) ops c) = coll_db c \<and>
   coll_name (fold (\<lambda>(_, op). op_upkeep E op) ops c) = coll_name c \<and>
   changes (fold (\<lambda>(_, op). op_upkeep E op) ops c) = changes c \<and>
   doc_count (fold (\<lambda>(_, op). op_upkeep E op) ops c) = doc_count c + of_int (sum_list (map (op_delta \<circ> snd) ops))"
  by (induction ops arbitrary: c) (auto simp: op_upkeep_keeps)

lemma send_fold:
  "coll_db (fold send_change es c) = coll_db c \<and> doc_count (fold send_change es c) = doc_count c \<and>
   changes (fold send_change es c) = changes c @ es \<and> coll_name (fold send_change es c) = coll_name c"
  by (induction es arbitrary: c) (auto simp: send_change_def)

lemma coll_db_only:
  assumes "coll_db c = coll_db c'"
  shows "cfgs_of E c = cfgs_of E c'" "coll_docs E V c = coll_docs E V c'" "coll_inv E V c = coll_inv E V c'"
proof -
  show "cfgs_of E c = cfgs_of E c'"
    using assms by (simp add: cfgs_of_def get_all_indexes_def get_all_geo_indexes_def
        get_all_fulltext_indexes_def get_all_ttl_indexes_def read_meta_def)
  with assms show "coll_docs E V c = coll_docs E V c'" "coll_inv E V c = coll_inv E V c'"
    by (simp_all add: coll_docs_def coll_inv_def)
qed

lemma apply_tx_ok:
  assumes "rocks_ok (env_db E) V" "apply_transaction_operations E ops c = (Inr u, c')"
  obtains batch evs where "tx_batch E c ops [] [] = Inr (batch, evs)" "look V c' = apply_ops batch (look V c)"
    "changes c' = changes c @ evs" "doc_count c' = doc_count c + of_int (sum_list (map (op_delta \<circ> snd) ops))" "coll_name c' = coll_name c"
proof -
  from assms(2) obtain batch evs d where t: "tx_batch E c ops [] [] = Inr (batch, evs)"
    and w: "write_batch (env_db E) (coll_db c) batch = Inr d"
    and c': "c' = fold send_change evs (fold (\<lambda>(_, op). op_upkeep E op) ops (c\<lparr> coll_db := d \<rparr>))"
    by (auto simp: apply_transaction_operations_def bind_Inr_iff db_write_Inr_iff)
  show ?thesis
  proof (rule that [OF t])
    show "look V c' = apply_ops batch (look V c)"
      using rocks_okD(3) [OF assms(1) w] by (simp add: c' send_fold upkeep_fold)
    show "changes c' = changes c @ evs" by (simp add: c' send_fold upkeep_fold)
    show "doc_count c' = doc_count c + of_int (sum_list (map (op_delta \<circ> snd) ops))"
      by (simp add: c' send_fold upkeep_fold)
    show "coll_name c' = coll_name c" by (simp add: c' send_fold upkeep_fold)
  qed
qed

lemma apply_tx_failed:
  "apply_transaction_operations E ops c = (Inl e, c') \<Longrightarrow> c' = c"
  by (auto simp: apply_transaction_operations_def bind_Inl_iff dest!: db_write_Inl)

lemma apply_tx_steps:
  assumes "rocks_ok (env_db E) V" "doc_codec_ok (env_doc E)" "coll_inv E V c"
    "tx_fits E c (coll_docs E V c) ops" "apply_transaction_operations E ops c = (Inr u, c')"
  shows "coll_inv E V c'" "coll_docs E V c' = fold (op_docs c) ops (coll_docs E V c)"
    "doc_count c' = doc_count c + of_int (sum_list (map (op_delta \<circ> snd) ops))" "coll_name c' = coll_name c"
    "\<exists>batch evs. tx_batch E c ops [] [] = Inr (batch, evs) \<and> changes c' = changes c @ evs"
proof -
  from apply_tx_ok [OF assms(1,5)] obtain batch evs where
    t: "tx_batch E c ops [] [] = Inr (batch, evs)" and l: "look V c' = apply_ops batch (look V c)"
    and ev: "changes c' = changes c @ evs"
    and n: "doc_count c' = doc_count c + of_int (sum_list (map (op_delta \<circ> snd) ops))" "coll_name c' = coll_name c" .
  have st: "inv_map E (cfgs_of E c) (apply_ops batch (look V c)) \<and>
    docs_map (env_doc E) (apply_ops batch (look V c)) = fold (op_docs c) ops (docs_map (env_doc E) (look V c)) \<and>
    (\<forall>p \<in> set batch. \<not> meta_ns (Store.op_key p))"
    using tx_batch_inv [OF assms(2) _ _ t, of "look V c"] assms(3,4) by (simp add: coll_inv_def coll_docs_def)
  have cfg: "cfgs_of E c' = cfgs_of E c" using written_batch [OF assms(1) l] st by blast
  show "coll_inv E V c'" "coll_docs E V c' = fold (op_docs c) ops (coll_docs E V c)"
    using st by (simp_all add: coll_inv_def coll_docs_def cfg l)
  show "\<exists>batch evs. tx_batch E c ops [] [] = Inr (batch, evs) \<and> changes c' = changes c @ evs" using t ev by blast
  show "doc_count c' = doc_count c + of_int (sum_list (map (op_delta \<circ> snd) ops))" "coll_name c' = coll_name c"
    by (fact n)+
qed

text \<open>
  C8: Applying the operations of a transaction to a collection is all or nothing. When it fails, the
  collection is what it was; when it succeeds, the stored documents are the documents before with the
  operations applied in their order, documents and indexes are in step again, the counter moves by
  the inserts minus the deletes, and one event per operation is sent, in order. The operations must
  fit the documents (an insert has a new key; the old value of an update or a delete is the stored one).
\<close>
theorem apply_tx_refines:
  assumes "rocks_ok (env_db E) V" "doc_codec_ok (env_doc E)" "coll_inv E V c"
    "tx_fits E c (coll_docs E V c) ops" "apply_transaction_operations E ops c = (r, c')"
  shows "case r of
      Inl _ \<Rightarrow> c' = c
    | Inr _ \<Rightarrow> coll_inv E V c' \<and> coll_docs E V c' = fold (op_docs c) ops (coll_docs E V c) \<and>
        doc_count c' = doc_count c + of_int (sum_list (map (op_delta \<circ> snd) ops)) \<and>
        (\<exists>batch evs. tx_batch E c ops [] [] = Inr (batch, evs) \<and> changes c' = changes c @ evs)"
proof (cases r)
  case (Inl e)
  then show ?thesis using apply_tx_failed assms(5) by auto
next
  case (Inr u)
  from apply_tx_steps [OF assms(1-4) assms(5) [unfolded Inr]] show ?thesis by (simp add: Inr)
qed

text \<open>A transaction with two inserts, one of them deleted again.\<close>

definition demo_ops :: "(fresh \<times> operation) list" where
  "demo_ops = [(demo_fresh 1, OpInsert ''db'' ''people'' ''ann'' ann),
               (demo_fresh 2, OpInsert ''db'' ''people'' ''bob'' bob),
               (demo_fresh 3, OpDelete ''db'' ''people'' ''ann'' ann)]"

lemma demo_cfgs:
  assumes "coll_db c = coll_db demo_coll"
  shows "cfgs_of demo_env c = \<lparr> cf_idx = [name_index ''age''], cf_geo = [], cf_ft = [], cf_ttl = [] \<rparr>"
  using coll_db_only(1) [OF assms, of demo_env] by (simp add: cfgs_of_def demo_meta)

lemma demo_values:
  "index_values (name_index ''age'') (to_value demo_doc_codec (tx_doc c fr ''ann'' ann)) =
   index_values (name_index ''age'') ann"
  "index_values (name_index ''age'') (to_value demo_doc_codec (tx_doc c fr ''bob'' bob)) =
   index_values (name_index ''age'') bob"
  by (simp_all add: index_values_def name_index_def tx_doc_def doc_with_key_def to_value_def
      demo_doc_codec_def extract_field_value_simple system_fields_def smap_del_def ann_def bob_def)

lemmas demo_batch = ins_batch_def del_batch_def regular_entries_def regular_keys_def demo_values geo_entries_def
  geo_keys_def fulltext_entries_def fulltext_keys_def ttl_entries_def ttl_keys_def key_ok_def

lemma demo_fits: "tx_fits demo_env demo_coll Map.empty demo_ops"
  by (simp add: demo_ops_def demo_cfgs demo_batch)

theorem apply_tx_refines_witness:
  "\<exists>c'. apply_transaction_operations demo_env demo_ops demo_coll = (Inr (), c') \<and>
     coll_inv demo_env mem_view c' \<and>
     coll_docs demo_env mem_view c' = [''bob'' \<mapsto> tx_doc demo_coll (demo_fresh 2) ''bob'' bob] \<and>
     doc_count c' = 1"
proof -
  have ser: "\<exists>b. serialize_doc demo_doc_codec d = Inr b" for d
    using serialize_ok [OF demo_doc_codec_ok] by blast
  obtain b1 b2 where b: "serialize_doc demo_doc_codec (tx_doc demo_coll (demo_fresh 1) ''ann'' ann) = Inr b1"
    "serialize_doc demo_doc_codec (tx_doc demo_coll (demo_fresh 2) ''bob'' bob) = Inr b2"
    using ser by blast
  have "\<exists>batch evs. tx_batch demo_env demo_coll demo_ops [] [] = Inr (batch, evs)"
    using b by (simp add: demo_ops_def batch_ops)
  then obtain batch evs where t: "tx_batch demo_env demo_coll demo_ops [] [] = Inr (batch, evs)" by blast
  obtain d where "write_batch (env_db demo_env) (coll_db demo_coll) batch = Inr d" using demo_writes by blast
  then obtain c' where r: "apply_transaction_operations demo_env demo_ops demo_coll = (Inr (), c')"
    by (simp add: apply_transaction_operations_def t bind_def lift_def db_write_def modify_def)
  from apply_tx_refines [OF _ _ demo_coll_inv(1) _ r] demo_fits show ?thesis
    by (intro exI [of _ c'])
      (simp add: r mem_rocks_ok demo_doc_codec_ok demo_coll_inv(2) demo_count, simp add: demo_ops_def)
qed

end
