(* ===== verification/Engine.thy ===== *)
theory Engine
  imports CollectionTx
begin

text \<open>
  The storage engine and its databases, \<^verbatim>\<open>src/storage/engine.rs\<close> and \<^verbatim>\<open>src/storage/database.rs\<close>:
  column families, the caches of database and collection handles, and the commit of a transaction over
  several collections. The contents of a collection are the contents of its column family, shared by
  all handles on it; the counters, filters and event channel belong to a handle. A handle is a number,
  since clones of it share their state. Poisoned locks are left out. The columnar methods of a database
  only call the columnar store.
\<close>

section \<open>State\<close>

text \<open>A call returns a value or an error, or panics.\<close>

datatype 'a outcome = Done 'a | Err db_error | Panic

fun outcome_of :: "'a db_result \<Rightarrow> 'a outcome" where
  "outcome_of (Inr a) = Done a"
| "outcome_of (Inl e) = Err e"

text \<open>Creating and dropping a column family, and \<^verbatim>\<open>DB::list_cf\<close> (an error counts as an empty list) as a
  function of the open ones. A created family has its initial contents.\<close>

record 'db cf_ops =
  cf_create :: "string \<Rightarrow> string + 'db"
  cf_drop :: "string \<Rightarrow> string + unit"
  cf_list :: "string list \<Rightarrow> string list"

record database =
  db_name :: string
  db_collections :: "(string, nat) smap"

record ('db, 'v, 's, 'f) engine =
  cfs :: "(string \<times> 'db) list"
  handles :: "('db, 'v, 's, 'f) collection list"
  collections :: "(string, nat) smap"
  db_handles :: "database list"
  databases :: "(string, nat) smap"
  tx_mgr :: "tx_manager option"
  wal_disk :: "bytes option"

type_synonym ('db, 'v, 's, 'f, 'a) eact =
  "('db, 'v, 's, 'f) engine \<Rightarrow> 'a outcome \<times> ('db, 'v, 's, 'f) engine"

definition ebind ::
    "('e \<Rightarrow> 'a outcome \<times> 'e) \<Rightarrow> ('a \<Rightarrow> 'e \<Rightarrow> 'b outcome \<times> 'e) \<Rightarrow> 'e \<Rightarrow> 'b outcome \<times> 'e" where
  "ebind m f e = (case m e of (Done a, e') \<Rightarrow> f a e' | (Err x, e') \<Rightarrow> (Err x, e') | (Panic, e') \<Rightarrow> (Panic, e'))"

definition cf_put :: "string \<Rightarrow> 'db \<Rightarrow> (string \<times> 'db) list \<Rightarrow> (string \<times> 'db) list" where
  "cf_put n d cs = map (\<lambda>p. if fst p = n then (n, d) else p) cs"

text \<open>A method of a collection that begins with \<^verbatim>\<open>cf_handle(..).expect(..)\<close>.\<close>

definition with_handle :: "nat \<Rightarrow> ('db, 'v, 's, 'f, 'a) act \<Rightarrow> ('db, 'v, 's, 'f, 'a) eact" where
  "with_handle h f e =
     (case map_of (cfs e) (coll_name (handles e ! h)) of
        None \<Rightarrow> (Panic, e)
      | Some d \<Rightarrow>
          (case f ((handles e ! h)\<lparr> coll_db := d \<rparr>) of
             (r, c') \<Rightarrow> (outcome_of r, e\<lparr> handles := (handles e)[h := c'],
                                        cfs := cf_put (coll_name (handles e ! h)) (coll_db c') (cfs e) \<rparr>)))"

section \<open>Databases\<close>

definition META_CF :: string where "META_CF = ''_meta''"

definition list_databases ::
    "('db, 'v, 's, 'f) env \<Rightarrow> ('db, 'v, 's, 'f) engine \<Rightarrow> string list" where
  "list_databases E e =
     (case map_of (cfs e) META_CF of
        None \<Rightarrow> []
      | Some d \<Rightarrow> List.map_filter (\<lambda>p. if utf8_valid (fst p) then Some (drop 3 (fst p)) else None)
                    (scan_all (env_db E) d ''db:''))"

definition write_meta ::
    "('db, 'v, 's, 'f) env \<Rightarrow> string \<Rightarrow> write_op \<Rightarrow> ('db, 'v, 's, 'f, unit) eact" where
  "write_meta E msg op e =
     (case map_of (cfs e) META_CF of
        None \<Rightarrow> (Panic, e)
      | Some d \<Rightarrow>
          (case write_batch (env_db E) d [op] of
             Inl m \<Rightarrow> (Err (InternalError (msg @ m)), e)
           | Inr d' \<Rightarrow> (Done (), e\<lparr> cfs := cf_put META_CF d' (cfs e) \<rparr>)))"

definition create_database :: "('db, 'v, 's, 'f) env \<Rightarrow> string \<Rightarrow> ('db, 'v, 's, 'f, unit) eact" where
  "create_database E name e =
     (if name = [] \<or> CHR '':'' \<in> set name then (Err (InvalidDocument ''Invalid database name''), e)
      else if name \<in> set (list_databases E e)
      then (Err (CollectionAlreadyExists (''Database '' @ quoted name @ '' already exists'')), e)
      else write_meta E ''Failed to create database: '' (Put (''db:'' @ name) ''1'') e)"

definition get_database :: "('db, 'v, 's, 'f) env \<Rightarrow> string \<Rightarrow> ('db, 'v, 's, 'f, nat) eact" where
  "get_database E name e =
     (case map_of (databases e) name of
        Some i \<Rightarrow> (Done i, e)
      | None \<Rightarrow>
          if name \<notin> set (list_databases E e)
          then (Err (CollectionNotFound (''Database '' @ quoted name @ '' not found'')), e)
          else (Done (length (db_handles e)),
                e\<lparr> db_handles := db_handles e @ [\<lparr> db_name = name, db_collections = [] \<rparr>],
                   databases := smap_put name (length (db_handles e)) (databases e) \<rparr>))"

definition collection_cf_name :: "database \<Rightarrow> string \<Rightarrow> string" where
  "collection_cf_name db n = db_name db @ '':'' @ n"

definition db_list_collections ::
    "'db cf_ops \<Rightarrow> nat \<Rightarrow> ('db, 'v, 's, 'f) engine \<Rightarrow> string list" where
  "db_list_collections F i e =
     (let pre = db_name (db_handles e ! i) @ '':''
      in map (drop (length pre)) (filter (\<lambda>n. starts_with n pre) (cf_list F (map fst (cfs e)))))"

text \<open>The common part of the two methods that create a collection: the family and its type.\<close>

definition new_family ::
    "('db, 'v, 's, 'f) env \<Rightarrow> 'db cf_ops \<Rightarrow> string \<Rightarrow> string option \<Rightarrow> ('db, 'v, 's, 'f, unit) eact" where
  "new_family E F n ty e =
     (case cf_create F n of
        Inl m \<Rightarrow> (Err (InternalError (''Failed to create collection: '' @ m)), e)
      | Inr d \<Rightarrow>
          (case write_batch (env_db E) d [Put COLLECTION_TYPE_KEY (case ty of Some t \<Rightarrow> t | None \<Rightarrow> ''document'')] of
             Inl m \<Rightarrow> (Err (InternalError (''Failed to set collection type: '' @ m)), e\<lparr> cfs := cfs e @ [(n, d)] \<rparr>)
           | Inr d' \<Rightarrow> (Done (), e\<lparr> cfs := cfs e @ [(n, d')] \<rparr>)))"

definition drop_family :: "'db cf_ops \<Rightarrow> string \<Rightarrow> ('db, 'v, 's, 'f, unit) eact" where
  "drop_family F n e =
     (case cf_drop F n of
        Inl m \<Rightarrow> (Err (InternalError (''Failed to delete collection: '' @ m)), e)
      | Inr _ \<Rightarrow> (Done (), e\<lparr> cfs := filter (\<lambda>p. fst p \<noteq> n) (cfs e) \<rparr>))"

definition db_create_collection ::
    "('db, 'v, 's, 'f) env \<Rightarrow> 'db cf_ops \<Rightarrow> nat \<Rightarrow> string \<Rightarrow> string option \<Rightarrow> ('db, 'v, 's, 'f, unit) eact" where
  "db_create_collection E F i name ty e =
     (let n = collection_cf_name (db_handles e ! i) name
      in if map_of (cfs e) n \<noteq> None then (Err (CollectionAlreadyExists name), e)
         else new_family E F n ty e)"

definition db_delete_collection ::
    "'db cf_ops \<Rightarrow> nat \<Rightarrow> string \<Rightarrow> ('db, 'v, 's, 'f, unit) eact" where
  "db_delete_collection F i name e =
     (let n = collection_cf_name (db_handles e ! i) name
      in if map_of (cfs e) n = None then (Err (CollectionNotFound name), e)
         else ebind (drop_family F n) (\<lambda>_ e.
           (Done (), e\<lparr> db_handles := (db_handles e)
              [i := (db_handles e ! i)\<lparr> db_collections := smap_del name (db_collections (db_handles e ! i)) \<rparr>] \<rparr>)) e)"

definition db_get_collection ::
    "('db, 'v, 's, 'f) env \<Rightarrow> nat \<Rightarrow> string \<Rightarrow> ('db, 'v, 's, 'f, nat) eact" where
  "db_get_collection E i name e =
     (case map_of (db_collections (db_handles e ! i)) name of
        Some h \<Rightarrow> (Done h, e)
      | None \<Rightarrow>
          (let n = collection_cf_name (db_handles e ! i) name
           in case map_of (cfs e) n of
                None \<Rightarrow> (Err (CollectionNotFound name), e)
              | Some d \<Rightarrow>
                  (Done (length (handles e)),
                   e\<lparr> handles := handles e @ [coll_new E n d],
                      db_handles := (db_handles e)[i := (db_handles e ! i)
                        \<lparr> db_collections := smap_put name (length (handles e)) (db_collections (db_handles e ! i)) \<rparr>] \<rparr>)))"

definition db_get_or_create_collection ::
    "('db, 'v, 's, 'f) env \<Rightarrow> 'db cf_ops \<Rightarrow> nat \<Rightarrow> string \<Rightarrow> ('db, 'v, 's, 'f, nat) eact" where
  "db_get_or_create_collection E F i name e =
     (case db_get_collection E i name e of
        (Err (CollectionNotFound _), e1) \<Rightarrow>
          ebind (db_create_collection E F i name None) (\<lambda>_. db_get_collection E i name) e1
      | r \<Rightarrow> r)"

fun delete_collections :: "'db cf_ops \<Rightarrow> nat \<Rightarrow> string list \<Rightarrow> ('db, 'v, 's, 'f, unit) eact" where
  "delete_collections F i [] e = (Done (), e)"
| "delete_collections F i (n # ns) e =
     ebind (db_delete_collection F i n) (\<lambda>_. delete_collections F i ns) e"

definition delete_database ::
    "('db, 'v, 's, 'f) env \<Rightarrow> 'db cf_ops \<Rightarrow> string \<Rightarrow> ('db, 'v, 's, 'f, unit) eact" where
  "delete_database E F name e =
     (if name = ''_system'' then (Err (InvalidDocument ''Cannot delete _system database''), e)
      else ebind (get_database E name) (\<lambda>i e.
           ebind (delete_collections F i (db_list_collections F i e)) (\<lambda>_.
           ebind (write_meta E ''Failed to delete database: '' (Del (''db:'' @ name))) (\<lambda>_ e.
             (Done (), e\<lparr> databases := smap_del name (databases e) \<rparr>))) e) e)"

section \<open>Collections by their full name\<close>

definition create_collection ::
    "('db, 'v, 's, 'f) env \<Rightarrow> 'db cf_ops \<Rightarrow> string \<Rightarrow> string option \<Rightarrow> ('db, 'v, 's, 'f, unit) eact" where
  "create_collection E F name ty e =
     (if map_of (cfs e) name \<noteq> None then (Err (CollectionAlreadyExists name), e) else new_family E F name ty e)"

text \<open>A name that is not a column family is looked up in the system database.\<close>

definition actual_name :: "('db, 'v, 's, 'f) engine \<Rightarrow> string \<Rightarrow> string option" where
  "actual_name e name =
     (if map_of (cfs e) name \<noteq> None then Some name
      else if map_of (cfs e) (''_system:'' @ name) \<noteq> None then Some (''_system:'' @ name)
      else None)"

definition get_collection :: "('db, 'v, 's, 'f) env \<Rightarrow> string \<Rightarrow> ('db, 'v, 's, 'f, nat) eact" where
  "get_collection E name e =
     (case map_of (collections e) name of
        Some h \<Rightarrow> (Done h, e)
      | None \<Rightarrow>
          (case actual_name e name of
             None \<Rightarrow> (Err (CollectionNotFound name), e)
           | Some n \<Rightarrow>
               (let h = length (handles e); cs = smap_put name h (collections e)
                in (Done h, e\<lparr> handles := handles e @ [coll_new E n (the (map_of (cfs e) n))],
                               collections := (if n \<noteq> name then smap_put n h cs else cs) \<rparr>))))"

definition delete_collection :: "'db cf_ops \<Rightarrow> string \<Rightarrow> ('db, 'v, 's, 'f, unit) eact" where
  "delete_collection F name e =
     (if map_of (cfs e) name = None then (Err (CollectionNotFound name), e) else drop_family F name e)"

definition list_collections :: "'db cf_ops \<Rightarrow> ('db, 'v, 's, 'f) engine \<Rightarrow> string list" where
  "list_collections F e = filter (\<lambda>n. n \<noteq> ''default'' \<and> n \<noteq> META_CF) (cf_list F (map fst (cfs e)))"

section \<open>Start and shutdown\<close>

text \<open>The engine after opening the store: the families found on disk and the one for metadata.\<close>

definition engine_new :: "(string \<times> 'db) list \<Rightarrow> 'db \<Rightarrow> bytes option \<Rightarrow> ('db, 'v, 's, 'f) engine" where
  "engine_new found meta wal =
     \<lparr> cfs = (if META_CF \<in> fst ` set found then found else found @ [(META_CF, meta)]),
       handles = [], collections = [], db_handles = [], databases = [], tx_mgr = None, wal_disk = wal \<rparr>"

text \<open>A change of a handle that skips the store when the family is gone.\<close>

definition on_handle ::
    "nat \<Rightarrow> (('db, 'v, 's, 'f) collection \<Rightarrow> ('db, 'v, 's, 'f) collection) \<Rightarrow>
     (('db, 'v, 's, 'f) collection \<Rightarrow> ('db, 'v, 's, 'f) collection) \<Rightarrow>
     ('db, 'v, 's, 'f) engine \<Rightarrow> ('db, 'v, 's, 'f) engine" where
  "on_handle h f g e =
     (case map_of (cfs e) (coll_name (handles e ! h)) of
        None \<Rightarrow> e\<lparr> handles := (handles e)[h := g (handles e ! h)] \<rparr>
      | Some d \<Rightarrow>
          (let c' = f ((handles e ! h)\<lparr> coll_db := d \<rparr>)
           in e\<lparr> handles := (handles e)[h := c'],
                 cfs := cf_put (coll_name (handles e ! h)) (coll_db c') (cfs e) \<rparr>))"

definition for_collections ::
    "('db, 'v, 's, 'f) env \<Rightarrow> 'db cf_ops \<Rightarrow> (nat \<Rightarrow> ('db, 'v, 's, 'f) engine \<Rightarrow> ('db, 'v, 's, 'f) engine) \<Rightarrow>
     ('db, 'v, 's, 'f) engine \<Rightarrow> ('db, 'v, 's, 'f) engine" where
  "for_collections E F act e =
     fold (\<lambda>db e.
       case get_database E db e of
         (Done i, e1) \<Rightarrow>
           fold (\<lambda>n e. case db_get_collection E i n e of (Done h, e1) \<Rightarrow> act h e1 | (_, e1) \<Rightarrow> e1)
             (db_list_collections F i e1) e1
       | (_, e1) \<Rightarrow> e1) (list_databases E e) e"

definition recalculate_all_counts ::
    "('db, 'v, 's, 'f) env \<Rightarrow> 'db cf_ops \<Rightarrow> ('db, 'v, 's, 'f) engine \<Rightarrow> ('db, 'v, 's, 'f) engine" where
  "recalculate_all_counts E F =
     for_collections E F (\<lambda>h. on_handle h (\<lambda>c. snd (recalculate_count E c)) (\<lambda>c. c))"

definition flush_all_stats ::
    "('db, 'v, 's, 'f) env \<Rightarrow> 'db cf_ops \<Rightarrow> u64 \<Rightarrow> ('db, 'v, 's, 'f) engine \<Rightarrow> ('db, 'v, 's, 'f) engine" where
  "flush_all_stats E F now =
     for_collections E F (\<lambda>h. on_handle h (flush_stats E now)
       (\<lambda>c. if count_dirty c then c\<lparr> count_dirty := False, last_flush_time := now \<rparr> else c))"

definition initialize ::
    "('db, 'v, 's, 'f) env \<Rightarrow> 'db cf_ops \<Rightarrow> ('db, 'v, 's, 'f, unit) eact" where
  "initialize E F e =
     ebind (\<lambda>e. if ''_system'' \<in> set (list_databases E e) then (Done (), e) else create_database E ''_system'' e)
       (\<lambda>_ e.
          let e2 = (case get_database E ''_system'' e of
                      (Done i, e1) \<Rightarrow>
                        (case db_get_collection E i ''_config'' e1 of
                           (Err _, e2) \<Rightarrow> snd (db_create_collection E F i ''_config'' None e2)
                         | (_, e2) \<Rightarrow> e2)
                    | (_, e1) \<Rightarrow> e1)
          in (Done (), recalculate_all_counts E F e2)) e"

section \<open>Transactions\<close>

text \<open>The operations of a transaction by the full name of their collection.\<close>

definition coll_of :: "operation \<Rightarrow> string" where
  "coll_of op = op_database op @ '':'' @ op_collection op"

definition ops_by_collection :: "operation list \<Rightarrow> (string, operation list) smap" where
  "ops_by_collection ops =
     foldl (\<lambda>m op. smap_put (coll_of op) (smap_get_or [] m (coll_of op) @ [op]) m) [] ops"

text \<open>The groups in the iteration order of the hash table.\<close>

definition group_order ::
    "(string list \<Rightarrow> string list) \<Rightarrow> (string, operation list) smap \<Rightarrow> (string \<times> operation list) list" where
  "group_order ord m = map (\<lambda>k. (k, smap_get_or [] m k)) (ord (map fst m))"

text \<open>The revision and time that the n-th operation on a collection draws.\<close>

definition stamped :: "(nat \<Rightarrow> fresh) \<Rightarrow> operation list \<Rightarrow> (fresh \<times> operation) list" where
  "stamped fr ops = zip (map fr [0..<length ops]) ops"

fun apply_groups ::
    "('db, 'v, 's, 'f) env \<Rightarrow> (string \<Rightarrow> nat \<Rightarrow> fresh) \<Rightarrow> (string \<times> operation list) list \<Rightarrow>
     ('db, 'v, 's, 'f, unit) eact" where
  "apply_groups E fr [] e = (Done (), e)"
| "apply_groups E fr ((n, ops) # gs) e =
     ebind (get_collection E n) (\<lambda>h.
     ebind (with_handle h (apply_transaction_operations E (stamped (fr n) ops))) (\<lambda>_.
     apply_groups E fr gs)) e"

text \<open>The same loop in recovery, where a collection that does not exist is skipped.\<close>

fun recover_groups ::
    "('db, 'v, 's, 'f) env \<Rightarrow> (string \<Rightarrow> nat \<Rightarrow> fresh) \<Rightarrow> (string \<times> operation list) list \<Rightarrow>
     ('db, 'v, 's, 'f, unit) eact" where
  "recover_groups E fr [] e = (Done (), e)"
| "recover_groups E fr ((n, ops) # gs) e =
     (case get_collection E n e of
        (Done h, e1) \<Rightarrow> ebind (with_handle h (apply_transaction_operations E (stamped (fr n) ops)))
                          (\<lambda>_. recover_groups E fr gs) e1
      | (_, e1) \<Rightarrow> recover_groups E fr gs e1)"

text \<open>The arguments are the log codec, the clock, and per transaction the iteration order of a hash
  table and the drawn values.\<close>

fun recover_all ::
    "('db, 'v, 's, 'f) env \<Rightarrow> (nat \<Rightarrow> string \<Rightarrow> nat \<Rightarrow> fresh) \<Rightarrow>
     (string list \<Rightarrow> string list) \<Rightarrow>
     nat \<Rightarrow> transaction list \<Rightarrow> ('db, 'v, 's, 'f, unit) eact" where
  "recover_all E fr ord n [] e = (Done (), e)"
| "recover_all E fr ord n (tx # txs) e =
     ebind (recover_groups E (fr n) (group_order ord (ops_by_collection (operations tx))))
       (\<lambda>_. recover_all E fr ord (n + 1) txs) e"

definition recover_transactions ::
    "('db, 'v, 's, 'f) env \<Rightarrow> wal_codec \<Rightarrow> int \<Rightarrow> (nat \<Rightarrow> string \<Rightarrow> nat \<Rightarrow> fresh) \<Rightarrow>
     (string list \<Rightarrow> string list) \<Rightarrow> ('db, 'v, 's, 'f, unit) eact" where
  "recover_transactions E C utc fr ord e =
     (case wal_disk e of
        None \<Rightarrow> (Done (), e)
      | Some f \<Rightarrow>
          (case replay C utc (Some f) of
             Inl x \<Rightarrow> (Err x, e)
           | Inr txs \<Rightarrow> recover_all E fr ord 0 txs e))"

text \<open>Opening the log keeps what is in it; \<open>opened\<close> says whether the file could be opened.\<close>

definition initialize_transactions ::
    "('db, 'v, 's, 'f) env \<Rightarrow> wal_codec \<Rightarrow> int \<Rightarrow> (nat \<Rightarrow> string \<Rightarrow> nat \<Rightarrow> fresh) \<Rightarrow>
     (string list \<Rightarrow> string list) \<Rightarrow> string + unit \<Rightarrow>
     ('db, 'v, 's, 'f, unit) eact" where
  "initialize_transactions E C utc fr ord opened e =
     (if tx_mgr e \<noteq> None then (Done (), e)
      else ebind (recover_transactions E C utc fr ord) (\<lambda>_ e.
             case opened of
               Inl m \<Rightarrow> (Err (InternalError (''Failed to open WAL: '' @ m)), e)
             | Inr _ \<Rightarrow>
                 (let f = (case wal_disk e of Some f \<Rightarrow> f | None \<Rightarrow> [])
                  in (Done (), e\<lparr> tx_mgr := Some (mgr_new\<lparr> wal_file := f \<rparr>), wal_disk := Some f \<rparr>))) e)"

definition no_manager :: db_error where
  "no_manager = InternalError ''Transaction manager not initialized''"

definition commit_transaction ::
    "('db, 'v, 's, 'f) env \<Rightarrow> wal_codec \<Rightarrow> io_outcome \<Rightarrow> (string \<Rightarrow> nat \<Rightarrow> fresh) \<Rightarrow>
     (string list \<Rightarrow> string list) \<Rightarrow> (string list \<Rightarrow> string list) \<Rightarrow>
     u64 \<Rightarrow> u64 \<Rightarrow> tx_id \<Rightarrow> ('db, 'v, 's, 'f, unit) eact" where
  "commit_transaction E C io fr ord vord now1 now2 i e =
     (case tx_mgr e of
        None \<Rightarrow> (Err no_manager, e)
      | Some m \<Rightarrow>
          (case mgr_get m i of
             Inl x \<Rightarrow> (Err x, e)
           | Inr tx \<Rightarrow>
               ebind (apply_groups E fr (group_order ord (ops_by_collection (operations tx)))) (\<lambda>_ e.
                 case mgr_commit C io vord now1 now2 i m of
                   (r, m') \<Rightarrow> (outcome_of r, e\<lparr> tx_mgr := Some m', wal_disk := Some (wal_file m') \<rparr>)) e))"

definition rollback_transaction ::
    "wal_codec \<Rightarrow> io_outcome \<Rightarrow> u64 \<Rightarrow> tx_id \<Rightarrow> ('db, 'v, 's, 'f, unit) eact" where
  "rollback_transaction C io now i e =
     (case tx_mgr e of
        None \<Rightarrow> (Err no_manager, e)
      | Some m \<Rightarrow>
          (case mgr_rollback C io now i m of
             (r, m') \<Rightarrow> (outcome_of r, e\<lparr> tx_mgr := Some m', wal_disk := Some (wal_file m') \<rparr>)))"

end
