(* ===== verification/EngineTx.thy ===== *)
theory EngineTx
  imports Engine
begin

text \<open>
  The commit of a transaction by the engine of \<open>Engine\<close>, over the collections of \<open>CollectionTx\<close> and
  the manager of \<open>TxManager\<close>: what it guarantees, and where it falls short of atomicity.
\<close>

section \<open>Families\<close>

definition family_coll :: "('db, 'v, 's, 'f) env \<Rightarrow> ('db, 'v, 's, 'f) engine \<Rightarrow> string \<Rightarrow> ('db, 'v, 's, 'f) collection" where
  "family_coll E e n = coll_new E n (the (map_of (cfs e) n))"

text \<open>The documents of a column family, and that they are in step with its indexes.\<close>

definition family_docs ::
    "('db, 'v, 's, 'f) env \<Rightarrow> ('db \<Rightarrow> (bytes, bytes) smap) \<Rightarrow> ('db, 'v, 's, 'f) engine \<Rightarrow> string \<Rightarrow>
     string \<rightharpoonup> document" where
  "family_docs E V e n = coll_docs E V (family_coll E e n)"

definition family_ok ::
    "('db, 'v, 's, 'f) env \<Rightarrow> ('db \<Rightarrow> (bytes, bytes) smap) \<Rightarrow> ('db, 'v, 's, 'f) engine \<Rightarrow> string \<Rightarrow> bool" where
  "family_ok E V e n \<longleftrightarrow> map_of (cfs e) n \<noteq> None \<and> coll_inv E V (family_coll E e n)"

text \<open>The cache of collections leads to handles with the name that was looked up.\<close>

definition engine_ok :: "('db, 'v, 's, 'f) engine \<Rightarrow> bool" where
  "engine_ok e \<longleftrightarrow> distinct (map fst (cfs e)) \<and> smap_ok (collections e) \<and>
     (\<forall>n h. map_of (collections e) n = Some h \<longrightarrow> h < length (handles e) \<and> coll_name (handles e ! h) = n)"

lemma coll_new_simps [simp]: "coll_db (coll_new E n d) = d" "coll_name (coll_new E n d) = n"
  by (simp_all add: coll_new_def)

lemma op_docs_name: "coll_name c = coll_name c' \<Longrightarrow> op_docs c = op_docs c'"
proof (intro ext)
  fix x :: "fresh \<times> operation" and D :: "string \<rightharpoonup> document" and k
  assume "coll_name c = coll_name c'"
  then show "op_docs c x D k = op_docs c' x D k" by (cases "snd x"; cases x) (auto simp: tx_doc_def)
qed

lemma tx_fits_same:
  assumes "coll_db c = coll_db c'" "coll_name c = coll_name c'"
  shows "tx_fits E c D ops = tx_fits E c' D ops"
proof (induction ops arbitrary: D)
  case (Cons o1 ops)
  have "op_fits E c D o1 = op_fits E c' D o1"
    by (cases "snd o1"; cases o1) (simp_all add: tx_doc_def coll_db_only(1) [OF assms(1)] assms(2) split: option.splits)
  with Cons op_docs_name [OF assms(2)] show ?case by simp
qed simp

lemma map_of_cf_put:
  "map_of (cf_put n d cs) m = (if m = n \<and> map_of cs n \<noteq> None then Some d else map_of cs m)"
  by (induction cs) (auto simp: cf_put_def)

lemma cf_put_names [simp]: "map fst (cf_put n d cs) = map fst cs"
  by (induction cs) (auto simp: cf_put_def)

lemma cf_put_same: "distinct (map fst cs) \<Longrightarrow> map_of cs n = Some d \<Longrightarrow> cf_put n d cs = cs"
proof (induction cs)
  case (Cons p cs)
  have "cf_put n d cs = cs" if "n \<notin> fst ` set cs" using that by (induction cs) (auto simp: cf_put_def)
  with Cons show ?case by (cases p) (auto simp: cf_put_def split: if_splits)
qed (simp add: cf_put_def)

lemma ebind_simps:
  "m e = (Done a, e') \<Longrightarrow> ebind m f e = f a e'" "m e = (Err x, e') \<Longrightarrow> ebind m f e = (Err x, e')"
  "m e = (Panic, e') \<Longrightarrow> ebind m f e = (Panic, e')"
  by (simp_all add: ebind_def)

section \<open>One collection of a transaction\<close>

lemma get_collection_ok:
  assumes "engine_ok e" "map_of (cfs e) n \<noteq> None"
  obtains h e' where "get_collection E n e = (Done h, e')" "engine_ok e'" "cfs e' = cfs e" "tx_mgr e' = tx_mgr e"
    "h < length (handles e')" "coll_name (handles e' ! h) = n" "map_of (collections e') n = Some h"
proof (cases "map_of (collections e) n")
  case (Some h)
  then show ?thesis using that [of h e] assms(1) by (simp add: get_collection_def engine_ok_def)
next
  case None
  let ?h = "length (handles e)"
  let ?e = "e\<lparr> handles := handles e @ [coll_new E n (the (map_of (cfs e) n))], collections := smap_put n ?h (collections e) \<rparr>"
  have "get_collection E n e = (Done ?h, ?e)"
    using None assms(2) by (simp add: get_collection_def actual_name_def Let_def)
  moreover have "engine_ok ?e"
    using assms(1) by (auto simp: engine_ok_def nth_append less_Suc_eq split: if_splits)
  moreover have "map_of (collections ?e) n = Some ?h" using assms(1) by (simp add: engine_ok_def)
  ultimately show ?thesis using that [of ?h ?e] by simp
qed

text \<open>The documents after the operations of a transaction on one collection.\<close>

definition tx_docs ::
    "('db, 'v, 's, 'f) env \<Rightarrow> ('db \<Rightarrow> (bytes, bytes) smap) \<Rightarrow> ('db, 'v, 's, 'f) engine \<Rightarrow> (string \<Rightarrow> nat \<Rightarrow> fresh) \<Rightarrow>
     operation list \<Rightarrow> string \<Rightarrow> string \<rightharpoonup> document" where
  "tx_docs E V e fr ops n = fold (op_docs (family_coll E e n)) (stamped (fr n) ops) (family_docs E V e n)"

definition group_ready ::
    "('db, 'v, 's, 'f) env \<Rightarrow> ('db \<Rightarrow> (bytes, bytes) smap) \<Rightarrow> ('db, 'v, 's, 'f) engine \<Rightarrow> (string \<Rightarrow> nat \<Rightarrow> fresh) \<Rightarrow>
     operation list \<Rightarrow> string \<Rightarrow> bool" where
  "group_ready E V e fr ops n \<longleftrightarrow> family_ok E V e n \<and>
     tx_fits E (family_coll E e n) (family_docs E V e n) (stamped (fr n) ops)"

lemma family_same:
  assumes "map_of (cfs e) n = map_of (cfs e') n"
  shows "family_docs E V e n = family_docs E V e' n" "family_ok E V e n = family_ok E V e' n"
    "tx_docs E V e fr ops n = tx_docs E V e' fr ops n" "group_ready E V e fr ops n = group_ready E V e' fr ops n"
  using assms by (simp_all add: family_docs_def family_ok_def family_coll_def tx_docs_def group_ready_def)

text \<open>A store whose writes succeed; then only a missing family can stop a transaction.\<close>

definition writes_succeed :: "('db, 'v, 's, 'f) env \<Rightarrow> bool" where
  "writes_succeed E \<longleftrightarrow> (\<forall>d ops. \<exists>d'. write_batch (env_db E) d ops = Inr d')"

lemma apply_tx_accepts:
  assumes "doc_codec_ok (env_doc E)" "writes_succeed E" "apply_transaction_operations E ops c = (x, c')"
  shows "x = Inr ()"
proof -
  have ser: "\<exists>b. serialize_doc (env_doc E) d = Inr b" for d using serialize_ok [OF assms(1)] by blast
  have one: "\<exists>p. op_batch E c fr op = Inr p" for fr op
  proof (cases op)
    case (OpInsert a1 a2 k v)
    then show ?thesis using ser [of "tx_doc c fr k v"] by (auto simp: batch_ops)
  next
    case (OpUpdate a1 a2 k old v)
    then show ?thesis using ser [of "tx_doc c fr k v"] by (auto simp: batch_ops)
  qed (simp_all add: batch_ops)
  have "\<exists>p. tx_batch E c ops b es = Inr p" for b es
  proof (induction ops arbitrary: b es)
    case (Cons o1 ops)
    obtain fr op where o1: "o1 = (fr, op)" by (cases o1)
    from one [of fr op] obtain ws evs where "op_batch E c fr op = Inr (ws, evs)" by fastforce
    with Cons [of "b @ ws" "es @ evs"] o1 show ?case by simp
  qed simp
  then obtain b es where "tx_batch E c ops [] [] = Inr (b, es)" by fastforce
  moreover obtain d where "write_batch (env_db E) (coll_db c) b = Inr d"
    using assms(2) by (auto simp: writes_succeed_def)
  ultimately show ?thesis
    using assms(3) by (simp add: apply_transaction_operations_def bind_def db_write_def)
qed

lemma apply_group_ok:
  assumes "rocks_ok (env_db E) V" "doc_codec_ok (env_doc E)" "engine_ok e" "h < length (handles e)"
    "coll_name (handles e ! h) = n" "group_ready E V e fr ops n"
    "with_handle h (apply_transaction_operations E (stamped (fr n) ops)) e = (r, e')"
  shows "engine_ok e'" "tx_mgr e' = tx_mgr e" "map fst (cfs e') = map fst (cfs e)"
    "\<And>m. m \<noteq> n \<Longrightarrow> map_of (cfs e') m = map_of (cfs e) m"
    "case r of Done _ \<Rightarrow> family_ok E V e' n \<and> family_docs E V e' n = tx_docs E V e fr ops n
      | Err _ \<Rightarrow> cfs e' = cfs e | Panic \<Rightarrow> False"
    "writes_succeed E \<Longrightarrow> r = Done ()"
proof -
  from assms(6) obtain d where d: "map_of (cfs e) n = Some d" by (auto simp: group_ready_def family_ok_def)
  define c where "c = (handles e ! h)\<lparr> coll_db := d \<rparr>"
  have c: "coll_db c = coll_db (family_coll E e n)" "coll_name c = coll_name (family_coll E e n)"
    using d assms(5) by (simp_all add: c_def family_coll_def)
  obtain x c' where a: "apply_transaction_operations E (stamped (fr n) ops) c = (x, c')" by fastforce
  have r: "r = outcome_of x" and e': "e' = e\<lparr> handles := (handles e)[h := c'], cfs := cf_put n (coll_db c') (cfs e) \<rparr>"
    using assms(5,7) d a by (simp_all add: with_handle_def c_def)
  have inv: "coll_inv E V c" and fits: "tx_fits E c (coll_docs E V c) (stamped (fr n) ops)"
    using assms(6) coll_db_only(2,3) [OF c(1), of E V] tx_fits_same [OF c, of E]
    by (simp_all add: group_ready_def family_ok_def family_docs_def)
  have name: "coll_name c' = n"
  proof (cases x)
    case (Inl m)
    with apply_tx_failed [OF a [unfolded Inl]] show ?thesis using assms(5) by (simp add: c_def)
  next
    case (Inr u)
    from apply_tx_steps(4) [OF assms(1,2) inv fits a [unfolded Inr]] show ?thesis using assms(5) by (simp add: c_def)
  qed
  show "r = Done ()" if "writes_succeed E" using apply_tx_accepts [OF assms(2) that a] by (simp add: r)
  show "tx_mgr e' = tx_mgr e" "map fst (cfs e') = map fst (cfs e)" by (simp_all add: e')
  show "map_of (cfs e') m = map_of (cfs e) m" if "m \<noteq> n" for m using that by (simp add: e' map_of_cf_put)
  have "coll_name ((handles e)[h := c'] ! i) = coll_name (handles e ! i)" for i
    using assms(4,5) name by (cases "i = h") simp_all
  with assms(3) show "engine_ok e'" by (simp add: e' engine_ok_def)
  have cf: "map_of (cfs e') n = Some (coll_db c')" using d by (simp add: e' map_of_cf_put)
  show "case r of Done _ \<Rightarrow> family_ok E V e' n \<and> family_docs E V e' n = tx_docs E V e fr ops n
      | Err _ \<Rightarrow> cfs e' = cfs e | Panic \<Rightarrow> False"
  proof (cases x)
    case (Inl m)
    then have "c' = c" using apply_tx_failed [OF a [unfolded Inl]] by simp
    then show ?thesis
      using Inl cf_put_same [OF _ d] assms(3) by (simp add: r e' c_def engine_ok_def)
  next
    case (Inr u)
    note st = apply_tx_steps [OF assms(1,2) inv fits a [unfolded Inr]]
    have "coll_db (family_coll E e' n) = coll_db c'" using cf by (simp add: family_coll_def)
    from coll_db_only(2,3) [OF this, of E V] st(1,2) coll_db_only(2,3) [OF c(1), of E V] op_docs_name [OF c(2)]
    show ?thesis by (simp add: r Inr family_ok_def family_docs_def tx_docs_def cf)
  qed
qed

section \<open>All collections of a transaction\<close>

text \<open>The groups that were applied, and what holds of the others.\<close>

definition applied ::
    "('db, 'v, 's, 'f) env \<Rightarrow> ('db \<Rightarrow> (bytes, bytes) smap) \<Rightarrow> (string \<Rightarrow> nat \<Rightarrow> fresh) \<Rightarrow>
     ('db, 'v, 's, 'f) engine \<Rightarrow> (string \<times> operation list) set \<Rightarrow> ('db, 'v, 's, 'f) engine \<Rightarrow> bool" where
  "applied E V fr e gs e' \<longleftrightarrow>
     (\<forall>m. m \<notin> fst ` gs \<longrightarrow> map_of (cfs e') m = map_of (cfs e) m) \<and>
     (\<forall>g \<in> gs. family_ok E V e' (fst g) \<and> family_docs E V e' (fst g) = tx_docs E V e fr (snd g) (fst g))"

lemma applied_Cons:
  assumes "\<And>m. m \<noteq> n \<Longrightarrow> map_of (cfs e1) m = map_of (cfs e) m"
    "family_ok E V e1 n \<and> family_docs E V e1 n = tx_docs E V e fr ops n"
    "applied E V fr e1 gs e'" "n \<notin> fst ` gs"
  shows "applied E V fr e (insert (n, ops) gs) e'"
proof -
  have n: "map_of (cfs e') n = map_of (cfs e1) n" using assms(3,4) by (simp add: applied_def)
  have "tx_docs E V e fr (snd g) (fst g) = tx_docs E V e1 fr (snd g) (fst g)" if "g \<in> gs" for g
  proof (rule family_same(3))
    have "fst g \<noteq> n" using that assms(4) by force
    with assms(1) show "map_of (cfs e) (fst g) = map_of (cfs e1) (fst g)" by simp
  qed
  with assms family_same(1,2) [OF n, of E V] show ?thesis by (auto simp: applied_def)
qed

lemma apply_groups_ok:
  assumes "rocks_ok (env_db E) V" "doc_codec_ok (env_doc E)" "engine_ok e" "distinct (map fst gs)"
    "\<forall>g \<in> set gs. group_ready E V e fr (snd g) (fst g)" "apply_groups E fr gs e = (r, e')"
  shows "engine_ok e' \<and> tx_mgr e' = tx_mgr e \<and> map fst (cfs e') = map fst (cfs e) \<and> r \<noteq> Panic \<and>
    (writes_succeed E \<longrightarrow> r = Done ()) \<and>
    (\<exists>ds. set ds \<subseteq> set gs \<and> (r = Done () \<longrightarrow> ds = gs) \<and> applied E V fr e (set ds) e')"
  using assms(3-6)
proof (induction gs arbitrary: e)
  case Nil
  then show ?case by (intro conjI exI [of _ "[]"]) (auto simp: applied_def)
next
  case (Cons g gs)
  obtain n ops where g: "g = (n, ops)" by (cases g)
  have ready: "group_ready E V e fr ops n" using Cons.prems(3) g by simp
  then have "map_of (cfs e) n \<noteq> None" by (simp add: group_ready_def family_ok_def)
  from get_collection_ok [OF Cons.prems(1) this] obtain h e1 where
    1: "get_collection E n e = (Done h, e1)" "engine_ok e1" "cfs e1 = cfs e" "tx_mgr e1 = tx_mgr e"
      "h < length (handles e1)" "coll_name (handles e1 ! h) = n" "map_of (collections e1) n = Some h" .
  obtain x e2 where w: "with_handle h (apply_transaction_operations E (stamped (fr n) ops)) e1 = (x, e2)"
    by fastforce
  have cf: "map_of (cfs e1) m = map_of (cfs e) m" for m using 1(3) by simp
  have ready1: "group_ready E V e1 fr ops n" using ready family_same(4) [OF cf] by blast
  have docs1: "tx_docs E V e1 fr ops n = tx_docs E V e fr ops n" by (rule family_same(3) [OF cf])
  note st = apply_group_ok [OF assms(1,2) 1(2,5,6) ready1 w, unfolded docs1]
  show ?case
  proof (cases x)
    case (Done u)
    then have r: "apply_groups E fr gs e2 = (r, e')" using Cons.prems(4) 1(1) w by (simp add: g ebind_simps)
    have other: "map_of (cfs e2) m = map_of (cfs e) m" if "m \<noteq> n" for m using st(4) [OF that] cf by simp
    have "group_ready E V e2 fr (snd q) (fst q)" if "q \<in> set gs" for q
    proof -
      have "fst q \<noteq> n" using that Cons.prems(2) g by force
      from family_same(4) [OF other [OF this]] show ?thesis using that Cons.prems(3) by simp
    qed
    with Cons.IH [OF st(1) _ _ r] Cons.prems(2) obtain ds where
      ih: "engine_ok e'" "tx_mgr e' = tx_mgr e2" "map fst (cfs e') = map fst (cfs e2)" "r \<noteq> Panic"
        "writes_succeed E \<longrightarrow> r = Done ()"
        "set ds \<subseteq> set gs" "r = Done () \<longrightarrow> ds = gs" "applied E V fr e2 (set ds) e'" by auto
    have "n \<notin> fst ` set ds" using Cons.prems(2) ih(6) g by auto
    from applied_Cons [OF other _ ih(8) this, where ops = ops] st(5) have "applied E V fr e (set ((n, ops) # ds)) e'"
      by (simp add: Done)
    with ih st(2,3) 1(3,4) show ?thesis by (intro conjI exI [of _ "(n, ops) # ds"]) (auto simp: g)
  next
    case (Err m)
    then have "r = Err m \<and> e' = e2" using Cons.prems(4) 1(1) w by (simp add: g ebind_simps)
    with st 1 Err show ?thesis by (intro conjI exI [of _ "[]"]) (auto simp: applied_def)
  next
    case Panic
    then show ?thesis using st(5) by simp
  qed
qed

section \<open>Grouping\<close>

lemma group_inv:
  fixes f :: "'a \<Rightarrow> string"
  defines "grp xs \<equiv> foldl (\<lambda>m x. smap_put (f x) (smap_get_or [] m (f x) @ [x]) m) [] xs"
  shows "smap_ok (grp xs) \<and> (\<forall>k. smap_get_or [] (grp xs) k = filter (\<lambda>x. f x = k) xs) \<and>
    set (map fst (grp xs)) = f ` set xs"
proof (induction xs rule: rev_induct)
  case Nil
  show ?case by (simp add: grp_def smap_get_or_def)
next
  case (snoc x xs)
  have s: "grp (xs @ [x]) = smap_put (f x) (smap_get_or [] (grp xs) (f x) @ [x]) (grp xs)" by (simp add: grp_def)
  have "set (map fst (smap_put k v m)) = insert k (set (map fst m))" for k v and m :: "(string, 'a list) smap"
    by (induction m) auto
  with snoc s show ?case by auto
qed

definition coll_ops :: "operation list \<Rightarrow> string \<Rightarrow> operation list" where
  "coll_ops ops n = filter (\<lambda>op. coll_of op = n) ops"

lemma group_order_eq:
  assumes "perm_order ord"
  shows "distinct (map fst (group_order ord (ops_by_collection ops)))"
    "set (group_order ord (ops_by_collection ops)) = (\<lambda>n. (n, coll_ops ops n)) ` coll_of ` set ops"
proof -
  note g = group_inv [of coll_of ops, folded ops_by_collection_def]
  have "distinct (map fst (ops_by_collection ops))" using g by (simp add: smap_ok_distinct)
  then have o: "distinct (ord (map fst (ops_by_collection ops)))"
      "set (ord (map fst (ops_by_collection ops))) = coll_of ` set ops"
    using assms g unfolding perm_order_def by (simp_all add: g)
  from o(1) show "distinct (map fst (group_order ord (ops_by_collection ops)))"
    by (simp add: group_order_def comp_def)
  show "set (group_order ord (ops_by_collection ops)) = (\<lambda>n. (n, coll_ops ops n)) ` coll_of ` set ops"
    using o(2) g by (simp add: group_order_def coll_ops_def)
qed

section \<open>Commit\<close>

text \<open>The transaction \<open>i\<close> of the manager and its collections: each exists, has its documents and indexes
  in step, and the operations fit it.\<close>

definition tx_ready ::
    "('db, 'v, 's, 'f) env \<Rightarrow> ('db \<Rightarrow> (bytes, bytes) smap) \<Rightarrow> ('db, 'v, 's, 'f) engine \<Rightarrow> (string \<Rightarrow> nat \<Rightarrow> fresh) \<Rightarrow>
     transaction \<Rightarrow> bool" where
  "tx_ready E V e fr tx \<longleftrightarrow>
     (\<forall>n \<in> coll_of ` set (operations tx). group_ready E V e fr (coll_ops (operations tx) n) n)"

lemma commit_steps:
  assumes "rocks_ok (env_db E) V" "doc_codec_ok (env_doc E)" "engine_ok e" "perm_order ord"
    "tx_mgr e = Some m" "mgr_get m i = Inr tx" "tx_ready E V e fr tx"
    "commit_transaction E C io fr ord vord now1 now2 i e = (r, e')"
  obtains (all) r2 m' where "mgr_commit C io vord now1 now2 i m = (r2, m')" "r = outcome_of r2" "tx_mgr e' = Some m'"
      "engine_ok e'" "applied E V fr e ((\<lambda>n. (n, coll_ops (operations tx) n)) ` coll_of ` set (operations tx)) e'"
    | (some) ns x where "\<not> writes_succeed E" "ns \<subseteq> coll_of ` set (operations tx)" "r = Err x" "tx_mgr e' = Some m"
      "engine_ok e'" "applied E V fr e ((\<lambda>n. (n, coll_ops (operations tx) n)) ` ns) e'"
proof -
  let ?gs = "group_order ord (ops_by_collection (operations tx))"
  note gs = group_order_eq [OF assms(4), of "operations tx"]
  obtain r1 e1 where a: "apply_groups E fr ?gs e = (r1, e1)" by fastforce
  have "\<forall>g \<in> set ?gs. group_ready E V e fr (snd g) (fst g)"
    using assms(7) by (auto simp: gs(2) tx_ready_def)
  from apply_groups_ok [OF assms(1-3) gs(1) this a] obtain ds where
    st: "engine_ok e1" "tx_mgr e1 = tx_mgr e" "r1 \<noteq> Panic" "writes_succeed E \<longrightarrow> r1 = Done ()"
      "set ds \<subseteq> set ?gs" "r1 = Done () \<longrightarrow> ds = ?gs" "applied E V fr e (set ds) e1" by blast
  show ?thesis
  proof (cases r1)
    case (Done u)
    obtain r2 m' where c: "mgr_commit C io vord now1 now2 i m = (r2, m')" by fastforce
    have "r = outcome_of r2" and e': "e' = e1\<lparr> tx_mgr := Some m', wal_disk := Some (wal_file m') \<rparr>"
      using assms(5,6,8) a Done c by (simp_all add: commit_transaction_def ebind_simps)
    moreover have "applied E V fr e (set ds) e'"
      using st(7) by (simp add: e' applied_def family_ok_def family_docs_def family_coll_def)
    ultimately show ?thesis using all [OF c] st(1,6) Done gs(2) by (simp add: engine_ok_def)
  next
    case (Err x)
    have r: "r = Err x" "e' = e1" using assms(5,6,8) a Err by (simp_all add: commit_transaction_def ebind_simps)
    from st(5) [unfolded gs(2)] obtain ns where ns: "ns \<subseteq> coll_of ` set (operations tx)"
        "set ds = (\<lambda>n. (n, coll_ops (operations tx) n)) ` ns"
      by (rule subset_imageE)
    have "\<not> writes_succeed E" using st(4) Err by simp
    from some [OF this ns(1) r(1)] st(1,2,7) assms(5) show ?thesis by (simp add: r(2) ns(2))
  qed (use st(3) in simp)
qed


text \<open>
  C39: A commit writes the operations to the collections before the manager validates the transaction
  and logs its commit. When the manager then refuses, the caller gets its error, but all operations
  stay applied in all collections.
\<close>
theorem commit_failure_keeps_writes:
  assumes "rocks_ok (env_db E) V" "doc_codec_ok (env_doc E)" "writes_succeed E" "engine_ok e" "perm_order ord"
    "tx_mgr e = Some m" "mgr_get m i = Inr tx" "tx_ready E V e fr tx"
    "mgr_commit C io vord now1 now2 i m = (Inl x, m')"
    "commit_transaction E C io fr ord vord now1 now2 i e = (r, e')"
  shows "r = Err x \<and> (\<forall>op \<in> set (operations tx).
    family_docs E V e' (coll_of op) = tx_docs E V e fr (coll_ops (operations tx) (coll_of op)) (coll_of op))"
  using assms(1,2,4-8,10)
proof (cases rule: commit_steps)
  case (all r2 m'')
  then show ?thesis using assms(9) by (auto simp: applied_def)
next
  case (some ns y)
  then show ?thesis using assms(3) by simp
qed

section \<open>Handles\<close>

lemma get_collection_other:
  assumes "smap_ok (collections e)" "get_collection E n e = (x, e')" "h < length (handles e)"
    "h \<notin> ran (map_of (collections e))"
  shows "smap_ok (collections e')" "handles e' ! h = handles e ! h" "h < length (handles e')"
    "h \<notin> ran (map_of (collections e'))" "x = Done k \<Longrightarrow> k \<noteq> h"
proof -
  have *: "h \<in> ran m" if "h \<in> ran (m(a \<mapsto> length (handles e)))" for a and m :: "string \<rightharpoonup> nat"
    using that assms(3) by (auto simp: ran_def split: if_splits)
  show "smap_ok (collections e')" "handles e' ! h = handles e ! h" "h < length (handles e')"
    "h \<notin> ran (map_of (collections e'))" "x = Done k \<Longrightarrow> k \<noteq> h"
    using assms by (auto simp: get_collection_def Let_def nth_append ranI split: option.splits if_splits dest!: *)
qed

lemma apply_groups_other:
  assumes "smap_ok (collections e)" "apply_groups E fr gs e = (x, e')" "h < length (handles e)"
    "h \<notin> ran (map_of (collections e))"
  shows "handles e' ! h = handles e ! h"
  using assms
proof (induction gs arbitrary: e)
  case (Cons g gs)
  obtain n ops where g: "g = (n, ops)" by (cases g)
  obtain y e1 where y: "get_collection E n e = (y, e1)" by fastforce
  note c = get_collection_other [OF Cons.prems(1) y Cons.prems(3,4)]
  show ?case
  proof (cases y)
    case (Done k)
    obtain z e2 where z: "with_handle k (apply_transaction_operations E (stamped (fr n) ops)) e1 = (z, e2)"
      by fastforce
    have k: "k \<noteq> h" using c(5) Done by simp
    have e2: "handles e2 ! h = handles e ! h" "smap_ok (collections e2)" "h < length (handles e2)"
        "h \<notin> ran (map_of (collections e2))"
      using z c k by (auto simp: with_handle_def split: option.splits prod.splits)
    show ?thesis
      using Cons.IH [OF e2(2) _ e2(3,4)] Cons.prems(2) y z Done e2(1)
      by (cases z) (auto simp: g ebind_simps)
  qed (use Cons.prems(2) y c in \<open>auto simp: g ebind_simps\<close>)
qed simp

text \<open>
  A commit works on the handles of the engine's own cache. A handle that a database has given out
  for the same collection keeps its counter, its filters and vector indexes, and its subscribers get
  none of the events, whatever the transaction did to the documents.
\<close>
theorem database_handle_misses_commit:
  assumes "engine_ok e" "h < length (handles e)" "h \<notin> ran (map_of (collections e))"
    "commit_transaction E C io fr ord vord now1 now2 i e = (r, e')"
  shows "handles e' ! h = handles e ! h"
proof -
  have ok: "smap_ok (collections e)" using assms(1) by (simp add: engine_ok_def)
  have "handles e1 ! h = handles e ! h" if "apply_groups E fr gs e = (x, e1)" for gs x e1
    using apply_groups_other [OF ok that assms(2,3)] .
  then show ?thesis
    using assms(4)
    by (auto simp: commit_transaction_def ebind_def split: option.splits sum.splits outcome.splits prod.splits)
qed

text \<open>
  Deleting a collection by its full name leaves the handle in the engine's cache. The next lookup
  of the name returns that handle, and using it panics.
\<close>
theorem deleted_collection_panics:
  assumes "engine_ok e" "get_collection E n e = (Done h, e1)" "map_of (cfs e) n \<noteq> None"
    "delete_collection F n e1 = (Done (), e2)"
  shows "get_collection E n e2 = (Done h, e2) \<and> with_handle h act e2 = (Panic, e2)"
proof -
  from get_collection_ok [OF assms(1,3), where E = E] obtain h' e1' where
    g: "get_collection E n e = (Done h', e1')" and 1: "coll_name (handles e1' ! h') = n" "map_of (collections e1') n = Some h'" .
  have [simp]: "h' = h" "e1' = e1" using g assms(2) by simp_all
  have e2: "e2 = e1\<lparr> cfs := filter (\<lambda>p. fst p \<noteq> n) (cfs e1) \<rparr>"
    using assms(4) by (auto simp: delete_collection_def drop_family_def split: if_splits sum.splits)
  have "map_of (filter (\<lambda>p. fst p \<noteq> n) cs) n = None" for cs :: "(string \<times> 'a) list" by (induction cs) auto
  with 1 show ?thesis by (simp add: e2 get_collection_def with_handle_def)
qed

text \<open>An engine with two collections, a transaction that inserts into both, and one that inserts a
  document twice with a delete in between.\<close>

definition demo_engine :: "operation list \<Rightarrow> ((bytes \<times> bytes) list, unit, unit, string set) engine" where
  "demo_engine ops = \<lparr>
     cfs = [(META_CF, []), (''db:people'', coll_db demo_coll), (''db:pets'', coll_db demo_coll)],
     handles = [coll_new demo_env ''db:people'' (coll_db demo_coll)], collections = [],
     db_handles = [\<lparr> db_name = ''db'', db_collections = [(''people'', 0)] \<rparr>], databases = [(''db'', 0)],
     tx_mgr = Some (mgr_new\<lparr> active := [(5, (tx_new 5 0 ReadCommitted)\<lparr> operations := ops \<rparr>)] \<rparr>), wal_disk = Some [] \<rparr>"

definition two_inserts :: "operation list" where
  "two_inserts = [OpInsert ''db'' ''people'' ''ann'' ann, OpInsert ''db'' ''pets'' ''bob'' bob]"

definition insert_twice :: "operation list" where
  "insert_twice = [OpInsert ''db'' ''people'' ''ann'' ann, OpDelete ''db'' ''people'' ''ann'' ann,
                   OpInsert ''db'' ''people'' ''ann'' ann]"

definition demo_fr :: "string \<Rightarrow> nat \<Rightarrow> fresh" where
  "demo_fr n k = demo_fresh (k + 1)"

lemma demo_engine_ok: "engine_ok (demo_engine ops)"
  by (simp add: engine_ok_def demo_engine_def META_CF_def)

lemma demo_family:
  assumes "n = ''db:people'' \<or> n = ''db:pets''"
  shows "coll_db (family_coll demo_env (demo_engine ops) n) = coll_db demo_coll"
    "coll_name (family_coll demo_env (demo_engine ops) n) = n"
    "family_ok demo_env mem_view (demo_engine ops) n" "family_docs demo_env mem_view (demo_engine ops) n = Map.empty"
proof -
  show c: "coll_db (family_coll demo_env (demo_engine ops) n) = coll_db demo_coll"
    and "coll_name (family_coll demo_env (demo_engine ops) n) = n"
    using assms by (auto simp: family_coll_def demo_engine_def META_CF_def)
  show "family_ok demo_env mem_view (demo_engine ops) n" "family_docs demo_env mem_view (demo_engine ops) n = Map.empty"
    using coll_db_only(2,3) [OF c, of demo_env mem_view] demo_coll_inv assms
    by (auto simp: family_ok_def family_docs_def demo_engine_def META_CF_def)
qed

lemma demo_mgr_get: "tx_mgr (demo_engine ops) = Some (mgr_new\<lparr> active := [(5, (tx_new 5 0 ReadCommitted)\<lparr> operations := ops \<rparr>)] \<rparr>)"
  "mgr_get (mgr_new\<lparr> active := [(5, (tx_new 5 0 ReadCommitted)\<lparr> operations := ops \<rparr>)] \<rparr>) 5 =
   Inr ((tx_new 5 0 ReadCommitted)\<lparr> operations := ops \<rparr>)"
  by (simp_all add: demo_engine_def mgr_get_def)

lemma demo_ready:
  "tx_ready demo_env mem_view (demo_engine ops) demo_fr ((tx_new 5 0 ReadCommitted)\<lparr> operations := two_inserts \<rparr>)"
  "tx_ready demo_env mem_view (demo_engine ops) demo_fr ((tx_new 5 0 ReadCommitted)\<lparr> operations := insert_twice \<rparr>)"
  by (simp_all add: tx_ready_def two_inserts_def insert_twice_def coll_of_def coll_ops_def group_ready_def demo_family
      stamped_def demo_fr_def demo_cfgs demo_batch upt_rec)

lemma perm_order_id: "perm_order id"
  by (simp add: perm_order_def)

lemma demo_writes_succeed: "writes_succeed demo_env"
  unfolding writes_succeed_def using demo_writes by blast

lemma demo_commit:
  "\<exists>m'. mgr_commit demo_codec IoOk id 6 7 5
      (mgr_new\<lparr> active := [(5, (tx_new 5 0 ReadCommitted)\<lparr> operations := two_inserts \<rparr>)] \<rparr>) = (Inr (), m')"
  "\<exists>x m'. mgr_commit demo_codec IoOk id 6 7 5
      (mgr_new\<lparr> active := [(5, (tx_new 5 0 ReadCommitted)\<lparr> operations := insert_twice \<rparr>)] \<rparr>) = (Inl x, m')"
proof -
  let ?m = "\<lambda>ops. mgr_new\<lparr> active := [(5, (tx_new 5 0 ReadCommitted)\<lparr> operations := ops \<rparr>)] \<rparr>"
  have w: "wal_codec_ok demo_codec {WCommit 5 7}"
    by (rule wal_codec_ok_mono [OF demo_codec_ok]) (simp add: demo_entries_def)
  have p: "perm_order (id :: string list \<Rightarrow> _)" by (simp add: perm_order_def)
  have inv: "mgr_inv (?m ops)" for ops by (simp add: mgr_inv_def tx_new_def)
  have at: "map_of (active (?m ops)) 5 = Some ((tx_new 5 0 ReadCommitted)\<lparr> operations := ops \<rparr>)" for ops by simp
  note c = mgr_commit_result [OF w p inv at, of 6]
  show "\<exists>m'. mgr_commit demo_codec IoOk id 6 7 5 (?m two_inserts) = (Inr (), m')"
    unfolding c by (simp add: two_inserts_def tx_ops_ok_def op_name_def tx_new_def)
  have bad: "\<not> tx_ops_ok insert_twice" by (simp add: insert_twice_def tx_ops_ok_def op_name_def ops_clash_def)
  have "fst (mgr_validate id 5 (?m insert_twice)) \<noteq> Inr ()"
    using mgr_validate_result [OF p at, of insert_twice] bad by simp
  then obtain x m' where "mgr_validate id 5 (?m insert_twice) = (Inl x, m')"
    by (cases "mgr_validate id 5 (?m insert_twice)"; cases "fst (mgr_validate id 5 (?m insert_twice))") auto
  then show "\<exists>x m'. mgr_commit demo_codec IoOk id 6 7 5 (?m insert_twice) = (Inl x, m')"
    unfolding c using bad by simp
qed



theorem commit_failure_keeps_writes_witness:
  "\<exists>x e'. commit_transaction demo_env demo_codec IoOk demo_fr id id 6 7 5 (demo_engine insert_twice) = (Err x, e') \<and>
     family_docs demo_env mem_view (demo_engine insert_twice) ''db:people'' = Map.empty \<and>
     dom (family_docs demo_env mem_view e' ''db:people'') = {''ann''}"
proof -
  obtain r e' where c: "commit_transaction demo_env demo_codec IoOk demo_fr id id 6 7 5 (demo_engine insert_twice) = (r, e')"
    by fastforce
  from demo_commit(2) obtain x m' where m: "mgr_commit demo_codec IoOk id 6 7 5
      (mgr_new\<lparr> active := [(5, (tx_new 5 0 ReadCommitted)\<lparr> operations := insert_twice \<rparr>)] \<rparr>) = (Inl x, m')" by blast
  from commit_failure_keeps_writes [OF _ _ demo_writes_succeed demo_engine_ok perm_order_id demo_mgr_get demo_ready(2) m c]
  have "r = Err x" "family_docs demo_env mem_view e' ''db:people'' =
      tx_docs demo_env mem_view (demo_engine insert_twice) demo_fr (coll_ops insert_twice ''db:people'') ''db:people''"
    by (simp_all add: mem_rocks_ok demo_doc_codec_ok insert_twice_def coll_of_def)
  with c show ?thesis
    by (intro exI [of _ x] exI [of _ e'])
      (simp add: demo_family tx_docs_def, simp add: coll_ops_def insert_twice_def coll_of_def stamped_def)
qed

theorem database_handle_misses_commit_witness:
  "\<exists>e'. snd (commit_transaction demo_env demo_codec IoOk demo_fr id id 6 7 5 (demo_engine two_inserts)) = e' \<and>
     db_get_collection demo_env 0 ''people'' (demo_engine two_inserts) = (Done 0, demo_engine two_inserts) \<and>
     doc_count (handles e' ! 0) = 0 \<and> changes (handles e' ! 0) = []"
proof -
  obtain r e' where c: "commit_transaction demo_env demo_codec IoOk demo_fr id id 6 7 5 (demo_engine two_inserts) = (r, e')"
    by fastforce
  have "handles e' ! 0 = demo_coll"
    using database_handle_misses_commit [OF demo_engine_ok _ _ c, of 0] by (simp add: demo_engine_def demo_coll_def)
  then show ?thesis using c demo_count
    by (simp add: db_get_collection_def demo_engine_def) (simp add: demo_coll_def coll_new_def)
qed

definition ok_cf_ops :: "(bytes \<times> bytes) list cf_ops" where
  "ok_cf_ops = \<lparr> cf_create = (\<lambda>_. Inr []), cf_drop = (\<lambda>_. Inr ()), cf_list = (\<lambda>ns. ns) \<rparr>"

theorem deleted_collection_panics_witness:
  "\<exists>h e1 e2. get_collection demo_env ''db:pets'' (demo_engine []) = (Done h, e1) \<and>
     delete_collection ok_cf_ops ''db:pets'' e1 = (Done (), e2) \<and>
     with_handle h (apply_transaction_operations demo_env []) e2 = (Panic, e2)"
proof -
  have at: "map_of (cfs (demo_engine [])) ''db:pets'' \<noteq> None" by (simp add: demo_engine_def)
  from get_collection_ok [OF demo_engine_ok at, where E = demo_env] obtain h e1 where
    g: "get_collection demo_env ''db:pets'' (demo_engine []) = (Done h, e1)" "cfs e1 = cfs (demo_engine [])" .
  let ?e2 = "e1\<lparr> cfs := filter (\<lambda>p. fst p \<noteq> ''db:pets'') (cfs e1) \<rparr>"
  have d: "delete_collection ok_cf_ops ''db:pets'' e1 = (Done (), ?e2)"
    using at g(2) by (simp add: delete_collection_def drop_family_def ok_cf_ops_def)
  from deleted_collection_panics [OF demo_engine_ok g(1) at d] g(1) d show ?thesis by blast
qed

end
