(* ===== verification/EngineDb.thy ===== *)
theory EngineDb
  imports EngineTx
begin

text \<open>
  The databases of the engine of \<open>Engine\<close>: creating and deleting a database acts on exactly the name
  and the collections it should.
\<close>

section \<open>The list of databases\<close>

lemma starts_with_drop: "starts_with b p \<Longrightarrow> b = p @ drop (length p) b"
  by (auto simp: starts_with_iff)

lemma db_name_utf8 [simp]: "utf8_valid (''db:'' @ n) = utf8_valid n"
  by simp

lemma list_databases_mem:
  assumes "rocks_ok (env_db E) V" "map_of (cfs e) META_CF = Some d"
  shows "n \<in> set (list_databases E e) \<longleftrightarrow> utf8_valid n \<and> map_of (V d) (''db:'' @ n) \<noteq> None"
proof -
  have 1: "(\<exists>v. (k, v) \<in> set (V d)) \<longleftrightarrow> map_of (V d) k \<noteq> None" for k
    by (auto simp: map_of_eq_None_iff image_iff Bex_def)
  have 2: "starts_with k ''db:'' \<and> n = drop 3 k \<longleftrightarrow> k = ''db:'' @ n" for k
    by (auto simp: starts_with_iff)
  have "n \<in> set (list_databases E e) \<longleftrightarrow>
      (\<exists>k. (\<exists>v. (k, v) \<in> set (V d)) \<and> utf8_valid k \<and> (starts_with k ''db:'' \<and> n = drop 3 k))"
    by (auto simp: list_databases_def assms(2) scan_eq [OF assms(1)] List.map_filter_def image_iff Bex_def)
  also have "\<dots> \<longleftrightarrow> utf8_valid n \<and> map_of (V d) (''db:'' @ n) \<noteq> None" unfolding 1 2 by auto
  finally show ?thesis .
qed

lemma write_meta_ok:
  assumes "rocks_ok (env_db E) V" "write_meta E msg op e = (Done u, e')" "map_of (cfs e) META_CF = Some d"
  obtains d' where "map_of (V d') = apply_op op (map_of (V d))" "e' = e\<lparr> cfs := cf_put META_CF d' (cfs e) \<rparr>"
proof -
  from assms(2,3) obtain d' where w: "write_batch (env_db E) d [op] = Inr d'"
    "e' = e\<lparr> cfs := cf_put META_CF d' (cfs e) \<rparr>"
    by (auto simp: write_meta_def split: sum.splits)
  from rocks_okD(3) [OF assms(1) w(1)] w(2) show ?thesis by (intro that) simp_all
qed

lemma list_databases_put:
  assumes "rocks_ok (env_db E) V" "map_of (cfs e) META_CF = Some d" "write_meta E msg op e = (Done u, e')"
  shows "n \<in> set (list_databases E e') \<longleftrightarrow> utf8_valid n \<and> apply_op op (map_of (V d)) (''db:'' @ n) \<noteq> None"
    "m \<noteq> META_CF \<Longrightarrow> map_of (cfs e') m = map_of (cfs e) m"
proof -
  from write_meta_ok [OF assms(1,3,2)] obtain d' where
    d': "map_of (V d') = apply_op op (map_of (V d))" "e' = e\<lparr> cfs := cf_put META_CF d' (cfs e) \<rparr>" .
  have "map_of (cfs e') META_CF = Some d'" using assms(2) by (simp add: d'(2) map_of_cf_put)
  from list_databases_mem [OF assms(1) this] show
    "n \<in> set (list_databases E e') \<longleftrightarrow> utf8_valid n \<and> apply_op op (map_of (V d)) (''db:'' @ n) \<noteq> None"
    by (simp add: d'(1))
  show "map_of (cfs e') m = map_of (cfs e) m" if "m \<noteq> META_CF" using that by (simp add: d'(2) map_of_cf_put)
qed

lemma write_meta_failed: "write_meta E msg op e = (r, e') \<Longrightarrow> r \<noteq> Done () \<Longrightarrow> e' = e"
  by (auto simp: write_meta_def split: option.splits sum.splits)

text \<open>
  Creating a database adds its name to the list of databases, exactly when the name is neither
  empty nor has a colon and is not in the list (and the write succeeds); otherwise nothing changes.
  No collection is touched.
\<close>
theorem create_database_correct:
  assumes "rocks_ok (env_db E) V" "map_of (cfs e) META_CF \<noteq> None" "utf8_valid name"
    "create_database E name e = (r, e')"
  shows "(r = Done () \<longrightarrow> name \<noteq> [] \<and> CHR '':'' \<notin> set name \<and> name \<notin> set (list_databases E e) \<and>
      set (list_databases E e') = insert name (set (list_databases E e)) \<and>
      (\<forall>n. n \<noteq> META_CF \<longrightarrow> map_of (cfs e') n = map_of (cfs e) n)) \<and>
    (r \<noteq> Done () \<longrightarrow> e' = e) \<and>
    (name \<noteq> [] \<and> CHR '':'' \<notin> set name \<and> name \<notin> set (list_databases E e) \<and> writes_succeed E \<longrightarrow> r = Done ())"
proof -
  from assms(2) obtain d where d: "map_of (cfs e) META_CF = Some d" by blast
  show ?thesis
  proof (cases "name = [] \<or> CHR '':'' \<in> set name \<or> name \<in> set (list_databases E e)")
    case True
    then have "\<exists>x. r = Err x \<and> e' = e" using assms(4) by (auto simp: create_database_def split: if_splits)
    with True show ?thesis by auto
  next
    case False
    then have w: "write_meta E ''Failed to create database: '' (Put (''db:'' @ name) ''1'') e = (r, e')"
      using assms(4) by (simp add: create_database_def)
    have "writes_succeed E \<longrightarrow> r = Done ()"
      using w d by (auto simp: write_meta_def writes_succeed_def split: sum.splits) (metis Inl_Inr_False)
    moreover have "set (list_databases E e') = insert name (set (list_databases E e)) \<and>
      (\<forall>n. n \<noteq> META_CF \<longrightarrow> map_of (cfs e') n = map_of (cfs e) n)" if "r = Done ()"
    proof -
      note p = list_databases_put [OF assms(1) d w [unfolded that]]
      have "n \<in> set (list_databases E e') \<longleftrightarrow> n = name \<or> n \<in> set (list_databases E e)" for n
        using p(1) [of n] list_databases_mem [OF assms(1) d, of n] assms(3) by auto
      with p(2) show ?thesis by blast
    qed
    moreover have "r \<noteq> Done () \<longrightarrow> e' = e" using write_meta_failed [OF w] by blast
    ultimately show ?thesis using False by blast
  qed
qed

section \<open>Deleting a database\<close>

lemma db_name_upd [simp]: "db_name (xs[i := (xs ! i)\<lparr> db_collections := m \<rparr>] ! i) = db_name (xs ! i)"
  by (cases "i < length xs") (simp_all add: list_update_beyond)

lemma db_delete_collection_ok:
  assumes "db_delete_collection F i n e = (Done u, e')"
  shows "cfs e' = filter (\<lambda>p. fst p \<noteq> collection_cf_name (db_handles e ! i) n) (cfs e)"
    "db_name (db_handles e' ! i) = db_name (db_handles e ! i)" "databases e' = databases e"
  using assms
  by (auto simp: db_delete_collection_def drop_family_def ebind_def Let_def split: if_splits sum.splits)

lemma delete_collections_ok:
  assumes "delete_collections F i ns e = (Done u, e')"
  shows "cfs e' = filter (\<lambda>p. fst p \<notin> collection_cf_name (db_handles e ! i) ` set ns) (cfs e) \<and>
    databases e' = databases e"
  using assms
proof (induction ns arbitrary: e)
  case (Cons n ns)
  from Cons.prems obtain v e1 where 1: "db_delete_collection F i n e = (Done v, e1)"
    "delete_collections F i ns e1 = (Done u, e')"
    by (auto simp: ebind_def split: prod.splits outcome.splits)
  note s = db_delete_collection_ok [OF 1(1)]
  have "collection_cf_name (db_handles e1 ! i) = collection_cf_name (db_handles e ! i)"
    using s(2) by (simp add: collection_cf_name_def fun_eq_iff)
  with Cons.IH [OF 1(2)] s(1,3) show ?case by (auto intro: filter_cong)
qed simp

text \<open>The cache of databases leads to handles with the name that was looked up.\<close>

definition db_cache_ok :: "('db, 'v, 's, 'f) engine \<Rightarrow> bool" where
  "db_cache_ok e \<longleftrightarrow> smap_ok (databases e) \<and>
     (\<forall>n i. map_of (databases e) n = Some i \<longrightarrow> i < length (db_handles e) \<and> db_name (db_handles e ! i) = n)"

lemma get_database_ok:
  assumes "db_cache_ok e" "get_database E name e = (Done i, e')"
  shows "cfs e' = cfs e" "db_name (db_handles e' ! i) = name" "db_cache_ok e'"
  using assms
  by (auto simp: get_database_def db_cache_ok_def nth_append less_Suc_eq split: option.splits if_splits)

lemma map_of_filter_fst: "map_of (filter (\<lambda>p. P (fst p)) cs) n = (if P n then map_of cs n else None)"
  by (induction cs) auto

lemma meta_not_db [simp]: "META_CF \<noteq> name @ CHR '':'' # t" "name @ CHR '':'' # t \<noteq> META_CF"
proof -
  show "META_CF \<noteq> name @ CHR '':'' # t"
  proof
    assume "META_CF = name @ CHR '':'' # t"
    then have "set META_CF = set (name @ CHR '':'' # t)" by (rule arg_cong)
    moreover have "CHR '':'' \<notin> set META_CF" by (simp add: META_CF_def)
    ultimately show False by simp
  qed
  then show "name @ CHR '':'' # t \<noteq> META_CF" by metis
qed

lemma meta_prefix [simp]: "\<not> starts_with META_CF (name @ '':'')"
  by (simp add: starts_with_iff)

lemma db_families:
  assumes "perm_order (cf_list F)" "distinct (map fst (cfs e))"
  shows "collection_cf_name (db_handles e ! i) ` set (db_list_collections F i e) =
    {n \<in> set (map fst (cfs e)). starts_with n (db_name (db_handles e ! i) @ '':'')}"
proof -
  let ?pre = "db_name (db_handles e ! i) @ '':''"
  let ?S = "{n \<in> set (map fst (cfs e)). starts_with n ?pre}"
  have names: "set (cf_list F (map fst (cfs e))) = set (map fst (cfs e))"
    using assms by (simp add: perm_order_def)
  then have "set (db_list_collections F i e) = drop (length ?pre) ` ?S"
    by (simp only: db_list_collections_def Let_def set_map set_filter names)
  moreover have "?pre @ drop (length ?pre) n = n" if "n \<in> ?S" for n using that starts_with_drop [of n ?pre] by simp
  ultimately show ?thesis by (simp add: collection_cf_name_def image_image)
qed

text \<open>
  C25: Deleting a database removes its collections, the column families whose name begins with the
  database's name and a colon, and its name from the list of databases and from the cache. It touches
  no other collection and no other name. The system database cannot be deleted.
\<close>
theorem delete_database_correct:
  assumes "rocks_ok (env_db E) V" "perm_order (cf_list F)" "distinct (map fst (cfs e))" "db_cache_ok e"
    "map_of (cfs e) META_CF \<noteq> None" "CHR '':'' \<notin> set name" "delete_database E F name e = (Done (), e')"
  shows "name \<noteq> ''_system'' \<and>
    (\<forall>n. map_of (cfs e') (name @ '':'' @ n) = None) \<and>
    (\<forall>n. n \<noteq> META_CF \<and> \<not> starts_with n (name @ '':'') \<longrightarrow> map_of (cfs e') n = map_of (cfs e) n) \<and>
    set (list_databases E e') = set (list_databases E e) - {name} \<and> map_of (databases e') name = None"
proof -
  from assms(7) obtain i e1 e2 e3 where st: "get_database E name e = (Done i, e1)"
    "delete_collections F i (db_list_collections F i e1) e1 = (Done (), e2)"
    "write_meta E ''Failed to delete database: '' (Del (''db:'' @ name)) e2 = (Done (), e3)"
    "e' = e3\<lparr> databases := smap_del name (databases e3) \<rparr>" "name \<noteq> ''_system''"
    by (auto simp: delete_database_def ebind_def split: if_splits prod.splits outcome.splits)
  note g = get_database_ok [OF assms(4) st(1)]
  let ?pre = "name @ '':''"
  have "collection_cf_name (db_handles e1 ! i) ` set (db_list_collections F i e1) =
      {n \<in> set (map fst (cfs e)). starts_with n ?pre}"
    using db_families [OF assms(2), of e1 i] assms(3) g(1,2) by simp
  with delete_collections_ok [OF st(2)] g(1) have
    c2: "cfs e2 = filter (\<lambda>p. \<not> starts_with (fst p) ?pre) (cfs e)" and db2: "databases e2 = databases e1"
    by (auto intro!: filter_cong)
  have meta: "map_of (cfs e2) META_CF = map_of (cfs e) META_CF"
    by (simp add: c2 map_of_filter_fst [where P = "\<lambda>n. \<not> starts_with n ?pre"])
  from assms(5) obtain d where d: "map_of (cfs e) META_CF = Some d" by blast
  note p = list_databases_put [OF assms(1) _ st(3), unfolded meta, OF d]
  have "n \<in> set (list_databases E e') \<longleftrightarrow> n \<noteq> name \<and> n \<in> set (list_databases E e)" for n
  proof -
    have "list_databases E e' = list_databases E e3" by (simp add: st(4) list_databases_def)
    then show ?thesis using p(1) [of n] list_databases_mem [OF assms(1) d, of n] by auto
  qed
  moreover have "map_of (cfs e') n = (if starts_with n ?pre then None else map_of (cfs e) n)" if "n \<noteq> META_CF" for n
    using p(2) [OF that] by (simp add: st(4) c2 map_of_filter_fst [where P = "\<lambda>n. \<not> starts_with n ?pre"])
  moreover have "databases e3 = databases e2" using st(3) by (auto simp: write_meta_def split: option.splits sum.splits)
  moreover have "map_of (databases e') name = None"
    using g(3) db2 \<open>databases e3 = databases e2\<close> by (simp add: st(4) db_cache_ok_def)
  ultimately show ?thesis using st(5) by (auto simp: starts_with_iff)
qed

theorem create_database_correct_witness:
  "\<exists>e'. create_database demo_env ''shop'' (demo_engine []) = (Done (), e') \<and> set (list_databases demo_env e') = {''shop''}"
proof -
  obtain r e' where c: "create_database demo_env ''shop'' (demo_engine []) = (r, e')" by fastforce
  have l: "list_databases demo_env (demo_engine []) = []"
    by (simp add: list_databases_def demo_engine_def scan_eq [OF mem_rocks_ok] List.map_filter_def)
  have "map_of (cfs (demo_engine [])) META_CF \<noteq> None" by (simp add: demo_engine_def)
  from create_database_correct [OF _ this _ c, of mem_view] have "r = Done () \<and> set (list_databases demo_env e') = {''shop''}"
    by (simp add: mem_rocks_ok l demo_writes_succeed)
  with c show ?thesis by blast
qed

theorem delete_database_correct_witness:
  "\<exists>e'. delete_database demo_env ok_cf_ops ''db'' (demo_engine []) = (Done (), e') \<and>
     map_of (cfs e') ''db:people'' = None"
proof -
  obtain e' where c: "delete_database demo_env ok_cf_ops ''db'' (demo_engine []) = (Done (), e')"
    by (simp add: delete_database_def get_database_def demo_engine_def ebind_def db_list_collections_def
        db_delete_collection_def drop_family_def ok_cf_ops_def META_CF_def collection_cf_name_def
        starts_with_def write_meta_def mem_rocks_def Let_def)
  have "db_cache_ok (demo_engine [])" "distinct (map fst (cfs (demo_engine [])))" "map_of (cfs (demo_engine [])) META_CF \<noteq> None"
    by (simp_all add: db_cache_ok_def demo_engine_def META_CF_def)
  from delete_database_correct [OF _ _ this(2,1,3) _ c, of mem_view]
  have "map_of (cfs e') (''db'' @ '':'' @ ''people'') = None"
    by (simp only: demo_env_simps mem_rocks_ok) (simp add: ok_cf_ops_def perm_order_def)
  with c show ?thesis by simp
qed

end
