(* ===== verification/Lattice.thy ===== *)
theory Lattice
  imports Prelude
begin

text \<open>
  The contract of a replicated data type: a merge that is commutative, associative and idempotent
  up to what a replica shows (\<open>obs\<close>), on the states that satisfy its invariant. The client's lemma
  is convergence: replicas that start from the same state and receive the same set of states, in
  any order and with any repetition, show the same value.

  \<open>smap_merge\<close> is the loop that every map-shaped type of \<^verbatim>\<open>src/sync\<close> runs over the entries of the
  other replica. Rust iterates a \<^verbatim>\<open>HashMap\<close> in an unspecified order; the keys of a map are
  distinct, so every order gives the canonical map that the model computes.
\<close>

section \<open>Contract\<close>

locale merge_lattice =
  fixes inv :: "'a \<Rightarrow> bool" and obs :: "'a \<Rightarrow> 'b" and mrg :: "'a \<Rightarrow> 'a \<Rightarrow> 'a"
  assumes inv_mrg: "inv a \<Longrightarrow> inv b \<Longrightarrow> inv (mrg a b)"
    and comm: "inv a \<Longrightarrow> inv b \<Longrightarrow> obs (mrg a b) = obs (mrg b a)"
    and assoc: "inv a \<Longrightarrow> inv b \<Longrightarrow> inv c \<Longrightarrow> obs (mrg (mrg a b) c) = obs (mrg a (mrg b c))"
    and idem: "inv a \<Longrightarrow> obs (mrg a a) = obs a"
    and cong: "inv a \<Longrightarrow> inv a' \<Longrightarrow> inv b \<Longrightarrow> inv b' \<Longrightarrow> obs a = obs a' \<Longrightarrow> obs b = obs b' \<Longrightarrow>
      obs (mrg a b) = obs (mrg a' b')"
begin

lemma inv_foldl: "inv a \<Longrightarrow> \<forall>x \<in> set xs. inv x \<Longrightarrow> inv (foldl mrg a xs)"
  by (induction xs arbitrary: a) (auto intro: inv_mrg)

lemma cong_foldl:
  "inv a \<Longrightarrow> inv b \<Longrightarrow> obs a = obs b \<Longrightarrow> \<forall>x \<in> set xs. inv x \<Longrightarrow>
   obs (foldl mrg a xs) = obs (foldl mrg b xs)"
proof (induction xs arbitrary: a b)
  case (Cons x xs)
  have "obs (foldl mrg (mrg a x) xs) = obs (foldl mrg (mrg b x) xs)"
  proof (rule Cons.IH)
    show "obs (mrg a x) = obs (mrg b x)" using Cons.prems by (intro cong [of a b x x]) auto
  qed (use Cons.prems in \<open>auto intro: inv_mrg\<close>)
  then show ?case by simp
qed simp

lemma mrg_foldl:
  "inv a \<Longrightarrow> inv b \<Longrightarrow> \<forall>x \<in> set xs. inv x \<Longrightarrow>
   obs (mrg a (foldl mrg b xs)) = obs (foldl mrg (mrg a b) xs)"
proof (induction xs arbitrary: b)
  case (Cons x xs)
  then have "obs (mrg a (foldl mrg (mrg b x) xs)) = obs (foldl mrg (mrg a (mrg b x)) xs)"
    by (intro Cons.IH) (auto intro: inv_mrg)
  also have "\<dots> = obs (foldl mrg (mrg (mrg a b) x) xs)"
    using Cons.prems by (intro cong_foldl) (auto intro: inv_mrg simp: assoc)
  finally show ?case by simp
qed simp

text \<open>A state that was merged once changes nothing when it is merged again.\<close>

lemma absorb_right: "inv a \<Longrightarrow> inv x \<Longrightarrow> obs (mrg (mrg a x) x) = obs (mrg a x)"
proof -
  assume "inv a" "inv x"
  then have "obs (mrg (mrg a x) x) = obs (mrg a (mrg x x))" by (simp add: assoc)
  also have "\<dots> = obs (mrg a x)" 
    using \<open>inv a\<close> \<open>inv x\<close> by (intro cong [of a a] idem inv_mrg) auto
  finally show ?thesis .
qed

lemma swap_right:
  "inv a \<Longrightarrow> inv x \<Longrightarrow> inv y \<Longrightarrow> obs (mrg (mrg a x) y) = obs (mrg (mrg a y) x)"
proof -
  assume i: "inv a" "inv x" "inv y"
  then have "obs (mrg (mrg a x) y) = obs (mrg a (mrg x y))" by (simp add: assoc)
  also have "\<dots> = obs (mrg a (mrg y x))"
    using i by (intro cong [of a a] comm inv_mrg) auto
  also have "\<dots> = obs (mrg (mrg a y) x)" using i by (simp add: assoc)
  finally show ?thesis .
qed

lemma absorb:
  "inv a \<Longrightarrow> \<forall>y \<in> set xs. inv y \<Longrightarrow> x \<in> set xs \<Longrightarrow>
   obs (mrg (foldl mrg a xs) x) = obs (foldl mrg a xs)"
proof (induction xs rule: rev_induct)
  case (snoc y xs)
  let ?s = "foldl mrg a xs"
  have i: "inv ?s" "inv y" "inv x" using snoc.prems inv_foldl [of a xs] by auto
  show ?case
  proof (cases "x = y")
    case True
    then show ?thesis using i by (simp add: absorb_right)
  next
    case False
    then have "obs (mrg ?s x) = obs ?s" using snoc by simp
    then have "obs (mrg (mrg ?s x) y) = obs (mrg ?s y)" 
      using i by (intro cong [of _ ?s y y] inv_mrg) auto
    then show ?thesis using i by (simp add: swap_right [of ?s y x])
  qed
qed simp

lemma absorb_all:
  "inv a \<Longrightarrow> \<forall>y \<in> set xs. inv y \<Longrightarrow> set ys \<subseteq> set xs \<Longrightarrow>
   obs (foldl mrg (foldl mrg a xs) ys) = obs (foldl mrg a xs)"
proof (induction ys rule: rev_induct)
  case (snoc y ys)
  let ?s = "foldl mrg a xs"
  have i: "inv ?s" "inv (foldl mrg ?s ys)" "inv y"
    using snoc.prems inv_foldl [of a xs] by (simp_all add: inv_foldl subset_iff)
  have "obs (mrg (foldl mrg ?s ys) y) = obs (mrg ?s y)"
    using snoc i by (intro cong [of _ ?s y y]) auto
  also have "\<dots> = obs ?s" using snoc.prems by (intro absorb) auto
  finally show ?case by simp
qed simp

lemma absorb_start:
  "inv a \<Longrightarrow> \<forall>y \<in> set xs. inv y \<Longrightarrow> obs (mrg (foldl mrg a xs) a) = obs (foldl mrg a xs)"
proof -
  assume i: "inv a" "\<forall>y \<in> set xs. inv y"
  then have s: "inv (foldl mrg a xs)" by (rule inv_foldl)
  have "obs (mrg (foldl mrg a xs) a) = obs (mrg a (foldl mrg a xs))" using i s by (intro comm)
  also have "\<dots> = obs (foldl mrg (mrg a a) xs)" using i by (intro mrg_foldl)
  also have "\<dots> = obs (foldl mrg a xs)" using i by (intro cong_foldl) (auto intro: inv_mrg idem)
  finally show ?thesis .
qed

lemma converge_half:
  assumes "inv a" "\<forall>x \<in> set xs. inv x" "set ys \<subseteq> set xs"
  shows "obs (mrg (foldl mrg a xs) (foldl mrg a ys)) = obs (foldl mrg a xs)"
proof -
  let ?s = "foldl mrg a xs"
  have i: "inv ?s" "inv (mrg ?s a)" "\<forall>y \<in> set ys. inv y"
    using assms inv_foldl [of a xs] by (auto intro: inv_mrg)
  have "obs (mrg ?s (foldl mrg a ys)) = obs (foldl mrg (mrg ?s a) ys)"
    using assms i by (intro mrg_foldl)
  also have "\<dots> = obs (foldl mrg ?s ys)"
    using assms i by (intro cong_foldl absorb_start)
  also have "\<dots> = obs ?s" using assms by (intro absorb_all)
  finally show ?thesis .
qed

lemma convergence:
  assumes "inv a" "\<forall>x \<in> set xs. inv x" "set xs = set ys"
  shows "obs (foldl mrg a xs) = obs (foldl mrg a ys)"
proof -
  have i: "inv (foldl mrg a xs)" "inv (foldl mrg a ys)" using assms by (auto intro: inv_foldl)
  have "obs (foldl mrg a xs) = obs (mrg (foldl mrg a xs) (foldl mrg a ys))"
    using assms converge_half [of a xs ys] by simp
  also have "\<dots> = obs (mrg (foldl mrg a ys) (foldl mrg a xs))" using i by (intro comm)
  also have "\<dots> = obs (foldl mrg a ys)" using assms converge_half [of a ys xs] by simp
  finally show ?thesis .
qed

end

section \<open>Merging maps entry by entry\<close>

definition smap_merge_step ::
    "('v \<Rightarrow> 'v \<Rightarrow> 'v) \<Rightarrow> ('k::linorder, 'v) smap \<Rightarrow> 'k \<times> 'v \<Rightarrow> ('k, 'v) smap" where
  "smap_merge_step f m p =
     (case map_of m (fst p) of
        Some w \<Rightarrow> smap_put (fst p) (f w (snd p)) m
      | None \<Rightarrow> smap_put (fst p) (snd p) m)"

definition smap_merge ::
    "('v \<Rightarrow> 'v \<Rightarrow> 'v) \<Rightarrow> ('k::linorder, 'v) smap \<Rightarrow> ('k, 'v) smap \<Rightarrow> ('k, 'v) smap" where
  "smap_merge f m n = foldl (smap_merge_step f) m n"

text \<open>The body of the counter loops: \<^verbatim>\<open>entry(k).or_insert(0)\<close>, then the larger count.\<close>

definition counts_step :: "('k::linorder, u64) smap \<Rightarrow> 'k \<times> u64 \<Rightarrow> ('k, u64) smap" where
  "counts_step m p =
     (let c = smap_get_or 0 m (fst p)
      in smap_put (fst p) (if snd p > c then snd p else c) m)"

definition counts_merge :: "('k::linorder, u64) smap \<Rightarrow> ('k, u64) smap \<Rightarrow> ('k, u64) smap" where
  "counts_merge m n = foldl counts_step m n"

definition smap_obs :: "('v \<Rightarrow> 'w) \<Rightarrow> ('k, 'v) smap \<Rightarrow> 'k \<Rightarrow> 'w option" where
  "smap_obs f m k = map_option f (map_of m k)"

definition smap_inv :: "('v \<Rightarrow> bool) \<Rightarrow> ('k::linorder, 'v) smap \<Rightarrow> bool" where
  "smap_inv P m \<longleftrightarrow> smap_ok m \<and> list_all (\<lambda>p. P (snd p)) m"

lemma smap_merge_step_ok [simp]: "smap_ok m \<Longrightarrow> smap_ok (smap_merge_step f m p)"
  by (simp add: smap_merge_step_def split: option.splits)

lemma smap_merge_ok [simp]: "smap_ok m \<Longrightarrow> smap_ok (smap_merge f m n)"
  unfolding smap_merge_def by (induction n arbitrary: m) auto

lemma map_of_smap_merge:
  assumes "smap_ok m" "smap_ok n"
  shows "map_of (smap_merge f m n) k =
    (case map_of n k of
       None \<Rightarrow> map_of m k
     | Some v \<Rightarrow> (case map_of m k of None \<Rightarrow> Some v | Some w \<Rightarrow> Some (f w v)))"
  using assms unfolding smap_merge_def
proof (induction n arbitrary: m)
  case (Cons p n)
  have "map_of n (fst p) = None" using Cons.prems by (intro smap_ok_below) auto
  with Cons.prems show ?case
    by (subst foldl_Cons, subst Cons.IH)
      (auto simp: smap_merge_step_def split: option.splits)
qed simp

lemma smap_inv_iff: "smap_inv P m \<longleftrightarrow> smap_ok m \<and> (\<forall>k v. map_of m k = Some v \<longrightarrow> P v)"
  unfolding smap_inv_def list_all_iff using smap_in_iff [of m] by fastforce

lemma counts_step_max: "counts_step m p = smap_merge_step max m p"
  by (auto simp: counts_step_def smap_merge_step_def smap_get_or_def Let_def max_def
      word_gt_0 split: option.splits)

lemma counts_merge_max: "counts_merge m n = smap_merge max m n"
  by (simp add: counts_merge_def smap_merge_def counts_step_max [abs_def])

text \<open>The count that a replica has for a node after a merge is the larger of the two.\<close>

lemma counts_merge_get:
  "smap_ok m \<Longrightarrow> smap_ok n \<Longrightarrow>
   smap_get_or 0 (counts_merge m n) k = max (smap_get_or 0 m k) (smap_get_or 0 n k)"
  by (auto simp: counts_merge_max smap_get_or_def map_of_smap_merge max_def split: option.splits)

lemma counts_merge_dom:
  "smap_ok m \<Longrightarrow> smap_ok n \<Longrightarrow>
   map_of (counts_merge m n) k = None \<longleftrightarrow> map_of m k = None \<and> map_of n k = None"
  by (auto simp: counts_merge_max map_of_smap_merge split: option.splits)

text \<open>A map of replicated values, merged entry by entry, is a replicated value.\<close>

locale field_lattice = merge_lattice

sublocale field_lattice \<subseteq> fields: merge_lattice "smap_inv inv" "smap_obs obs" "smap_merge mrg"
proof unfold_locales
  fix a b c :: "('c::linorder \<times> 'a) list"
  assume i: "smap_inv inv a" "smap_inv inv b"
  show "smap_inv inv (smap_merge mrg a b)"
    using i by (auto simp: smap_inv_iff map_of_smap_merge inv_mrg split: option.splits)
  show "smap_obs obs (smap_merge mrg a b) = smap_obs obs (smap_merge mrg b a)"
    using i by (auto simp: smap_obs_def smap_inv_iff map_of_smap_merge fun_eq_iff
        intro: comm split: option.splits)
  assume c: "smap_inv inv c"
  show "smap_obs obs (smap_merge mrg (smap_merge mrg a b) c) =
      smap_obs obs (smap_merge mrg a (smap_merge mrg b c))"
    using i c by (auto simp: smap_obs_def smap_inv_iff map_of_smap_merge fun_eq_iff
        intro: assoc split: option.splits)
next
  fix a :: "('c::linorder \<times> 'a) list"
  assume "smap_inv inv a"
  then show "smap_obs obs (smap_merge mrg a a) = smap_obs obs a"
    by (auto simp: smap_obs_def smap_inv_iff map_of_smap_merge fun_eq_iff
        intro: idem split: option.splits)
next
  fix a a' b b' :: "('c::linorder \<times> 'a) list"
  assume i: "smap_inv inv a" "smap_inv inv a'" "smap_inv inv b" "smap_inv inv b'"
    and e: "smap_obs obs a = smap_obs obs a'" "smap_obs obs b = smap_obs obs b'"
  have "smap_obs obs (smap_merge mrg a b) k = smap_obs obs (smap_merge mrg a' b') k" for k
  proof -
    have "map_option obs (map_of a k) = map_option obs (map_of a' k)"
      "map_option obs (map_of b k) = map_option obs (map_of b' k)"
      using e by (auto simp: smap_obs_def fun_eq_iff)
    then show ?thesis
      using i by (auto simp: smap_obs_def smap_inv_iff map_of_smap_merge
          intro: cong split: option.splits)
  qed
  then show "smap_obs obs (smap_merge mrg a b) = smap_obs obs (smap_merge mrg a' b')" by auto
qed

interpretation max64: field_lattice "\<lambda>_. True" "id :: u64 \<Rightarrow> u64" max
  by unfold_locales (simp_all add: max.commute max.left_commute)

end
