(* ===== verification/Crdt.thy ===== *)
theory Crdt
  imports Lattice Json
begin

text \<open>
  The replicated data types of \<^verbatim>\<open>src/sync/crdt.rs\<close>: last-write-wins registers, grow-only and
  positive-negative counters, observed-remove sets and the document that holds fields of each.
  Every type is shown to meet the merge contract of \<open>Lattice\<close> on the states that satisfy its
  invariant.

  The wall clock is an argument of the operations that read it, and the hash that gives an OR-set
  tag (\<^verbatim>\<open>DefaultHasher\<close>) is an argument of \<open>ors_add\<close>. Machine arithmetic wraps, as in a release
  build.
\<close>

section \<open>Last-write-wins register\<close>

record 'v lww =
  lww_value :: 'v
  lww_timestamp :: u64
  lww_node_id :: string

definition lww_new :: "u64 \<Rightarrow> 'v \<Rightarrow> string \<Rightarrow> 'v lww" where
  "lww_new now v n = \<lparr> lww_value = v, lww_timestamp = now, lww_node_id = n \<rparr>"

definition lww_with_timestamp :: "'v \<Rightarrow> string \<Rightarrow> u64 \<Rightarrow> 'v lww" where
  "lww_with_timestamp v n ts = \<lparr> lww_value = v, lww_timestamp = ts, lww_node_id = n \<rparr>"

definition lww_set :: "u64 \<Rightarrow> 'v lww \<Rightarrow> 'v \<Rightarrow> 'v lww" where
  "lww_set now r v = r\<lparr> lww_value := v, lww_timestamp := now \<rparr>"

definition lww_merge :: "'v lww \<Rightarrow> 'v lww \<Rightarrow> 'v lww" where
  "lww_merge self other =
     (if lww_timestamp self < lww_timestamp other then
        self\<lparr> lww_value := lww_value other, lww_timestamp := lww_timestamp other,
              lww_node_id := lww_node_id other \<rparr>
      else if lww_timestamp self = lww_timestamp other then
        (if lww_node_id other > lww_node_id self
         then self\<lparr> lww_value := lww_value other, lww_node_id := lww_node_id other \<rparr>
         else self)
      else self)"

section \<open>Counters\<close>

record gcounter =
  gc_nodes :: "(string, u64) smap"

definition gc_new :: gcounter where
  "gc_new = \<lparr> gc_nodes = [] \<rparr>"

definition gc_increment :: "gcounter \<Rightarrow> string \<Rightarrow> gcounter" where
  "gc_increment g n = g\<lparr> gc_nodes := smap_put n (smap_get_or 0 (gc_nodes g) n + 1) (gc_nodes g) \<rparr>"

definition gc_value :: "gcounter \<Rightarrow> u64" where
  "gc_value g = sum_list (map snd (gc_nodes g))"

definition gc_node_value :: "gcounter \<Rightarrow> string \<Rightarrow> u64" where
  "gc_node_value g n = smap_get_or 0 (gc_nodes g) n"

definition gc_merge :: "gcounter \<Rightarrow> gcounter \<Rightarrow> gcounter" where
  "gc_merge self other = self\<lparr> gc_nodes := counts_merge (gc_nodes self) (gc_nodes other) \<rparr>"

definition gc_is_empty :: "gcounter \<Rightarrow> bool" where
  "gc_is_empty g \<longleftrightarrow> gc_nodes g = [] \<or> gc_value g = 0"

record pncounter =
  pn_increments :: gcounter
  pn_decrements :: gcounter

definition pn_new :: pncounter where
  "pn_new = \<lparr> pn_increments = gc_new, pn_decrements = gc_new \<rparr>"

definition pn_increment :: "pncounter \<Rightarrow> string \<Rightarrow> pncounter" where
  "pn_increment p n = p\<lparr> pn_increments := gc_increment (pn_increments p) n \<rparr>"

definition pn_decrement :: "pncounter \<Rightarrow> string \<Rightarrow> pncounter" where
  "pn_decrement p n = p\<lparr> pn_decrements := gc_increment (pn_decrements p) n \<rparr>"

text \<open>The \<^verbatim>\<open>i64\<close> result of the wrapping subtraction.\<close>

definition pn_value :: "pncounter \<Rightarrow> int" where
  "pn_value p = sint (gc_value (pn_increments p) - gc_value (pn_decrements p))"

definition pn_merge :: "pncounter \<Rightarrow> pncounter \<Rightarrow> pncounter" where
  "pn_merge self other =
     self\<lparr> pn_increments := gc_merge (pn_increments self) (pn_increments other),
           pn_decrements := gc_merge (pn_decrements self) (pn_decrements other) \<rparr>"

definition pn_is_empty :: "pncounter \<Rightarrow> bool" where
  "pn_is_empty p \<longleftrightarrow> pn_value p = 0"

section \<open>Observed-remove set\<close>

record 'e orset =
  ors_elements :: "('e, u64 set) smap"
  ors_removed :: "u64 set"
  ors_tag_counter :: u64
  ors_node_id :: string

definition ors_new :: "string \<Rightarrow> 'e orset" where
  "ors_new n = \<lparr> ors_elements = [], ors_removed = {}, ors_tag_counter = 0, ors_node_id = n \<rparr>"

text \<open>\<open>hash\<close> stands for the standard library's \<^verbatim>\<open>DefaultHasher\<close> fed with the node and the counter.\<close>

definition generate_tag :: "(string \<Rightarrow> u64 \<Rightarrow> u64) \<Rightarrow> string \<Rightarrow> u64 \<Rightarrow> u64" where
  "generate_tag hash node_id counter = hash node_id counter"

definition ors_add :: "(string \<Rightarrow> u64 \<Rightarrow> u64) \<Rightarrow> 'e::linorder orset \<Rightarrow> 'e \<Rightarrow> 'e orset" where
  "ors_add hash s e =
     (let c = ors_tag_counter s + 1;
          tag = generate_tag hash (ors_node_id s) c
      in s\<lparr> ors_tag_counter := c,
            ors_elements := smap_put e (insert tag (smap_get_or {} (ors_elements s) e))
                              (ors_elements s) \<rparr>)"

definition ors_remove :: "'e::linorder orset \<Rightarrow> 'e \<Rightarrow> 'e orset" where
  "ors_remove s e =
     (case map_of (ors_elements s) e of
        Some tags \<Rightarrow> s\<lparr> ors_elements := smap_del e (ors_elements s),
                       ors_removed := ors_removed s \<union> tags \<rparr>
      | None \<Rightarrow> s)"

definition ors_contains :: "'e orset \<Rightarrow> 'e \<Rightarrow> bool" where
  "ors_contains s e \<longleftrightarrow> map_of (ors_elements s) e \<noteq> None"

definition ors_len :: "'e orset \<Rightarrow> nat" where
  "ors_len s = length (ors_elements s)"

text \<open>One iteration of the first loop of the merge: the tags of the other replica that this one
  has not removed join the element's entry.\<close>

definition ors_merge_step ::
    "u64 set \<Rightarrow> ('e::linorder, u64 set) smap \<Rightarrow> 'e \<times> u64 set \<Rightarrow> ('e, u64 set) smap" where
  "ors_merge_step removed m p =
     smap_put (fst p) (smap_get_or {} m (fst p) \<union> {t \<in> snd p. t \<notin> removed}) m"

definition ors_retain ::
    "u64 set \<Rightarrow> ('e, u64 set) smap \<Rightarrow> ('e, u64 set) smap" where
  "ors_retain removed m =
     filter (\<lambda>p. snd p \<noteq> {}) (map (\<lambda>p. (fst p, {t \<in> snd p. t \<notin> removed})) m)"

definition ors_merge :: "'e::linorder orset \<Rightarrow> 'e orset \<Rightarrow> 'e orset" where
  "ors_merge self other =
     (let es = foldl (ors_merge_step (ors_removed self)) (ors_elements self) (ors_elements other);
          removed = ors_removed self \<union> ors_removed other
      in self\<lparr> ors_elements := ors_retain removed es, ors_removed := removed \<rparr>)"

section \<open>CRDT documents\<close>

record crdt_doc =
  cd_regular :: json_obj
  cd_counters :: "(string, pncounter) smap"
  cd_sets :: "(string, string orset) smap"
  cd_registers :: "(string, json lww) smap"

definition cd_new :: crdt_doc where
  "cd_new = \<lparr> cd_regular = [], cd_counters = [], cd_sets = [], cd_registers = [] \<rparr>"

definition modified_of :: "json \<Rightarrow> u64" where
  "modified_of v =
     (case json_get v ''_modified'' of
        None \<Rightarrow> 0
      | Some t \<Rightarrow> (case as_u64 t of Some n \<Rightarrow> n | None \<Rightarrow> 0))"

definition regular_step :: "json_obj \<Rightarrow> string \<times> json \<Rightarrow> json_obj" where
  "regular_step m p =
     (case map_of m (fst p) of
        Some existing \<Rightarrow>
          (if modified_of (snd p) > modified_of existing then smap_put (fst p) (snd p) m else m)
      | None \<Rightarrow> smap_put (fst p) (snd p) m)"

definition cd_merge :: "crdt_doc \<Rightarrow> crdt_doc \<Rightarrow> crdt_doc" where
  "cd_merge self other =
     self\<lparr> cd_regular := foldl regular_step (cd_regular self) (cd_regular other),
           cd_counters := smap_merge pn_merge (cd_counters self) (cd_counters other),
           cd_sets := smap_merge ors_merge (cd_sets self) (cd_sets other),
           cd_registers := smap_merge lww_merge (cd_registers self) (cd_registers other) \<rparr>"

text \<open>A \<^verbatim>\<open>json!\<close> integer: non-negative values become unsigned numbers.\<close>

definition json_i64 :: "int \<Rightarrow> json" where
  "json_i64 i = JNumber (if 0 \<le> i then PosInt (of_int i) else NegInt (of_int i))"

text \<open>\<open>order\<close> is the iteration order of the hash map that holds a set's elements.\<close>

definition cd_to_json :: "(string list \<Rightarrow> string list) \<Rightarrow> crdt_doc \<Rightarrow> json" where
  "cd_to_json order d =
     (let r1 = foldl (\<lambda>m p. smap_put (fst p) (snd p) m) [] (cd_regular d);
          r2 = foldl (\<lambda>m p. smap_put (fst p)
                 (JObject [(''_type'', JString ''PNCounter''),
                           (''_value'', json_i64 (pn_value (snd p)))]) m) r1 (cd_counters d);
          r3 = foldl (\<lambda>m p. smap_put (fst p)
                 (JObject [(''_type'', JString ''ORSet''),
                           (''_value'', JArray (map JString (order (map fst (ors_elements (snd p))))))])
                 m) r2 (cd_sets d)
      in JObject r3)"


section \<open>Invariants and observations\<close>

text \<open>A register state is the one that \<open>w\<close> assigns to its timestamp and node: no two different
  values were written with the same stamp.\<close>

definition lww_inv :: "(u64 \<Rightarrow> string \<Rightarrow> 'v) \<Rightarrow> 'v lww \<Rightarrow> bool" where
  "lww_inv w r \<longleftrightarrow> lww_value r = w (lww_timestamp r) (lww_node_id r)"

definition gc_inv :: "gcounter \<Rightarrow> bool" where
  "gc_inv g \<longleftrightarrow> smap_ok (gc_nodes g)"

definition pn_inv :: "pncounter \<Rightarrow> bool" where
  "pn_inv p \<longleftrightarrow> gc_inv (pn_increments p) \<and> gc_inv (pn_decrements p)"

text \<open>Every element of a set has a tag, and none of its tags is removed.\<close>

definition ors_inv :: "'e::linorder orset \<Rightarrow> bool" where
  "ors_inv s \<longleftrightarrow> smap_inv (\<lambda>ts. ts \<noteq> {} \<and> ts \<inter> ors_removed s = {}) (ors_elements s)"

definition ors_obs :: "'e orset \<Rightarrow> ('e, u64 set) smap \<times> u64 set" where
  "ors_obs s = (ors_elements s, ors_removed s)"

definition cd_inv :: "(u64 \<Rightarrow> string \<Rightarrow> json) \<Rightarrow> crdt_doc \<Rightarrow> bool" where
  "cd_inv w d \<longleftrightarrow> smap_inv pn_inv (cd_counters d) \<and> smap_inv ors_inv (cd_sets d) \<and>
     smap_inv (lww_inv w) (cd_registers d)"

section \<open>The merge contract\<close>

lemma lww_merge_alt:
  "lww_merge a b =
     (if lww_timestamp a < lww_timestamp b \<or>
         lww_timestamp a = lww_timestamp b \<and> lww_node_id a < lww_node_id b
      then b else a)"
  by (cases a; cases b) (auto simp: lww_merge_def)

lemma lww_inv_eqI:
  "lww_inv w a \<Longrightarrow> lww_inv w b \<Longrightarrow> lww_timestamp a = lww_timestamp b \<Longrightarrow>
   lww_node_id a = lww_node_id b \<Longrightarrow> a = b"
  by (cases a; cases b) (auto simp: lww_inv_def)

interpretation lww: field_lattice "lww_inv w" id lww_merge for w
proof unfold_locales
  fix a b :: "'v lww" and w
  assume "lww_inv w a" "lww_inv w b"
  then show "id (lww_merge a b) = id (lww_merge b a)"
    by (auto simp: lww_merge_alt intro: lww_inv_eqI)
qed (auto simp: lww_merge_alt)

interpretation gc: field_lattice gc_inv id gc_merge
proof unfold_locales
  fix a b c :: gcounter
  assume i: "gc_inv a" "gc_inv b"
  show "gc_inv (gc_merge a b)" using i by (simp add: gc_inv_def gc_merge_def counts_merge_max)
  have eq: "a = b" if "gc_inv a" "gc_inv b" "map_of (gc_nodes a) = map_of (gc_nodes b)" for a b
    using that smap_eqI [of "gc_nodes a" "gc_nodes b"] by (cases a; cases b) (simp add: gc_inv_def)
  show "id (gc_merge a b) = id (gc_merge b a)"
    using i by (auto simp: gc_inv_def gc_merge_def counts_merge_max map_of_smap_merge fun_eq_iff
        max.commute intro!: eq split: option.splits)
  show "id (gc_merge a a) = id a"
    using i by (auto simp: gc_inv_def gc_merge_def counts_merge_max map_of_smap_merge fun_eq_iff
        intro!: eq split: option.splits)
  assume "gc_inv c"
  with i show "id (gc_merge (gc_merge a b) c) = id (gc_merge a (gc_merge b c))"
    by (auto simp: gc_inv_def gc_merge_def counts_merge_max map_of_smap_merge fun_eq_iff
        max.assoc intro!: eq split: option.splits)
qed auto

interpretation pn: field_lattice pn_inv id pn_merge
  by unfold_locales
    (auto simp: pn_inv_def pn_merge_def gc.inv_mrg gc.idem [simplified] gc.assoc [simplified]
      intro!: pncounter.equality gc.comm [simplified])

lemma ors_merge_step_ok [simp]: "smap_ok m \<Longrightarrow> smap_ok (ors_merge_step r m p)"
  by (simp add: ors_merge_step_def)

lemma ors_fold_ok [simp]: "smap_ok m \<Longrightarrow> smap_ok (foldl (ors_merge_step r) m n)"
  by (induction n arbitrary: m) auto

lemma ors_fold_tags:
  "smap_ok m \<Longrightarrow> smap_ok n \<Longrightarrow>
   smap_get_or {} (foldl (ors_merge_step r) m n) e =
     smap_get_or {} m e \<union> (smap_get_or {} n e - r)"
proof (induction n arbitrary: m)
  case (Cons p n)
  have "map_of n (fst p) = None" using Cons.prems by (intro smap_ok_below) auto
  with Cons.prems show ?case
    by (subst foldl_Cons, subst Cons.IH)
      (auto simp: ors_merge_step_def smap_get_or_def split: option.splits)
qed (simp add: smap_get_or_def)

lemma ors_retain_ok [simp]: "smap_ok m \<Longrightarrow> smap_ok (ors_retain r m)"
  by (induction m) (auto simp: ors_retain_def)

lemma map_of_ors_retain:
  "smap_ok m \<Longrightarrow> map_of (ors_retain r m) e =
    (let ts = smap_get_or {} m e - r in if ts = {} then None else Some ts)"
proof (induction m)
  case (Cons p m)
  have "map_of m (fst p) = None" using Cons.prems by (intro smap_ok_below) auto
  with Cons show ?case
    by (auto simp: ors_retain_def smap_get_or_def Let_def set_diff_eq split: option.splits if_splits)
qed (simp add: ors_retain_def smap_get_or_def)


abbreviation ors_tags :: "'e orset \<Rightarrow> 'e \<Rightarrow> u64 set" where
  "ors_tags s e \<equiv> smap_get_or {} (ors_elements s) e"

lemma ors_inv_iff:
  "ors_inv s \<longleftrightarrow> smap_ok (ors_elements s) \<and>
     (\<forall>e ts. map_of (ors_elements s) e = Some ts \<longrightarrow> ts \<noteq> {} \<and> ts \<inter> ors_removed s = {})"
  by (simp add: ors_inv_def smap_inv_iff)

lemma ors_inv_tags: "ors_inv s \<Longrightarrow> ors_tags s e \<inter> ors_removed s = {}"
  by (auto simp: ors_inv_iff smap_get_or_def split: option.splits)

lemma ors_merge_removed [simp]: "ors_removed (ors_merge a b) = ors_removed a \<union> ors_removed b"
  by (simp add: ors_merge_def Let_def)

lemma ors_merge_ok: "ors_inv a \<Longrightarrow> smap_ok (ors_elements (ors_merge a b))"
  by (simp add: ors_inv_iff ors_merge_def Let_def)

lemma ors_merge_lookup:
  assumes "smap_ok (ors_elements a)" "smap_ok (ors_elements b)"
  shows "map_of (ors_elements (ors_merge a b)) e =
    (let ts = (ors_tags a e \<union> ors_tags b e) - (ors_removed a \<union> ors_removed b)
     in if ts = {} then None else Some ts)"
proof -
  have "smap_get_or {} (foldl (ors_merge_step (ors_removed a)) (ors_elements a) (ors_elements b)) e -
      (ors_removed a \<union> ors_removed b) =
      (ors_tags a e \<union> ors_tags b e) - (ors_removed a \<union> ors_removed b)"
    using assms by (subst ors_fold_tags) auto
  then show ?thesis
    using assms by (simp add: ors_merge_def Let_def map_of_ors_retain)
qed

lemma ors_inv_ok: "ors_inv s \<Longrightarrow> smap_ok (ors_elements s)"
  by (simp add: ors_inv_iff)

lemma ors_merge_tags:
  "ors_inv a \<Longrightarrow> ors_inv b \<Longrightarrow>
   ors_tags (ors_merge a b) e = (ors_tags a e \<union> ors_tags b e) - (ors_removed a \<union> ors_removed b)"
  by (simp add: smap_get_or_def [of "{}" "ors_elements (ors_merge a b)"] ors_merge_lookup Let_def
      ors_inv_ok)

lemma ors_inv_merge: "ors_inv a \<Longrightarrow> ors_inv b \<Longrightarrow> ors_inv (ors_merge a b)"
  by (auto simp: ors_inv_iff [of "ors_merge a b"] ors_merge_ok ors_merge_lookup Let_def
      ors_inv_ok split: if_splits)

lemma ors_obs_eqI:
  assumes "ors_inv a" "ors_inv b" "ors_removed a = ors_removed b" "\<And>e. ors_tags a e = ors_tags b e"
  shows "ors_obs a = ors_obs b"
proof -
  have "map_of (ors_elements a) e = map_of (ors_elements b) e" for e
    using assms(1,2) assms(4) [of e]
    by (auto simp: smap_get_or_def ors_inv_iff split: option.splits)
  then have "ors_elements a = ors_elements b"
    using assms(1,2) by (intro smap_eqI) (auto simp: ors_inv_iff)
  with assms(3) show ?thesis by (simp add: ors_obs_def)
qed

interpretation ors: field_lattice ors_inv ors_obs ors_merge
proof unfold_locales
  fix a b c :: "'e::linorder orset"
  assume i: "ors_inv a" "ors_inv b"
  show "ors_inv (ors_merge a b)" using i by (rule ors_inv_merge)
  show "ors_obs (ors_merge a b) = ors_obs (ors_merge b a)"
    using i by (intro ors_obs_eqI) (auto simp: ors_inv_merge ors_merge_tags)
  show "ors_obs (ors_merge a a) = ors_obs a"
    using i ors_inv_tags [of a] by (intro ors_obs_eqI) (auto simp: ors_inv_merge ors_merge_tags)
  assume "ors_inv c"
  with i show "ors_obs (ors_merge (ors_merge a b) c) = ors_obs (ors_merge a (ors_merge b c))"
    by (intro ors_obs_eqI) (auto simp: ors_inv_merge ors_merge_tags)
next
  fix a a' b b' :: "'e::linorder orset"
  assume "ors_inv a" "ors_inv a'" "ors_inv b" "ors_inv b'"
    "ors_obs a = ors_obs a'" "ors_obs b = ors_obs b'"
  then show "ors_obs (ors_merge a b) = ors_obs (ors_merge a' b')"
    by (intro ors_obs_eqI) (auto simp: ors_inv_merge ors_merge_tags ors_obs_def)
qed

lemma ors_inv_new [simp]: "ors_inv (ors_new n)"
  by (simp add: ors_inv_iff ors_new_def)

lemma ors_inv_add:
  "ors_inv s \<Longrightarrow> generate_tag hash (ors_node_id s) (ors_tag_counter s + 1) \<notin> ors_removed s \<Longrightarrow>
   ors_inv (ors_add hash s e)"
  using ors_inv_tags [of s e]
  by (auto simp: ors_inv_iff ors_add_def Let_def split: if_splits)

lemma ors_inv_remove:
  "ors_inv s \<Longrightarrow> \<forall>e'. e' \<noteq> e \<longrightarrow> ors_tags s e' \<inter> ors_tags s e = {} \<Longrightarrow> ors_inv (ors_remove s e)"
  by (fastforce simp: ors_inv_iff ors_remove_def smap_get_or_def split: option.splits if_splits)

section \<open>Convergence\<close>

lemma cd_inv_merge: "cd_inv w a \<Longrightarrow> cd_inv w b \<Longrightarrow> cd_inv w (cd_merge a b)"
  by (simp add: cd_inv_def cd_merge_def pn.fields.inv_mrg ors.fields.inv_mrg lww.fields.inv_mrg)

lemma cd_foldl_fields:
  "cd_counters (foldl cd_merge a xs) = foldl (smap_merge pn_merge) (cd_counters a) (map cd_counters xs)"
  "cd_sets (foldl cd_merge a xs) = foldl (smap_merge ors_merge) (cd_sets a) (map cd_sets xs)"
  "cd_registers (foldl cd_merge a xs) =
     foldl (smap_merge lww_merge) (cd_registers a) (map cd_registers xs)"
  by (induction xs arbitrary: a) (simp_all add: cd_merge_def)

lemma smap_obs_id: "smap_obs id m = map_of m"
  by (simp add: smap_obs_def fun_eq_iff option.map_id)

text \<open>
  C27: two replicas of a document that start from the same state and merge the same set of remote
  states, in any order and any number of times, agree on every counter, every set (elements and
  tombstones) and every register, provided no two writes of a register carry the same timestamp
  and node.
\<close>

theorem cd_merge_converges:
  assumes "cd_inv w a" "\<forall>x \<in> set xs. cd_inv w x" "set xs = set ys"
  shows "map_of (cd_counters (foldl cd_merge a xs)) = map_of (cd_counters (foldl cd_merge a ys)) \<and>
    smap_obs ors_obs (cd_sets (foldl cd_merge a xs)) =
      smap_obs ors_obs (cd_sets (foldl cd_merge a ys)) \<and>
    map_of (cd_registers (foldl cd_merge a xs)) = map_of (cd_registers (foldl cd_merge a ys))"
proof (intro conjI)
  have "smap_obs id (cd_counters (foldl cd_merge a xs)) = smap_obs id (cd_counters (foldl cd_merge a ys))"
    unfolding cd_foldl_fields using assms
    by (intro pn.fields.convergence) (auto simp: cd_inv_def)
  then show "map_of (cd_counters (foldl cd_merge a xs)) = map_of (cd_counters (foldl cd_merge a ys))"
    by (simp only: smap_obs_id)
  show "smap_obs ors_obs (cd_sets (foldl cd_merge a xs)) =
      smap_obs ors_obs (cd_sets (foldl cd_merge a ys))"
    unfolding cd_foldl_fields using assms
    by (intro ors.fields.convergence) (auto simp: cd_inv_def)
  have "smap_obs id (cd_registers (foldl cd_merge a xs)) = smap_obs id (cd_registers (foldl cd_merge a ys))"
    unfolding cd_foldl_fields using assms
    by (intro lww.fields.convergence [of w]) (auto simp: cd_inv_def)
  then show "map_of (cd_registers (foldl cd_merge a xs)) = map_of (cd_registers (foldl cd_merge a ys))"
    by (simp only: smap_obs_id)
qed


definition demo_doc1 :: crdt_doc where
  "demo_doc1 = cd_new\<lparr> cd_counters := [(''hits'', pn_increment pn_new ''a'')],
     cd_sets := [(''tags'', ors_add (\<lambda>_ c. c) (ors_new ''a'') ''x'')],
     cd_registers := [(''t'', lww_with_timestamp (JBool True) ''a'' 1)] \<rparr>"

definition demo_doc2 :: crdt_doc where
  "demo_doc2 = cd_new\<lparr> cd_counters := [(''hits'', pn_decrement pn_new ''b'')],
     cd_registers := [(''t'', lww_with_timestamp (JBool False) ''b'' 2)] \<rparr>"

lemmas demo_doc_defs = demo_doc1_def demo_doc2_def cd_new_def cd_inv_def smap_inv_iff pn_inv_def
  gc_inv_def pn_increment_def pn_decrement_def pn_new_def gc_increment_def gc_new_def ors_inv_iff
  ors_add_def ors_new_def lww_inv_def lww_with_timestamp_def smap_get_or_def generate_tag_def

theorem cd_merge_converges_witness:
  "map_of (cd_registers (foldl cd_merge cd_new [demo_doc1, demo_doc2])) =
   map_of (cd_registers (foldl cd_merge cd_new [demo_doc2, demo_doc1, demo_doc2]))"
proof -
  let ?w = "\<lambda>t n. JBool (n = ''a'')"
  have "cd_inv ?w cd_new" "cd_inv ?w demo_doc1" "cd_inv ?w demo_doc2"
    by (simp_all add: demo_doc_defs)
  then show ?thesis
    using cd_merge_converges [of ?w cd_new "[demo_doc1, demo_doc2]"
        "[demo_doc2, demo_doc1, demo_doc2]"] by auto
qed

lemma ors_remove_elements:
  "smap_ok (ors_elements s) \<Longrightarrow> smap_ok (ors_elements (ors_remove s e))"
  "ors_tags (ors_remove s e) e = {}"
  "ors_removed (ors_remove s e) = ors_removed s \<union> ors_tags s e"
  by (auto simp: ors_remove_def smap_get_or_def split: option.splits)

text \<open>
  observed-remove semantics. After a replica receives the state of another one that removed
  \<open>e\<close>, it still has \<open>e\<close> exactly when it holds a tag of \<open>e\<close> that the remover had neither seen nor
  removed before: a concurrent add wins, and a remove that saw every add is final.
\<close>

theorem ors_observed_remove:
  assumes "ors_inv a" "ors_inv b"
  shows "ors_contains (ors_merge a (ors_remove b e)) e \<longleftrightarrow>
    \<not> ors_tags a e \<subseteq> ors_tags b e \<union> ors_removed b"
  using ors_inv_tags [OF assms(1), of e] assms
  by (auto simp: ors_contains_def ors_merge_lookup ors_inv_ok ors_remove_elements Let_def)

theorem ors_observed_remove_witness:
  "ors_contains (ors_merge (ors_add (\<lambda>_ c. c) (ors_new ''a'') (0::nat)) (ors_remove (ors_new ''b'') 0)) 0"
proof -
  have "ors_inv (ors_add (\<lambda>_ c. c) (ors_new ''a'') (0::nat))" "ors_inv (ors_new ''b'' :: nat orset)"
    by (simp_all add: ors_inv_iff ors_add_def ors_new_def smap_get_or_def)
  from ors_observed_remove [OF this, of 0] show ?thesis
    by (simp add: ors_add_def ors_new_def smap_get_or_def)
qed

lemma regular_step_ok [simp]: "smap_ok m \<Longrightarrow> smap_ok (regular_step m p)"
  by (simp add: regular_step_def split: option.splits)

lemma map_of_regular_fold:
  "smap_ok m \<Longrightarrow> smap_ok n \<Longrightarrow>
   map_of (foldl regular_step m n) k =
     (case map_of n k of
        None \<Rightarrow> map_of m k
      | Some u \<Rightarrow> (case map_of m k of
                    None \<Rightarrow> Some u
                  | Some v \<Rightarrow> Some (if modified_of u > modified_of v then u else v)))"
proof (induction n arbitrary: m)
  case (Cons p n)
  have "map_of n (fst p) = None" using Cons.prems by (intro smap_ok_below) auto
  with Cons.prems show ?case
    by (subst foldl_Cons, subst Cons.IH) (auto simp: regular_step_def split: option.splits)
qed simp

text \<open>
  a regular field that both replicas wrote with the same \<^verbatim>\<open>_modified\<close> stamp (in particular any
  two scalar values, which have none) is not merged: each replica keeps its own value, so the
  replicas stay different after exchanging their states.
\<close>

theorem cd_merge_regular_keeps_own:
  assumes "smap_ok (cd_regular a)" "smap_ok (cd_regular b)"
    and "map_of (cd_regular a) k = Some v" "map_of (cd_regular b) k = Some u"
    and "modified_of u = modified_of v"
  shows "map_of (cd_regular (cd_merge a b)) k = Some v \<and>
    map_of (cd_regular (cd_merge b a)) k = Some u"
  using assms by (simp add: cd_merge_def map_of_regular_fold)

theorem cd_merge_regular_keeps_own_witness:
  "map_of (cd_regular (cd_merge (cd_new\<lparr> cd_regular := [(''n'', JBool True)] \<rparr>)
      (cd_new\<lparr> cd_regular := [(''n'', JBool False)] \<rparr>))) ''n'' = Some (JBool True)"
  using cd_merge_regular_keeps_own [of "cd_new\<lparr> cd_regular := [(''n'', JBool True)] \<rparr>"
      "cd_new\<lparr> cd_regular := [(''n'', JBool False)] \<rparr>" "''n''" "JBool True" "JBool False"]
  by (simp add: modified_of_def)

text \<open>
  setting a register keeps its node id, so two replicas that hold copies of one register and
  set it in the same millisecond produce different values with the same stamp, and merging their
  states in either direction leaves them different.
\<close>

theorem lww_set_same_stamp_diverges:
  assumes "v1 \<noteq> v2"
  shows "lww_merge (lww_set t r v1) (lww_set t r v2) \<noteq> lww_merge (lww_set t r v2) (lww_set t r v1)"
  using assms by (cases r) (simp add: lww_merge_def lww_set_def)

theorem lww_set_same_stamp_diverges_witness:
  "lww_merge (lww_set 5 (lww_new 1 False ''a'') True) (lww_set 5 (lww_new 1 False ''a'') False) \<noteq>
   lww_merge (lww_set 5 (lww_new 1 False ''a'') False) (lww_set 5 (lww_new 1 False ''a'') True)"
  by (rule lww_set_same_stamp_diverges) simp

end
