(* ===== verification/Hlc.thy ===== *)
theory Hlc
  imports Prelude
begin

text \<open>
  Hybrid logical clocks, \<^verbatim>\<open>src/cluster/hlc.rs\<close>: the timestamp with its order, tick, receive and
  string key, and the generator that a node shares between its threads. The wall clock is the
  argument \<open>now\<close>. Counters are machine words and wrap, as in a release build.

  The generator's methods are loops around a compare-and-swap. \<open>gen_now\<close> and \<open>gen_receive\<close> are the
  methods run without interference; \<open>gen_step\<close> is the small-step semantics of several threads
  inside \<open>now\<close>, one atomic access per step.
\<close>

section \<open>Timestamps\<close>

datatype ordering = Less | Equal | Greater

definition cmp :: "'a::linorder \<Rightarrow> 'a \<Rightarrow> ordering" where
  "cmp a b = (if a < b then Less else if a = b then Equal else Greater)"

datatype hlc = Hlc (physical_time: u64) (logical_counter: u32) (node_id: string)

definition hlc_tick :: "u64 \<Rightarrow> hlc \<Rightarrow> string \<Rightarrow> hlc" where
  "hlc_tick now h n =
     (if now > physical_time h then Hlc now 0 n
      else Hlc (physical_time h) (logical_counter h + 1) n)"

definition hlc_receive :: "u64 \<Rightarrow> hlc \<Rightarrow> hlc \<Rightarrow> string \<Rightarrow> hlc" where
  "hlc_receive now self other n =
     (if now > physical_time self \<and> now > physical_time other then Hlc now 0 n
      else if physical_time self > physical_time other then
        (if now \<ge> physical_time self then Hlc now 0 n
         else Hlc (physical_time self) (logical_counter self + 1) n)
      else if physical_time other > physical_time self then
        Hlc (physical_time other) (logical_counter other + 1) n
      else
        Hlc (physical_time self) (max (logical_counter self) (logical_counter other) + 1) n)"

definition hlc_compare :: "hlc \<Rightarrow> hlc \<Rightarrow> ordering" where
  "hlc_compare self other =
     (case cmp (physical_time self) (physical_time other) of
        Equal \<Rightarrow>
          (case cmp (logical_counter self) (logical_counter other) of
             Equal \<Rightarrow> cmp (node_id self) (node_id other)
           | r \<Rightarrow> r)
      | r \<Rightarrow> r)"

definition is_newer_than :: "hlc \<Rightarrow> hlc \<Rightarrow> bool" where
  "is_newer_than self other \<longleftrightarrow> hlc_compare self other = Greater"

definition to_string_key :: "hlc \<Rightarrow> string" where
  "to_string_key h =
     hex_fixed 16 (unat (physical_time h)) @ ''-'' @ hex_fixed 8 (unat (logical_counter h)) @ ''-''
       @ node_id h"

text \<open>\<^verbatim>\<open>str::splitn\<close>: at most \<open>n\<close> parts, the last one unsplit.\<close>

fun splitn :: "nat \<Rightarrow> char \<Rightarrow> string \<Rightarrow> string list" where
  "splitn 0 c s = []"
| "splitn (Suc 0) c s = [s]"
| "splitn (Suc (Suc n)) c s =
     (if c \<in> set s then before c s # splitn (Suc n) c (after c s) else [s])"

definition from_string_key :: "string \<Rightarrow> hlc option" where
  "from_string_key s =
     (case splitn 3 (CHR ''-'') s of
        [p0, p1, p2] \<Rightarrow>
          (case from_str_radix16 64 p0 of
             None \<Rightarrow> None
           | Some pt \<Rightarrow>
               (case from_str_radix16 32 p1 of
                  None \<Rightarrow> None
                | Some lc \<Rightarrow> Some (Hlc (of_nat pt) (of_nat lc) p2)))
      | _ \<Rightarrow> None)"

text \<open>\<^verbatim>\<open>impl Ord\<close>: the order of the type is \<^verbatim>\<open>compare\<close>.\<close>

instantiation hlc :: linorder
begin

definition less_hlc :: "hlc \<Rightarrow> hlc \<Rightarrow> bool" where
  "less_hlc a b \<longleftrightarrow> hlc_compare a b = Less"

definition less_eq_hlc :: "hlc \<Rightarrow> hlc \<Rightarrow> bool" where
  "less_eq_hlc a b \<longleftrightarrow> hlc_compare a b \<noteq> Greater"

instance
proof
  fix x y z :: hlc
  show "x < y \<longleftrightarrow> x \<le> y \<and> \<not> y \<le> x" "x \<le> x" "x \<le> y \<Longrightarrow> y \<le> x \<Longrightarrow> x = y" "x \<le> y \<or> y \<le> x"
    by (cases x; cases y; auto simp: less_hlc_def less_eq_hlc_def hlc_compare_def cmp_def
        split: ordering.splits if_splits)+
  show "x \<le> y \<Longrightarrow> y \<le> z \<Longrightarrow> x \<le> z"
    by (cases x; cases y; cases z; auto simp: less_eq_hlc_def hlc_compare_def cmp_def
        split: ordering.splits if_splits)
qed

end

section \<open>The generator\<close>

record hlc_gen =
  gen_node_id :: string
  last_physical :: u64
  last_logical :: u64

definition gen_new :: "string \<Rightarrow> hlc_gen" where
  "gen_new n = \<lparr> gen_node_id = n, last_physical = 0, last_logical = 0 \<rparr>"

text \<open>What one iteration computes from the two loads.\<close>

definition now_next :: "u64 \<Rightarrow> u64 \<Rightarrow> u64 \<Rightarrow> u64 \<times> u64" where
  "now_next now last_phys last_log =
     (if now > last_phys then (now, 0) else (last_phys, last_log + 1))"

definition receive_next :: "u64 \<Rightarrow> hlc \<Rightarrow> u64 \<Rightarrow> u64 \<Rightarrow> u64 \<times> u64" where
  "receive_next now remote last_phys last_log =
     (if now > last_phys \<and> now > physical_time remote then (now, 0)
      else if last_phys > physical_time remote then
        (if now \<ge> last_phys then (now, 0) else (last_phys, last_log + 1))
      else if physical_time remote > last_phys then
        (physical_time remote, ucast (logical_counter remote) + 1)
      else (last_phys, max last_log (ucast (logical_counter remote)) + 1))"

definition gen_finish :: "hlc_gen \<Rightarrow> u64 \<times> u64 \<Rightarrow> hlc \<times> hlc_gen" where
  "gen_finish g r =
     (Hlc (fst r) (ucast (snd r)) (gen_node_id g),
      g\<lparr> last_physical := fst r, last_logical := snd r \<rparr>)"

definition gen_now :: "u64 \<Rightarrow> hlc_gen \<Rightarrow> hlc \<times> hlc_gen" where
  "gen_now now g = gen_finish g (now_next now (last_physical g) (last_logical g))"

definition gen_receive :: "u64 \<Rightarrow> hlc \<Rightarrow> hlc_gen \<Rightarrow> hlc \<times> hlc_gen" where
  "gen_receive now remote g =
     gen_finish g (receive_next now remote (last_physical g) (last_logical g))"

text \<open>
  Threads inside \<^verbatim>\<open>now()\<close>. A thread has read the clock (\<open>Start\<close>), the first counter
  (\<open>LoadedPhys\<close>), both (\<open>LoadedBoth\<close>), has swapped the first counter (\<open>Swapped\<close>), or has returned
  a timestamp (\<open>Returned\<close>). A failed swap goes back to the loads.
\<close>

datatype thread =
    Idle
  | Start u64
  | LoadedPhys u64 u64
  | LoadedBoth u64 u64 u64
  | Swapped u64 u64
  | Returned hlc

record gen_state =
  gs_gen :: hlc_gen
  gs_threads :: "nat \<Rightarrow> thread"

inductive gen_step :: "gen_state \<Rightarrow> gen_state \<Rightarrow> bool" where
  call: "gs_threads s t = Idle \<Longrightarrow>
    gen_step s (s\<lparr> gs_threads := (gs_threads s)(t := Start now) \<rparr>)"
| load_physical: "gs_threads s t = Start now \<Longrightarrow>
    gen_step s (s\<lparr> gs_threads := (gs_threads s)(t := LoadedPhys now (last_physical (gs_gen s))) \<rparr>)"
| load_logical: "gs_threads s t = LoadedPhys now p \<Longrightarrow>
    gen_step s (s\<lparr> gs_threads := (gs_threads s)(t := LoadedBoth now p (last_logical (gs_gen s))) \<rparr>)"
| swap_ok: "gs_threads s t = LoadedBoth now p l \<Longrightarrow> last_physical (gs_gen s) = p \<Longrightarrow>
    now_next now p l = (p', l') \<Longrightarrow>
    gen_step s (s\<lparr> gs_gen := (gs_gen s)\<lparr> last_physical := p' \<rparr>,
                   gs_threads := (gs_threads s)(t := Swapped p' l') \<rparr>)"
| swap_fail: "gs_threads s t = LoadedBoth now p l \<Longrightarrow> last_physical (gs_gen s) \<noteq> p \<Longrightarrow>
    gen_step s (s\<lparr> gs_threads := (gs_threads s)(t := Start now) \<rparr>)"
| store_logical: "gs_threads s t = Swapped p l \<Longrightarrow>
    gen_step s (s\<lparr> gs_gen := (gs_gen s)\<lparr> last_logical := l \<rparr>,
                   gs_threads := (gs_threads s)(t := Returned (Hlc p (ucast l) (gen_node_id (gs_gen s)))) \<rparr>)"

text \<open>The step that thread \<open>t\<close> takes next when the clock shows \<open>now\<close>; a returned thread stays.\<close>

definition gen_sched :: "u64 \<Rightarrow> gen_state \<Rightarrow> nat \<Rightarrow> gen_state" where
  "gen_sched now s t =
     (case gs_threads s t of
        Idle \<Rightarrow> s\<lparr> gs_threads := (gs_threads s)(t := Start now) \<rparr>
      | Start n \<Rightarrow>
          s\<lparr> gs_threads := (gs_threads s)(t := LoadedPhys n (last_physical (gs_gen s))) \<rparr>
      | LoadedPhys n p \<Rightarrow>
          s\<lparr> gs_threads := (gs_threads s)(t := LoadedBoth n p (last_logical (gs_gen s))) \<rparr>
      | LoadedBoth n p l \<Rightarrow>
          (if last_physical (gs_gen s) = p
           then s\<lparr> gs_gen := (gs_gen s)\<lparr> last_physical := fst (now_next n p l) \<rparr>,
                  gs_threads := (gs_threads s)
                    (t := Swapped (fst (now_next n p l)) (snd (now_next n p l))) \<rparr>
           else s\<lparr> gs_threads := (gs_threads s)(t := Start n) \<rparr>)
      | Swapped p l \<Rightarrow>
          s\<lparr> gs_gen := (gs_gen s)\<lparr> last_logical := l \<rparr>,
             gs_threads := (gs_threads s)
               (t := Returned (Hlc p (ucast l) (gen_node_id (gs_gen s)))) \<rparr>
      | Returned h \<Rightarrow> s)"

definition gen_init :: "string \<Rightarrow> gen_state" where
  "gen_init n = \<lparr> gs_gen = gen_new n, gs_threads = (\<lambda>_. Idle) \<rparr>"

section \<open>Order and string keys\<close>

lemmas hlc_order_defs = less_hlc_def less_eq_hlc_def hlc_compare_def cmp_def

lemma less_hlc_iff:
  "a < b \<longleftrightarrow> physical_time a < physical_time b \<or>
     physical_time a = physical_time b \<and>
       (logical_counter a < logical_counter b \<or>
        logical_counter a = logical_counter b \<and> node_id a < node_id b)"
  by (auto simp: hlc_order_defs split: ordering.splits if_splits)

lemma is_newer_than_less: "is_newer_than a b \<longleftrightarrow> b < a"
  by (cases a; cases b) (auto simp: is_newer_than_def less_hlc_def hlc_compare_def cmp_def
      split: ordering.splits if_splits)

lemma unat_u32_lt: "unat (n :: u32) < 2 ^ 32"
  using unsigned_less [of n] by simp

lemma unat_u64_lt_16: "unat (n :: u64) < 16 ^ 16"
  using unat_u64_lt [of n] by simp

lemma unat_u32_lt_8: "unat (n :: u32) < 16 ^ 8"
  using unat_u32_lt [of n] by simp

lemma parse_hex_u64 [simp]: "from_str_radix16 64 (hex_fixed 16 (unat (n :: u64))) = Some (unat n)"
  by (rule from_str_radix16_hex_fixed) (simp_all only: unat_u64_lt unat_u64_lt_16)

lemma parse_hex_u32 [simp]: "from_str_radix16 32 (hex_fixed 8 (unat (n :: u32))) = Some (unat n)"
  by (rule from_str_radix16_hex_fixed) (simp_all only: unat_u32_lt unat_u32_lt_8)

lemma splitn_3:
  "c \<notin> set a \<Longrightarrow> c \<notin> set b \<Longrightarrow> splitn 3 c (a @ c # b @ c # r) = [a, b, r]"
  by (simp add: numeral_3_eq_3)

text \<open>
  string keys are faithful and sortable: parsing a key gives the clock back, and the byte order
  of the keys is the order of the clocks, node id included.
\<close>

theorem string_key_sortable:
  "from_string_key (to_string_key a) = Some a \<and> (to_string_key a < to_string_key b \<longleftrightarrow> a < b)"
proof
  show "from_string_key (to_string_key a) = Some a"
    by (simp add: from_string_key_def to_string_key_def splitn_3)
  have lt: "to_string_key a < to_string_key b" if "a < b" for a b
  proof (cases "physical_time a < physical_time b")
    case True
    then show ?thesis
      unfolding to_string_key_def
      by (intro lt_at_less lt_at_append hex_fixed_lt_at) (simp_all only: word_less_nat_alt unat_u64_lt_16)
  next
    case False
    then have eq: "physical_time a = physical_time b" using that by (auto simp: less_hlc_iff)
    show ?thesis
    proof (cases "logical_counter a < logical_counter b")
      case True
      then have "lt_at (hex_fixed 8 (unat (logical_counter a)) @ ''-'' @ node_id a)
          (hex_fixed 8 (unat (logical_counter b)) @ ''-'' @ node_id b)"
        by (intro lt_at_append hex_fixed_lt_at) (simp_all only: word_less_nat_alt unat_u32_lt_8)
      then show ?thesis unfolding to_string_key_def eq by (intro lt_at_less) simp
    next
      case False
      then show ?thesis using that eq by (auto simp: less_hlc_iff to_string_key_def)
    qed
  qed
  show "to_string_key a < to_string_key b \<longleftrightarrow> a < b"
    using lt [of a b] lt [of b a] by (cases a b rule: linorder_cases) auto
qed


section \<open>Progress of the clock\<close>

text \<open>
  a tick is newer than the clock it starts from and not behind the wall clock, as long as the
  logical counter is not at its maximum.
\<close>

theorem hlc_tick_newer:
  assumes "logical_counter h \<noteq> - 1"
  shows "is_newer_than (hlc_tick now h n) h \<and> now \<le> physical_time (hlc_tick now h n)"
  using assms word_less_plus_1 [of "logical_counter h"]
  by (auto simp: is_newer_than_less less_hlc_iff hlc_tick_def)

theorem hlc_tick_newer_witness:
  "is_newer_than (hlc_tick 5 (Hlc 7 3 ''a'') ''a'') (Hlc 7 3 ''a'')"
  using hlc_tick_newer [of "Hlc 7 3 ''a''" 5 "''a''"] by simp

text \<open>
  the result of a receive is newer than both clocks and not behind the wall clock, unless the
  remote clock is behind and the wall clock shows exactly the local physical time.
\<close>

theorem hlc_receive_newer:
  assumes "logical_counter self \<noteq> - 1" "logical_counter other \<noteq> - 1"
    and "\<not> (now = physical_time self \<and> physical_time other < physical_time self)"
  shows "is_newer_than (hlc_receive now self other n) self \<and>
    is_newer_than (hlc_receive now self other n) other \<and>
    now \<le> physical_time (hlc_receive now self other n)"
proof -
  let ?m = "max (logical_counter self) (logical_counter other)"
  have "?m \<noteq> - 1" using assms(1,2) by (simp add: max_def)
  then have "?m < ?m + 1" by (rule word_less_plus_1)
  then have "logical_counter self < ?m + 1" "logical_counter other < ?m + 1"
    by (meson max.cobounded1 max.cobounded2 le_less_trans)+
  then show ?thesis
    using assms word_less_plus_1 [OF assms(1)] word_less_plus_1 [OF assms(2)]
    by (auto simp: is_newer_than_less less_hlc_iff hlc_receive_def)
qed

theorem hlc_receive_newer_witness:
  "is_newer_than (hlc_receive 5 (Hlc 7 3 ''a'') (Hlc 7 4 ''b'') ''a'') (Hlc 7 4 ''b'')"
  using hlc_receive_newer [of "Hlc 7 3 ''a''" "Hlc 7 4 ''b''" 5 "''a''"] by simp

text \<open>
  in the remaining case the counter restarts at zero at the same physical time, so the result
  is older than the local clock it was computed from whenever that clock had a counter.
\<close>

theorem hlc_receive_goes_back:
  assumes "physical_time other < physical_time self" "logical_counter self \<noteq> 0"
  shows "hlc_receive (physical_time self) self other n < self"
  using assms by (auto simp: less_hlc_iff hlc_receive_def word_gt_0)

theorem hlc_receive_goes_back_witness:
  "hlc_receive 7 (Hlc 7 3 ''a'') (Hlc 6 0 ''b'') ''a'' < Hlc 7 3 ''a''"
  using hlc_receive_goes_back [of "Hlc 6 0 ''b''" "Hlc 7 3 ''a''" "''a''"] by simp

section \<open>The generator, one caller\<close>

fun gen_run :: "hlc_gen \<Rightarrow> u64 list \<Rightarrow> hlc list" where
  "gen_run g [] = []"
| "gen_run g (now # nows) = (let r = gen_now now g in fst r # gen_run (snd r) nows)"

definition gen_last :: "hlc_gen \<Rightarrow> hlc" where
  "gen_last g = Hlc (last_physical g) (ucast (last_logical g)) (gen_node_id g)"

lemma unat_ucast_u32: "unat l < 2 ^ 32 \<Longrightarrow> unat (ucast (l :: u64) :: u32) = unat l"
  by (simp add: unsigned_ucast_eq unsigned_take_bit_eq take_bit_nat_eq_self)

lemma gen_now_step:
  assumes "unat (last_logical g) + 1 < 2 ^ 32"
  shows "fst (gen_now now g) = gen_last (snd (gen_now now g)) \<and> gen_last g < fst (gen_now now g) \<and>
    unat (last_logical (snd (gen_now now g))) \<le> unat (last_logical g) + 1"
proof -
  have u: "unat (last_logical g + 1) = unat (last_logical g) + 1"
    using assms by (simp add: unat_word_ariths)
  then have "unat (ucast (last_logical g) :: u32) < unat (ucast (last_logical g + 1) :: u32)"
    using assms by (subst (1 2) unat_ucast_u32) auto
  then have "(ucast (last_logical g) :: u32) < ucast (last_logical g + 1)"
    by (simp add: word_less_nat_alt)
  with u show ?thesis
    by (auto simp: gen_now_def gen_finish_def gen_last_def now_next_def less_hlc_iff)
qed

lemma gen_run_sorted:
  "unat (last_logical g) + length nows < 2 ^ 32 \<Longrightarrow>
   sorted_wrt (<) (gen_last g # gen_run g nows)"
proof (induction nows arbitrary: g)
  case (Cons now nows)
  let ?r = "gen_now now g"
  have st: "fst ?r = gen_last (snd ?r)" "gen_last g < fst ?r"
    "unat (last_logical (snd ?r)) \<le> unat (last_logical g) + 1"
    using gen_now_step [of g now] Cons.prems by auto
  have "sorted_wrt (<) (gen_last (snd ?r) # gen_run (snd ?r) nows)"
    using Cons.prems st(3) by (intro Cons.IH) simp
  with st show ?case by (auto simp: Let_def intro: less_trans)
qed simp

text \<open>
  without interference the generator hands out strictly increasing timestamps, whatever the
  wall clock shows (it may stand still or go back), for up to \<open>2\<^sup>3\<^sup>2\<close> calls.
\<close>

theorem gen_now_increasing:
  assumes "length nows < 2 ^ 32"
  shows "sorted_wrt (<) (gen_run (gen_new n) nows)"
  using gen_run_sorted [of "gen_new n" nows] assms by (simp add: gen_new_def)

theorem gen_now_increasing_witness:
  "sorted_wrt (<) (gen_run (gen_new ''a'') [5, 5, 3, 9])"
  by (rule gen_now_increasing) simp

section \<open>The generator, several threads\<close>

lemma gen_sched_step: "(\<exists>h. gs_threads s t = Returned h) \<or> gen_step s (gen_sched now s t)"
  by (cases "gs_threads s t")
    (auto simp: gen_sched_def intro: gen_step.intros)

lemma gen_sched_reach: "gen_step\<^sup>*\<^sup>* s (gen_sched now s t)"
  using gen_sched_step [of s t now] by (cases "gs_threads s t") (auto simp: gen_sched_def)

lemma gen_sched_foldl: "gen_step\<^sup>*\<^sup>* s (foldl (gen_sched now) s ts)"
  by (induction ts rule: rev_induct) (auto intro: rtranclp_trans gen_sched_reach)

text \<open>
  the compare-and-swap protects only the physical part. Once a timestamp was issued for the
  current millisecond, two threads can both read it, both swap the physical part for itself, and
  both return the same timestamp.
\<close>

theorem gen_now_duplicates:
  assumes "0 < now"
  shows "\<exists>s. gen_step\<^sup>*\<^sup>* (gen_init n) s \<and>
    gs_threads s 1 = Returned (Hlc now 1 n) \<and> gs_threads s 2 = Returned (Hlc now 1 n)"
proof (intro exI conjI)
  let ?s = "foldl (gen_sched now) (gen_init n) ([0, 0, 0, 0, 0] @ [1, 1, 1] @ [2, 2, 2, 2, 2] @ [1, 1])"
  show "gen_step\<^sup>*\<^sup>* (gen_init n) ?s" by (rule gen_sched_foldl)
  show "gs_threads ?s 1 = Returned (Hlc now 1 n)" "gs_threads ?s 2 = Returned (Hlc now 1 n)"
    using assms by (simp_all add: gen_init_def gen_new_def gen_sched_def now_next_def)
qed

theorem gen_now_duplicates_witness:
  "\<exists>s. gen_step\<^sup>*\<^sup>* (gen_init ''a'') s \<and>
    gs_threads s 1 = Returned (Hlc 1000 1 ''a'') \<and> gs_threads s 2 = Returned (Hlc 1000 1 ''a'')"
  using gen_now_duplicates [of 1000 "''a''"] by simp

end
