(* ===== verification/VersionVector.thy ===== *)
theory VersionVector
  imports Lattice Json
begin

text \<open>
  Version vectors, \<^verbatim>\<open>src/sync/version_vector.rs\<close>: the counters per node with the clock used for
  tie-breaking, the comparison and the merge. The specification is the pointwise order on the
  counts, where a node that is not listed counts zero: \<open>vv_dominates\<close> decides it, \<open>vv_compare\<close>
  classifies two vectors by it and \<open>vv_merge\<close> computes least upper bounds.
\<close>

section \<open>Vectors\<close>

record version_vector =
  vv_versions :: "(string, u64) smap"
  vv_hlc_timestamp :: u64
  vv_hlc_counter :: u32

datatype vector_comparison = VEqual | VDominates | VDominated | VConcurrent

definition vv_new :: version_vector where
  "vv_new = \<lparr> vv_versions = [], vv_hlc_timestamp = 0, vv_hlc_counter = 0 \<rparr>"

definition vv_with_node :: "string \<Rightarrow> u64 \<Rightarrow> version_vector" where
  "vv_with_node n c = \<lparr> vv_versions = smap_put n c [], vv_hlc_timestamp = 0, vv_hlc_counter = 0 \<rparr>"

definition vv_get :: "version_vector \<Rightarrow> string \<Rightarrow> u64" where
  "vv_get v n = smap_get_or 0 (vv_versions v) n"

text \<open>\<^verbatim>\<open>increment\<close> returns the new count with the changed vector.\<close>

definition vv_increment :: "version_vector \<Rightarrow> string \<Rightarrow> u64 \<times> version_vector" where
  "vv_increment v n =
     (let c = vv_get v n + 1 in (c, v\<lparr> vv_versions := smap_put n c (vv_versions v) \<rparr>))"

definition vv_set_hlc :: "version_vector \<Rightarrow> u64 \<Rightarrow> u32 \<Rightarrow> version_vector" where
  "vv_set_hlc v ts c = v\<lparr> vv_hlc_timestamp := ts, vv_hlc_counter := c \<rparr>"

definition vv_dominates :: "version_vector \<Rightarrow> version_vector \<Rightarrow> bool" where
  "vv_dominates self other \<longleftrightarrow>
     list_all (\<lambda>p. \<not> vv_get self (fst p) < snd p) (vv_versions other)"

definition vv_is_dominated_by :: "version_vector \<Rightarrow> version_vector \<Rightarrow> bool" where
  "vv_is_dominated_by self other = vv_dominates other self"

definition vv_compare :: "version_vector \<Rightarrow> version_vector \<Rightarrow> vector_comparison" where
  "vv_compare self other =
     (case (vv_dominates self other, vv_dominates other self) of
        (True, True) \<Rightarrow> VEqual
      | (True, False) \<Rightarrow> VDominates
      | (False, True) \<Rightarrow> VDominated
      | (False, False) \<Rightarrow> VConcurrent)"

definition vv_merge :: "version_vector \<Rightarrow> version_vector \<Rightarrow> version_vector" where
  "vv_merge self other =
     (let v = self\<lparr> vv_versions := counts_merge (vv_versions self) (vv_versions other) \<rparr>
      in if vv_hlc_timestamp other > vv_hlc_timestamp v then
           v\<lparr> vv_hlc_timestamp := vv_hlc_timestamp other, vv_hlc_counter := vv_hlc_counter other \<rparr>
         else if vv_hlc_timestamp other = vv_hlc_timestamp v \<and>
                 vv_hlc_counter other > vv_hlc_counter v then
           v\<lparr> vv_hlc_counter := vv_hlc_counter other \<rparr>
         else v)"

definition vv_is_empty :: "version_vector \<Rightarrow> bool" where
  "vv_is_empty v \<longleftrightarrow> vv_versions v = []"

text \<open>\<^verbatim>\<open>PartialEq\<close>: the listed counts, without the clock.\<close>

definition vv_eq :: "version_vector \<Rightarrow> version_vector \<Rightarrow> bool" where
  "vv_eq a b \<longleftrightarrow> vv_versions a = vv_versions b"

definition vc_is_conflict :: "vector_comparison \<Rightarrow> bool" where
  "vc_is_conflict c \<longleftrightarrow> c = VConcurrent"

definition vc_self_wins :: "vector_comparison \<Rightarrow> bool" where
  "vc_self_wins c \<longleftrightarrow> c = VDominates \<or> c = VEqual"

record conflict_info =
  ci_document_key :: string
  ci_collection :: string
  ci_local_vector :: version_vector
  ci_remote_vector :: version_vector
  ci_local_data :: "json option"
  ci_remote_data :: "json option"
  ci_detected_at :: u64

section \<open>The pointwise order\<close>

definition vv_inv :: "version_vector \<Rightarrow> bool" where
  "vv_inv v \<longleftrightarrow> smap_ok (vv_versions v)"

definition vv_le :: "version_vector \<Rightarrow> version_vector \<Rightarrow> bool" where
  "vv_le a b \<longleftrightarrow> (\<forall>n. vv_get a n \<le> vv_get b n)"

lemma vv_inv_ops [simp]:
  "vv_inv vv_new" "vv_inv (vv_with_node n c)" "vv_inv v \<Longrightarrow> vv_inv (snd (vv_increment v n))"
  "vv_inv (vv_set_hlc v ts h) \<longleftrightarrow> vv_inv v"
  by (simp_all add: vv_inv_def vv_new_def vv_with_node_def vv_increment_def vv_set_hlc_def Let_def)

lemma vv_dominates_iff:
  assumes "vv_inv b"
  shows "vv_dominates a b \<longleftrightarrow> vv_le b a"
proof
  assume d: "vv_dominates a b"
  show "vv_le b a"
    unfolding vv_le_def
  proof
    fix n
    show "vv_get b n \<le> vv_get a n"
      using d assms smap_in_iff [of "vv_versions b" n]
      by (cases "map_of (vv_versions b) n")
        (force simp: vv_dominates_def list_all_iff vv_get_def [of b] smap_get_or_def vv_inv_def
          not_less)+
  qed
next
  assume le: "vv_le b a"
  have "snd p \<le> vv_get a (fst p)" if "p \<in> set (vv_versions b)" for p
    using le [unfolded vv_le_def, rule_format, of "fst p"] that assms
      smap_in_iff [of "vv_versions b" "fst p" "snd p"]
    by (simp add: vv_get_def [of b] smap_get_or_def vv_inv_def)
  then show "vv_dominates a b" by (auto simp: vv_dominates_def list_all_iff not_less)
qed

lemma vv_merge_versions [simp]:
  "vv_versions (vv_merge a b) = counts_merge (vv_versions a) (vv_versions b)"
  by (simp add: vv_merge_def Let_def)

lemma vv_get_merge:
  "vv_inv a \<Longrightarrow> vv_inv b \<Longrightarrow> vv_get (vv_merge a b) n = max (vv_get a n) (vv_get b n)"
  by (simp add: vv_get_def vv_inv_def counts_merge_get)

abbreviation vv_hlc :: "version_vector \<Rightarrow> u64 \<times> u32" where
  "vv_hlc v \<equiv> (vv_hlc_timestamp v, vv_hlc_counter v)"

definition hlc_later :: "u64 \<times> u32 \<Rightarrow> u64 \<times> u32 \<Rightarrow> u64 \<times> u32" where
  "hlc_later p q = (if fst p < fst q \<or> fst p = fst q \<and> snd p < snd q then q else p)"

lemma hlc_later_laws:
  "hlc_later p q = hlc_later q p" "hlc_later p p = p"
  "hlc_later (hlc_later p q) r = hlc_later p (hlc_later q r)"
  by (cases p; cases q; cases r; auto simp: hlc_later_def)+

lemma vv_hlc_merge: "vv_hlc (vv_merge a b) = hlc_later (vv_hlc a) (vv_hlc b)"
  by (auto simp: vv_merge_def Let_def hlc_later_def)

lemma vv_inv_merge: "vv_inv a \<Longrightarrow> vv_inv b \<Longrightarrow> vv_inv (vv_merge a b)"
  by (simp add: vv_inv_def counts_merge_max)

definition vv_obs :: "version_vector \<Rightarrow> (string \<Rightarrow> u64 option) \<times> u64 \<times> u32" where
  "vv_obs v = (map_of (vv_versions v), vv_hlc_timestamp v, vv_hlc_counter v)"

lemma vv_obs_eq_iff:
  "vv_obs a = vv_obs b \<longleftrightarrow> map_of (vv_versions a) = map_of (vv_versions b) \<and>
    vv_hlc a = vv_hlc b"
  by (auto simp: vv_obs_def)

interpretation vv: merge_lattice vv_inv vv_obs vv_merge
proof unfold_locales
  fix a b c :: version_vector
  assume i: "vv_inv a" "vv_inv b"
  show "vv_inv (vv_merge a b)" using i by (rule vv_inv_merge)
  show "vv_obs (vv_merge a b) = vv_obs (vv_merge b a)"
    unfolding vv_obs_eq_iff vv_hlc_merge using i hlc_later_laws(1)
    by (auto simp: vv_inv_def counts_merge_max map_of_smap_merge fun_eq_iff max.commute
        split: option.splits)
  show "vv_obs (vv_merge a a) = vv_obs a"
    unfolding vv_obs_eq_iff vv_hlc_merge hlc_later_laws(2) using i
    by (auto simp: vv_inv_def counts_merge_max map_of_smap_merge fun_eq_iff split: option.splits)
  assume "vv_inv c"
  with i have "map_of (vv_versions (vv_merge (vv_merge a b) c)) =
      map_of (vv_versions (vv_merge a (vv_merge b c)))"
    by (auto simp: vv_inv_def counts_merge_max map_of_smap_merge fun_eq_iff max.assoc
        split: option.splits)
  then show "vv_obs (vv_merge (vv_merge a b) c) = vv_obs (vv_merge a (vv_merge b c))"
    unfolding vv_obs_eq_iff vv_hlc_merge hlc_later_laws(3) by simp
next
  fix a a' b b'
  assume "vv_inv a" "vv_inv a'" "vv_inv b" "vv_inv b'" "vv_obs a = vv_obs a'" "vv_obs b = vv_obs b'"
  then show "vv_obs (vv_merge a b) = vv_obs (vv_merge a' b')"
    unfolding vv_obs_eq_iff vv_hlc_merge
    by (auto simp: vv_inv_def counts_merge_max map_of_smap_merge fun_eq_iff split: option.splits)
qed

section \<open>Properties\<close>

text \<open>
  the comparison classifies two vectors by the pointwise order on their counts, where a node
  that is not listed counts zero: equal, strictly above, strictly below, or incomparable.
\<close>

theorem vv_compare_correct:
  assumes "vv_inv a" "vv_inv b"
  shows "vv_compare a b =
    (if vv_le a b \<and> vv_le b a then VEqual
     else if vv_le b a then VDominates
     else if vv_le a b then VDominated
     else VConcurrent)"
  using assms by (simp add: vv_compare_def vv_dominates_iff)

theorem vv_compare_correct_witness:
  "vv_compare (vv_with_node ''a'' 1) (vv_with_node ''b'' 1) = VConcurrent"
proof -
  have "\<not> vv_le (vv_with_node ''a'' 1) (vv_with_node ''b'' 1)"
    "\<not> vv_le (vv_with_node ''b'' 1) (vv_with_node ''a'' 1)"
    by (auto simp: vv_le_def vv_get_def vv_with_node_def smap_get_or_def)
  then show ?thesis using vv_compare_correct [of "vv_with_node ''a'' 1" "vv_with_node ''b'' 1"] by simp
qed

text \<open>
  the merge of two vectors is their least upper bound in the pointwise order, and its clock is
  the later of the two clocks.
\<close>

theorem vv_merge_lub:
  assumes "vv_inv a" "vv_inv b"
  shows "vv_dominates (vv_merge a b) a \<and> vv_dominates (vv_merge a b) b \<and>
    (\<forall>c. vv_dominates c a \<and> vv_dominates c b \<longrightarrow> vv_dominates c (vv_merge a b)) \<and>
    vv_hlc (vv_merge a b) = hlc_later (vv_hlc a) (vv_hlc b)"
  unfolding vv_hlc_merge using assms vv_inv_merge [OF assms]
  by (auto simp: vv_dominates_iff vv_le_def vv_get_merge)

theorem vv_merge_lub_witness:
  "vv_dominates (vv_merge (vv_with_node ''a'' 1) (vv_with_node ''b'' 2)) (vv_with_node ''b'' 2)"
  using vv_merge_lub [of "vv_with_node ''a'' 1" "vv_with_node ''b'' 2"] by simp

text \<open>
  a local write is a strictly newer version: incrementing a node that is not at the maximum
  gives a vector that dominates the old one and is not dominated by it, and a write on another
  node of the same base is concurrent with it.
\<close>

theorem vv_increment_dominates:
  assumes "vv_inv v" "vv_get v n \<noteq> - 1" "vv_get v m \<noteq> - 1" "m \<noteq> n"
  shows "vv_compare (snd (vv_increment v n)) v = VDominates \<and>
    vv_compare (snd (vv_increment v n)) (snd (vv_increment v m)) = VConcurrent"
proof -
  let ?a = "snd (vv_increment v n)" and ?b = "snd (vv_increment v m)"
  have get: "vv_get (snd (vv_increment v n)) k = (if k = n then vv_get v n + 1 else vv_get v k)" for n k
    using assms(1) by (simp add: vv_increment_def Let_def vv_inv_def vv_get_def [of "v\<lparr>vv_versions := _\<rparr>"])
      (simp add: vv_get_def)
  have lt: "vv_get v n < vv_get v n + 1" "vv_get v m < vv_get v m + 1"
    using assms(2,3) by (auto intro: word_less_plus_1)
  have "vv_le v ?a"
    using lt(1) by (auto simp: vv_le_def get less_imp_le)
  moreover have "\<not> vv_le ?a v"
    using lt(1) by (auto simp: vv_le_def get not_le intro!: exI [of _ n])
  moreover have "\<not> vv_le ?a ?b"
    using lt(1) assms(4) by (auto simp: vv_le_def get not_le intro!: exI [of _ n])
  moreover have "\<not> vv_le ?b ?a"
    using lt(2) assms(4) by (auto simp: vv_le_def get not_le intro!: exI [of _ m])
  ultimately show ?thesis
    using assms(1) by (simp add: vv_compare_def vv_dominates_iff)
qed

theorem vv_increment_dominates_witness:
  "vv_compare (snd (vv_increment vv_new ''a'')) vv_new = VDominates"
proof -
  have "vv_get vv_new n = 0" for n by (simp add: vv_get_def vv_new_def smap_get_or_def)
  then show ?thesis using vv_increment_dominates [of vv_new "''a''" "''b''"] by simp
qed

end
