(* ===== verification/Conflict.thy ===== *)
theory Conflict
  imports VersionVector "HOL-Library.Product_Lexorder"
begin

text \<open>
  Conflict resolution, \<^verbatim>\<open>src/sync/conflict.rs\<close>: detection by version vectors, the resolvers that
  \<^verbatim>\<open>create_resolver\<close> builds, and the document that a resolution gives. The resolver that runs a
  Lua script is not modelled (the script engine is a library).

  The question for a resolver is whether the two replicas of a conflict, each of which sees the
  other as the remote side, end with the same document. The locale \<open>ranked_resolver\<close> answers it
  once for the resolvers that compare a rank of the two vectors.
\<close>

section \<open>Resolvers\<close>

datatype conflict_resolution =
    LocalWins
  | RemoteWins
  | Merged json
  | KeepBoth json json

datatype strategy = LastWriteWins | Deterministic | AutomaticMerge | Manual | CustomScript

definition last_write_wins :: "conflict_info \<Rightarrow> conflict_resolution" where
  "last_write_wins c =
     (let local_ts = vv_hlc_timestamp (ci_local_vector c);
          remote_ts = vv_hlc_timestamp (ci_remote_vector c)
      in if local_ts > remote_ts then LocalWins
         else if remote_ts > local_ts then RemoteWins
         else if vv_hlc_counter (ci_local_vector c) \<ge> vv_hlc_counter (ci_remote_vector c)
              then LocalWins else RemoteWins)"

text \<open>\<^verbatim>\<open>nodes().max()\<close>, the empty string if there is no node.\<close>

definition max_node :: "version_vector \<Rightarrow> string" where
  "max_node v = (case map fst (vv_versions v) of [] \<Rightarrow> [] | n # ns \<Rightarrow> fold max ns n)"

definition deterministic :: "conflict_info \<Rightarrow> conflict_resolution" where
  "deterministic c =
     (if max_node (ci_local_vector c) \<ge> max_node (ci_remote_vector c) then LocalWins else RemoteWins)"

lemma json_size_field: "p \<in> set m \<Longrightarrow> size (snd p) < size (JObject m)"
  by (induction m) auto

text \<open>Field-by-field merge of two objects; on anything else it gives up.\<close>

function attempt_crdt_merge :: "json \<Rightarrow> json \<Rightarrow> json option" where
  "attempt_crdt_merge local remote =
     (case (local, remote) of
        (JObject local_map, JObject remote_map) \<Rightarrow>
          Some (JObject
            (foldl (\<lambda>merged p.
                case map_of local_map (fst p) of
                  Some local_value \<Rightarrow>
                    (case attempt_crdt_merge local_value (snd p) of
                       Some v \<Rightarrow> smap_put (fst p) v merged
                     | None \<Rightarrow> smap_put (fst p) (snd p) merged)
                | None \<Rightarrow> smap_put (fst p) (snd p) merged)
              (foldl (\<lambda>merged p. smap_put (fst p) (snd p) merged) [] local_map)
              remote_map))
      | _ \<Rightarrow> None)"
  by pat_completeness auto

termination
  by (relation "measure (\<lambda>p. size (snd p))") (auto dest!: json_size_field)

declare attempt_crdt_merge.simps [simp del]

definition automatic_merge :: "conflict_info \<Rightarrow> conflict_resolution" where
  "automatic_merge c =
     (case (ci_local_data c, ci_remote_data c) of
        (Some local, Some remote) \<Rightarrow>
          (case attempt_crdt_merge local remote of
             Some merged \<Rightarrow> Merged merged
           | None \<Rightarrow> last_write_wins c)
      | _ \<Rightarrow> last_write_wins c)"

definition or_null :: "json option \<Rightarrow> json" where
  "or_null v = (case v of Some j \<Rightarrow> j | None \<Rightarrow> JNull)"

definition manual :: "conflict_info \<Rightarrow> conflict_resolution" where
  "manual c = KeepBoth (or_null (ci_local_data c)) (or_null (ci_remote_data c))"

fun create_resolver :: "strategy \<Rightarrow> conflict_info \<Rightarrow> conflict_resolution" where
  "create_resolver LastWriteWins = last_write_wins"
| "create_resolver Deterministic = deterministic"
| "create_resolver AutomaticMerge = automatic_merge"
| "create_resolver Manual = manual"
| "create_resolver CustomScript = manual"

definition detect_conflict :: "version_vector \<Rightarrow> version_vector \<Rightarrow> vector_comparison option" where
  "detect_conflict l r =
     (let comparison = vv_compare l r
      in case comparison of VConcurrent \<Rightarrow> Some comparison | _ \<Rightarrow> None)"

definition resolve_conflict :: "strategy \<Rightarrow> conflict_info \<Rightarrow> conflict_resolution" where
  "resolve_conflict s c = create_resolver s c"

fun apply_resolution ::
    "conflict_resolution \<Rightarrow> json option \<Rightarrow> json option \<Rightarrow> json option" where
  "apply_resolution LocalWins l r = l"
| "apply_resolution RemoteWins l r = r"
| "apply_resolution (Merged m) l r = Some m"
| "apply_resolution (KeepBoth a b) l r =
     Some (JObject [(''_conflict'', JBool True), (''_local'', a), (''_remote'', b)])"

section \<open>Agreement of the replicas\<close>

text \<open>The document that a replica ends with, and the conflict as the other replica sees it.\<close>

definition final_doc :: "(conflict_info \<Rightarrow> conflict_resolution) \<Rightarrow> conflict_info \<Rightarrow> json option" where
  "final_doc res c = apply_resolution (res c) (ci_local_data c) (ci_remote_data c)"

definition mirror :: "conflict_info \<Rightarrow> conflict_info" where
  "mirror c = c\<lparr> ci_local_vector := ci_remote_vector c, ci_remote_vector := ci_local_vector c,
                 ci_local_data := ci_remote_data c, ci_remote_data := ci_local_data c \<rparr>"

lemma mirror_simps [simp]:
  "ci_local_vector (mirror c) = ci_remote_vector c" "ci_remote_vector (mirror c) = ci_local_vector c"
  "ci_local_data (mirror c) = ci_remote_data c" "ci_remote_data (mirror c) = ci_local_data c"
  by (simp_all add: mirror_def)

locale ranked_resolver =
  fixes res :: "conflict_info \<Rightarrow> conflict_resolution" and rank :: "version_vector \<Rightarrow> 'k::linorder"
  assumes by_rank: "res c =
    (if rank (ci_local_vector c) \<ge> rank (ci_remote_vector c) then LocalWins else RemoteWins)"
begin

lemma agreement:
  "rank (ci_local_vector c) \<noteq> rank (ci_remote_vector c) \<Longrightarrow>
   final_doc res c = final_doc res (mirror c)"
  by (auto simp: final_doc_def by_rank not_le)

lemma tie:
  "rank (ci_local_vector c) = rank (ci_remote_vector c) \<Longrightarrow>
   final_doc res c = ci_local_data c \<and> final_doc res (mirror c) = ci_remote_data c"
  by (simp add: final_doc_def by_rank)

end


interpretation detr: ranked_resolver "resolve_conflict Deterministic" max_node
  by unfold_locales (simp add: resolve_conflict_def deterministic_def)


definition demo_conflict :: "version_vector \<Rightarrow> version_vector \<Rightarrow> conflict_info" where
  "demo_conflict l r = \<lparr> ci_document_key = ''k'', ci_collection = ''c'', ci_local_vector = l,
     ci_remote_vector = r, ci_local_data = Some (JObject [(''x'', JBool True)]),
     ci_remote_data = Some (JObject [(''x'', JBool False)]), ci_detected_at = 0 \<rparr>"


text \<open>
  when the greatest node ids are equal, which concurrent vectors can have, the deterministic
  strategy lets each replica keep its own document, so the replicas do not agree.
\<close>

theorem deterministic_tie_diverges:
  assumes "max_node (ci_local_vector c) = max_node (ci_remote_vector c)"
    and "ci_local_data c \<noteq> ci_remote_data c"
  shows "final_doc (resolve_conflict Deterministic) c \<noteq>
    final_doc (resolve_conflict Deterministic) (mirror c)"
  using detr.tie [OF assms(1)] assms(2) by simp

definition tie_vector :: "string \<Rightarrow> version_vector" where
  "tie_vector n = vv_merge (vv_with_node n 1) (vv_with_node ''z'' 1)"

theorem deterministic_tie_diverges_witness:
  "detect_conflict (tie_vector ''a'') (tie_vector ''b'') = Some VConcurrent \<and>
   final_doc (resolve_conflict Deterministic) (demo_conflict (tie_vector ''a'') (tie_vector ''b'')) \<noteq>
   final_doc (resolve_conflict Deterministic)
     (mirror (demo_conflict (tie_vector ''a'') (tie_vector ''b'')))"
proof
  have v: "vv_versions (tie_vector ''a'') = [(''a'', 1), (''z'', 1)]"
    "vv_versions (tie_vector ''b'') = [(''b'', 1), (''z'', 1)]"
    by (simp_all add: tie_vector_def vv_with_node_def counts_merge_def counts_step_def
        smap_get_or_def Let_def)
  then show "detect_conflict (tie_vector ''a'') (tie_vector ''b'') = Some VConcurrent"
    by (simp add: detect_conflict_def vv_compare_def vv_dominates_def vv_get_def smap_get_or_def Let_def)
  show "final_doc (resolve_conflict Deterministic) (demo_conflict (tie_vector ''a'') (tie_vector ''b'')) \<noteq>
      final_doc (resolve_conflict Deterministic)
        (mirror (demo_conflict (tie_vector ''a'') (tie_vector ''b'')))"
    by (rule deterministic_tie_diverges) (simp_all add: demo_conflict_def max_node_def v)
qed

section \<open>Automatic merge\<close>

lemma smap_put_all [simp]: "smap_ok m \<Longrightarrow> foldl (\<lambda>a p. smap_put (fst p) (snd p) a) [] m = m"
proof (induction m rule: rev_induct)
  case (snoc p m)
  have ok: "smap_ok m" and lt: "\<forall>q \<in> set m. fst q < fst p"
    using snoc.prems by (auto simp: smap_ok_def sorted_wrt_append)
  have "smap_put (fst p) (snd p) m = m @ [p]" using lt by (induction m) auto
  with snoc.IH [OF ok] show ?case by simp
qed simp

lemma merge_fold_lookup:
  assumes "smap_ok m" "smap_ok n"
  shows "smap_ok (foldl (\<lambda>a p. smap_put (fst p) (f p) a) m n) \<and>
    map_of (foldl (\<lambda>a p. smap_put (fst p) (f p) a) m n) k =
      (case map_of n k of None \<Rightarrow> map_of m k | Some v \<Rightarrow> Some (f (k, v)))"
  using assms
proof (induction n arbitrary: m)
  case (Cons p n)
  have "map_of n (fst p) = None" using Cons.prems by (intro smap_ok_below) auto
  with Cons show ?case by (cases p) (auto split: option.splits)
qed simp

definition merge_field :: "(string \<times> json) list \<Rightarrow> string \<times> json \<Rightarrow> json" where
  "merge_field lm p =
     (case map_of lm (fst p) of
        None \<Rightarrow> snd p
      | Some l \<Rightarrow> (case attempt_crdt_merge l (snd p) of Some v \<Rightarrow> v | None \<Rightarrow> snd p))"

lemma attempt_crdt_merge_objects:
  assumes "smap_ok lm"
  shows "attempt_crdt_merge (JObject lm) (JObject rm) =
    Some (JObject (foldl (\<lambda>a p. smap_put (fst p) (merge_field lm p) a) lm rm))"
proof -
  have "(case map_of lm (fst p) of
           Some local_value \<Rightarrow>
             (case attempt_crdt_merge local_value (snd p) of
                Some v \<Rightarrow> smap_put (fst p) v a
              | None \<Rightarrow> smap_put (fst p) (snd p) a)
         | None \<Rightarrow> smap_put (fst p) (snd p) a) = smap_put (fst p) (merge_field lm p) a" for a p
    by (simp add: merge_field_def split: option.splits)
  then show ?thesis
    using assms by (subst attempt_crdt_merge.simps) simp
qed

lemma attempt_crdt_merge_None: "as_object v = None \<Longrightarrow> attempt_crdt_merge u v = None"
  by (subst attempt_crdt_merge.simps) (auto split: json.splits)

text \<open>
  the automatic merge of two objects succeeds and keeps every field of both: a field of one
  side only keeps its value, a field of both whose remote value is not an object takes the remote
  value. So a scalar field changed on both sides is exchanged, not merged: each replica ends with
  the other's value.
\<close>

theorem automatic_merge_fields:
  assumes "smap_ok lm" "smap_ok rm"
  shows "\<exists>m. attempt_crdt_merge (JObject lm) (JObject rm) = Some (JObject m) \<and> smap_ok m \<and>
    (\<forall>k. map_of rm k = None \<longrightarrow> map_of m k = map_of lm k) \<and>
    (\<forall>k v. map_of lm k = None \<longrightarrow> map_of rm k = Some v \<longrightarrow> map_of m k = Some v) \<and>
    (\<forall>k v. map_of rm k = Some v \<longrightarrow> as_object v = None \<longrightarrow> map_of m k = Some v)"
  using merge_fold_lookup [OF assms, of "merge_field lm"]
  by (auto simp: attempt_crdt_merge_objects [OF assms(1)] merge_field_def attempt_crdt_merge_None
      split: option.splits)

theorem automatic_merge_fields_witness:
  "\<exists>m. attempt_crdt_merge (JObject [(''a'', JNull), (''x'', JBool True)])
      (JObject [(''x'', JBool False)]) = Some (JObject m) \<and>
    map_of m ''a'' = Some JNull \<and> map_of m ''x'' = Some (JBool False)"
  using automatic_merge_fields [of "[(''a'', JNull), (''x'', JBool True)]" "[(''x'', JBool False)]"]
  by fastforce

end
