(* ===== verification/LockManager.thy ===== *)
theory LockManager
  imports Transaction
begin

text \<open>
  The lock manager, \<^verbatim>\<open>src/transaction/lock_manager.rs\<close>: a table of exclusive locks and, per
  transaction, the set of keys it holds. Each of the two methods runs two critical sections, one per
  table; \<open>acquire_exclusive\<close> and \<open>release_locks\<close> are the methods run alone, and \<open>lock_step\<close>
  interleaves the critical sections of any number of threads.
\<close>

section \<open>The lock tables\<close>

datatype lock_type = Shared | Exclusive

datatype lock_key = LockKey (lk_database: string) (lk_collection: string) (lk_key: string)

record lock_manager =
  exclusive_locks :: "lock_key \<rightharpoonup> tx_id"
  tx_locks :: "tx_id \<rightharpoonup> lock_key set"

definition lock_key_new :: "string \<Rightarrow> string \<Rightarrow> string \<Rightarrow> lock_key" where
  "lock_key_new db coll key = LockKey db coll key"

definition lm_new :: lock_manager where
  "lm_new = \<lparr> exclusive_locks = Map.empty, tx_locks = Map.empty \<rparr>"

text \<open>The first critical section of \<^verbatim>\<open>acquire_exclusive\<close>: \<open>None\<close> means that the second one follows,
  \<open>Some r\<close> that the method returns \<open>r\<close>.\<close>

definition acquire_check ::
    "tx_id \<Rightarrow> lock_key \<Rightarrow> lock_manager \<Rightarrow> unit db_result option \<times> lock_manager" where
  "acquire_check i k lm =
     (case exclusive_locks lm k of
        Some holder \<Rightarrow>
          (if holder = i then (Some (Inr ()), lm)
           else (Some (Inl (TransactionConflict (''Write conflict: Key '' @ lk_database k @ ''/'' @
                   lk_collection k @ ''/'' @ lk_key k @ '' is locked by transaction '' @
                   show_tx_id holder))), lm))
      | None \<Rightarrow> (None, lm\<lparr> exclusive_locks := (exclusive_locks lm)(k \<mapsto> i) \<rparr>))"

definition keys_of :: "lock_manager \<Rightarrow> tx_id \<Rightarrow> lock_key set" where
  "keys_of lm i = (case tx_locks lm i of Some ks \<Rightarrow> ks | None \<Rightarrow> {})"

definition acquire_record :: "tx_id \<Rightarrow> lock_key \<Rightarrow> lock_manager \<Rightarrow> lock_manager" where
  "acquire_record i k lm = lm\<lparr> tx_locks := (tx_locks lm)(i \<mapsto> insert k (keys_of lm i)) \<rparr>"

definition acquire_exclusive ::
    "tx_id \<Rightarrow> string \<Rightarrow> string \<Rightarrow> string \<Rightarrow> lock_manager \<Rightarrow> unit db_result \<times> lock_manager" where
  "acquire_exclusive i db coll key lm =
     (let k = lock_key_new db coll key
      in case acquire_check i k lm of
           (Some r, lm') \<Rightarrow> (r, lm')
         | (None, lm') \<Rightarrow> (Inr (), acquire_record i k lm'))"

definition release_take :: "tx_id \<Rightarrow> lock_manager \<Rightarrow> lock_key set option \<times> lock_manager" where
  "release_take i lm = (tx_locks lm i, lm\<lparr> tx_locks := (tx_locks lm)(i := None) \<rparr>)"

definition release_free :: "lock_key set \<Rightarrow> lock_manager \<Rightarrow> lock_manager" where
  "release_free keys lm =
     lm\<lparr> exclusive_locks := (\<lambda>k. if k \<in> keys then None else exclusive_locks lm k) \<rparr>"

definition release_locks :: "tx_id \<Rightarrow> lock_manager \<Rightarrow> lock_manager" where
  "release_locks i lm =
     (case release_take i lm of
        (Some keys, lm') \<Rightarrow> release_free keys lm'
      | (None, lm') \<Rightarrow> lm')"

section \<open>Interleavings\<close>

text \<open>The work that threads have begun and not finished: a lock that is taken and not recorded, or
  the keys of a transaction that are no longer recorded and not yet freed.\<close>

datatype pending = PendAcquire tx_id lock_key | PendRelease tx_id "lock_key set"

inductive lock_step ::
    "lock_manager \<times> pending list \<Rightarrow> lock_manager \<times> pending list \<Rightarrow> bool" where
  acquire_return: "acquire_check i k lm = (Some r, lm') \<Longrightarrow> lock_step (lm, ps) (lm', ps)"
| acquire_take: "acquire_check i k lm = (None, lm') \<Longrightarrow>
    lock_step (lm, ps) (lm', PendAcquire i k # ps)"
| acquire_finish: "lock_step (lm, ps @ PendAcquire i k # qs) (acquire_record i k lm, ps @ qs)"
| release_nothing: "release_take i lm = (None, lm') \<Longrightarrow> lock_step (lm, ps) (lm', ps)"
| release_start: "release_take i lm = (Some keys, lm') \<Longrightarrow>
    lock_step (lm, ps) (lm', PendRelease i keys # ps)"
| release_finish: "lock_step (lm, ps @ PendRelease i keys # qs) (release_free keys lm, ps @ qs)"

fun pend_keys :: "pending \<Rightarrow> (tx_id \<times> lock_key) set" where
  "pend_keys (PendAcquire i k) = {(i, k)}"
| "pend_keys (PendRelease i keys) = Pair i ` keys"

definition recorded :: "lock_manager \<Rightarrow> (tx_id \<times> lock_key) set" where
  "recorded lm = {(i, k). k \<in> keys_of lm i}"

definition holders :: "lock_manager \<Rightarrow> (tx_id \<times> lock_key) set" where
  "holders lm = {(i, k). exclusive_locks lm k = Some i}"

definition in_hand :: "pending list \<Rightarrow> (tx_id \<times> lock_key) set" where
  "in_hand ps = (\<Union>p \<in> set ps. pend_keys p)"

text \<open>The accounting invariant: the holders in the lock table are exactly the recorded keys together
  with the keys in the hands of a thread, and no key is counted twice.\<close>

definition lock_inv :: "lock_manager \<times> pending list \<Rightarrow> bool" where
  "lock_inv s \<longleftrightarrow>
     holders (fst s) = recorded (fst s) \<union> in_hand (snd s) \<and>
     recorded (fst s) \<inter> in_hand (snd s) = {} \<and>
     sorted_wrt (\<lambda>p q. pend_keys p \<inter> pend_keys q = {}) (snd s)"

lemma recorded_record: "recorded (acquire_record i k lm) = insert (i, k) (recorded lm)"
  by (auto simp: recorded_def acquire_record_def keys_of_def split: option.splits if_splits)

lemma holders_record [simp]: "holders (acquire_record i k lm) = holders lm"
  by (simp add: holders_def acquire_record_def)

lemma in_hand_simps [simp]:
  "in_hand [] = {}" "in_hand (p # ps) = pend_keys p \<union> in_hand ps"
  "in_hand (ps @ qs) = in_hand ps \<union> in_hand qs"
  by (auto simp: in_hand_def)

lemma in_hand_disjoint: "(\<forall>q \<in> set ps. K \<inter> pend_keys q = {}) \<longleftrightarrow> K \<inter> in_hand ps = {}"
  by (auto simp: in_hand_def)

lemma holder_unique: "(i, k) \<in> holders lm \<Longrightarrow> (j, k) \<in> holders lm \<Longrightarrow> i = j"
  by (simp add: holders_def)

lemma lock_inv_init: "lock_inv (lm_new, [])"
  by (simp add: lock_inv_def lm_new_def recorded_def keys_of_def holders_def)

lemma lock_inv_step: "lock_step s t \<Longrightarrow> lock_inv s \<Longrightarrow> lock_inv t"
proof (induction rule: lock_step.induct)
  case (acquire_return i k lm r lm' ps)
  then show ?case by (auto simp: acquire_check_def split: option.splits if_splits)
next
  case (acquire_take i k lm lm' ps)
  then have n: "exclusive_locks lm k = None"
    and lm': "lm' = lm\<lparr> exclusive_locks := (exclusive_locks lm)(k \<mapsto> i) \<rparr>"
    by (auto simp: acquire_check_def split: option.splits if_splits)
  have r: "recorded lm' = recorded lm" by (simp add: lm' recorded_def keys_of_def)
  have h: "holders lm' = insert (i, k) (holders lm)" "(i, k) \<notin> holders lm"
    using n by (auto simp: holders_def lm' split: if_splits)
  show ?case
    using acquire_take(2) h unfolding lock_inv_def fst_conv snd_conv r
    by (auto simp: in_hand_def)
next
  case (acquire_finish lm ps i k qs)
  then show ?case
    unfolding lock_inv_def fst_conv snd_conv recorded_record holders_record
    by (auto simp: sorted_wrt_append in_hand_disjoint in_hand_def)
next
  case (release_nothing i lm lm' ps)
  then have "recorded lm' = recorded lm" "holders lm' = holders lm"
    by (auto simp: release_take_def recorded_def holders_def keys_of_def split: option.splits if_splits)
  then show ?case using release_nothing(2) by (simp add: lock_inv_def)
next
  case (release_start i lm keys lm' ps)
  then have "holders lm' = holders lm" "recorded lm = recorded lm' \<union> Pair i ` keys"
    "recorded lm' \<inter> Pair i ` keys = {}"
    by (auto simp: release_take_def recorded_def holders_def keys_of_def split: option.splits if_splits)
  then show ?case
    using release_start(2) unfolding lock_inv_def fst_conv snd_conv
    by (auto simp: in_hand_disjoint)
next
  case (release_finish lm ps i keys qs)
  have r: "recorded (release_free keys lm) = recorded lm"
    by (simp add: release_free_def recorded_def keys_of_def)
  have own: "Pair i ` keys \<subseteq> holders lm"
    using release_finish by (auto simp: lock_inv_def)
  have h: "holders (release_free keys lm) = holders lm - Pair i ` keys"
    using own holder_unique [of i _ lm] by (auto simp: holders_def release_free_def split: if_splits)
  let ?P = "Pair i ` keys"
  have s: "sorted_wrt (\<lambda>p q. pend_keys p \<inter> pend_keys q = {}) (ps @ qs)"
    and "\<forall>p \<in> set ps. ?P \<inter> pend_keys p = {}" "\<forall>q \<in> set qs. ?P \<inter> pend_keys q = {}"
    using release_finish by (simp_all add: lock_inv_def sorted_wrt_append Int_commute)
  then have "?P \<inter> in_hand ps = {}" "?P \<inter> in_hand qs = {}" by (simp_all only: in_hand_disjoint)
  then show ?case
    using release_finish s unfolding lock_inv_def fst_conv snd_conv r h by auto
qed

lemma lock_inv_reach: "lock_step\<^sup>*\<^sup>* s t \<Longrightarrow> lock_inv s \<Longrightarrow> lock_inv t"
  by (induction rule: rtranclp_induct) (auto intro: lock_inv_step)

section \<open>Properties\<close>

text \<open>
  however the critical sections of concurrent calls interleave, a key in the lock table is held
  by exactly one transaction, namely the one that has it recorded or the one whose thread is in the
  middle of acquiring or releasing it; once no call is in progress, the holder of a key is exactly
  the transaction that has it recorded, so releasing a transaction frees its keys and no other.
\<close>

theorem lock_table_consistent:
  assumes "lock_step\<^sup>*\<^sup>* (lm_new, []) (lm, ps)"
  shows "(\<forall>i k. exclusive_locks lm k = Some i \<longleftrightarrow> (i, k) \<in> recorded lm \<or> (i, k) \<in> in_hand ps) \<and>
    (\<forall>i j k. k \<in> keys_of lm i \<longrightarrow> k \<in> keys_of lm j \<longrightarrow> i = j) \<and>
    (ps = [] \<longrightarrow> (\<forall>i k. exclusive_locks lm k = Some i \<longleftrightarrow> k \<in> keys_of lm i))"
proof -
  have inv: "lock_inv (lm, ps)" using assms lock_inv_init by (rule lock_inv_reach)
  then have h: "holders lm = recorded lm \<union> in_hand ps" by (simp add: lock_inv_def)
  have "exclusive_locks lm k = Some i \<longleftrightarrow> (i, k) \<in> recorded lm \<or> (i, k) \<in> in_hand ps" for i k
    using h by (auto simp: holders_def)
  moreover have "i = j" if "k \<in> keys_of lm i" "k \<in> keys_of lm j" for i j k
    using that h holder_unique [of i k lm j] by (auto simp: recorded_def)
  ultimately show ?thesis by (auto simp: recorded_def)
qed

definition demo_lock :: lock_key where
  "demo_lock = LockKey ''db'' ''c'' ''k''"

theorem lock_table_consistent_witness:
  "\<forall>i k. exclusive_locks (snd (acquire_exclusive 1 ''db'' ''c'' ''k'' lm_new)) k = Some i \<longleftrightarrow>
     k \<in> keys_of (snd (acquire_exclusive 1 ''db'' ''c'' ''k'' lm_new)) i"
proof -
  let ?lm = "lm_new\<lparr> exclusive_locks := [demo_lock \<mapsto> 1] \<rparr>"
  have c: "acquire_check 1 demo_lock lm_new = (None, ?lm)"
    by (simp add: acquire_check_def lm_new_def)
  have "lock_step (lm_new, []) (?lm, PendAcquire 1 demo_lock # [])" by (rule acquire_take [OF c])
  moreover have "lock_step (?lm, [] @ PendAcquire 1 demo_lock # []) (acquire_record 1 demo_lock ?lm, [] @ [])"
    by (rule acquire_finish)
  ultimately have "lock_step\<^sup>*\<^sup>* (lm_new, []) (acquire_record 1 demo_lock ?lm, [])"
    by (auto intro: converse_rtranclp_into_rtranclp)
  moreover have "snd (acquire_exclusive 1 ''db'' ''c'' ''k'' lm_new) = acquire_record 1 demo_lock ?lm"
    using c by (simp add: acquire_exclusive_def lock_key_new_def demo_lock_def Let_def)
  ultimately show ?thesis using lock_table_consistent [of "acquire_record 1 demo_lock ?lm" "[]"] by auto
qed

text \<open>
  the methods run alone. An acquire succeeds exactly when the key is free or already held by the
  same transaction, and then the transaction holds it; on a conflict nothing changes. A release
  frees exactly the keys of its transaction.
\<close>

theorem lock_methods_correct:
  assumes "lock_inv (lm, [])"
  shows "(fst (acquire_exclusive i db coll key lm) = Inr () \<longleftrightarrow>
      exclusive_locks lm (LockKey db coll key) \<in> {None, Some i}) \<and>
    exclusive_locks (snd (acquire_exclusive i db coll key lm)) =
      (if exclusive_locks lm (LockKey db coll key) = None
       then (exclusive_locks lm)(LockKey db coll key \<mapsto> i) else exclusive_locks lm) \<and>
    (\<forall>k. exclusive_locks (release_locks i lm) k =
      (if exclusive_locks lm k = Some i then None else exclusive_locks lm k))"
proof -
  have own: "exclusive_locks lm k = Some i \<longleftrightarrow> k \<in> keys_of lm i" for k
    using assms by (auto simp: lock_inv_def holders_def recorded_def)
  have rel: "exclusive_locks (release_locks i lm) k =
      (if k \<in> keys_of lm i then None else exclusive_locks lm k)" for k
    by (simp add: release_locks_def release_take_def release_free_def keys_of_def split: option.splits)
  show ?thesis
    unfolding rel own [symmetric]
    by (simp add: acquire_exclusive_def acquire_check_def acquire_record_def lock_key_new_def Let_def
        split: option.splits)
qed

theorem lock_methods_correct_witness:
  "fst (acquire_exclusive 2 ''db'' ''c'' ''k'' lm_new) = Inr ()"
  using lock_methods_correct [OF lock_inv_init, of 2 "''db''" "''c''" "''k''"] by (simp add: lm_new_def)

end
