(* ===== verification/SyncLog.thy ===== *)
theory SyncLog
  imports Store VersionVector Hlc
begin

text \<open>
  The replication log, \<^verbatim>\<open>src/sync/log.rs\<close>: numbered entries in a store of their own, with a cache of
  entries in memory that answers reads. The store is that of \<open>Store\<close>; serialisation of an entry is a
  parameter. A write that fails is only reported by the code, so its result is ignored here too.
\<close>

section \<open>Entries\<close>

datatype sync_operation =
    SyncInsert | SyncUpdate | SyncDelete | SyncCreateCollection | SyncDeleteCollection
  | SyncTruncateCollection | SyncCreateDatabase | SyncDeleteDatabase | SyncPutBlobChunk | SyncDeleteBlob
  | SyncColumnarInsert | SyncColumnarDelete | SyncColumnarCreateCollection | SyncColumnarDropCollection
  | SyncColumnarTruncate

record log_entry =
  le_sequence :: u64
  le_node_id :: string
  le_database :: string
  le_collection :: string
  le_operation :: sync_operation
  le_key :: string
  le_data :: "bytes option"
  le_timestamp :: u64
  le_origin_sequence :: "u64 option"

record sync_entry =
  se_sequence :: u64
  se_origin_node :: string
  se_origin_sequence :: u64
  se_hlc_ts :: u64
  se_hlc_count :: u32
  se_database :: string
  se_collection :: string
  se_operation :: sync_operation
  se_document_key :: string
  se_document_data :: "bytes option"
  se_shard_id :: "u16 option"
  se_version_vector :: "version_vector option"
  se_parent_vectors :: "version_vector list"
  se_is_delta :: bool
  se_delta_data :: "bytes option"
  se_session_id :: "string option"
  se_device_id :: "string option"

definition to_sync_entry :: "log_entry \<Rightarrow> hlc \<Rightarrow> sync_entry" where
  "to_sync_entry e h =
     \<lparr> se_sequence = le_sequence e, se_origin_node = le_node_id e,
       se_origin_sequence = (case le_origin_sequence e of Some s \<Rightarrow> s | None \<Rightarrow> le_sequence e),
       se_hlc_ts = physical_time h, se_hlc_count = logical_counter h,
       se_database = le_database e, se_collection = le_collection e, se_operation = le_operation e,
       se_document_key = le_key e, se_document_data = le_data e, se_shard_id = None,
       se_version_vector = None, se_parent_vectors = [], se_is_delta = False, se_delta_data = None,
       se_session_id = None, se_device_id = Some (le_node_id e) \<rparr>"

section \<open>The log\<close>

definition LOG_PREFIX :: bytes where "LOG_PREFIX = ''sync_log:''"
definition SEQ_KEY :: bytes where "SEQ_KEY = ''sync_log:_sequence''"

text \<open>\<^verbatim>\<open>format!("{:020}", n)\<close>.\<close>

definition pad20 :: "u64 \<Rightarrow> string" where
  "pad20 n = replicate (20 - length (show_u64 n)) (CHR ''0'') @ show_u64 n"

definition log_key :: "u64 \<Rightarrow> bytes" where
  "log_key n = LOG_PREFIX @ pad20 n"

text \<open>\<^verbatim>\<open>serde_json::to_vec(..).unwrap()\<close> and \<^verbatim>\<open>from_slice\<close> of an entry.\<close>

record log_codec =
  entry_to_vec :: "log_entry \<Rightarrow> bytes"
  entry_from_slice :: "bytes \<Rightarrow> log_entry option"

record 'db sync_log =
  sl_db :: 'db
  sl_node_id :: string
  sl_sequence :: u64
  sl_cache :: "log_entry list"
  sl_max_cache_size :: nat

text \<open>The loop over the items of an iterator, shared by \<^verbatim>\<open>load_cache\<close> and \<^verbatim>\<open>get_entries_after\<close>: other keys
  and values that do not parse are skipped, and the limit is tested after an entry is taken.\<close>

fun take_entries :: "log_codec \<Rightarrow> (log_entry \<Rightarrow> bool) \<Rightarrow> nat \<Rightarrow> log_entry list \<Rightarrow> (bytes \<times> bytes) list \<Rightarrow> log_entry list" where
  "take_entries C P limit acc [] = acc"
| "take_entries C P limit acc ((k, v) # items) =
     (if \<not> starts_with k LOG_PREFIX \<or> k = SEQ_KEY then take_entries C P limit acc items
      else case entry_from_slice C v of
             None \<Rightarrow> take_entries C P limit acc items
           | Some e \<Rightarrow>
               if P e then (if length (acc @ [e]) \<ge> limit then acc @ [e]
                            else take_entries C P limit (acc @ [e]) items)
               else take_entries C P limit acc items)"

definition load_cache :: "'db rocks \<Rightarrow> log_codec \<Rightarrow> 'db sync_log \<Rightarrow> 'db sync_log" where
  "load_cache R C l =
     l\<lparr> sl_cache := take_entries C (\<lambda>_. True) (sl_max_cache_size l) [] (oks (iter_from R (sl_db l) LOG_PREFIX)) \<rparr>"

text \<open>Opening the log on a store that has been opened.\<close>

definition sync_log_new :: "'db rocks \<Rightarrow> log_codec \<Rightarrow> string \<Rightarrow> 'db \<Rightarrow> nat \<Rightarrow> 'db sync_log" where
  "sync_log_new R C node d max_cache_size =
     load_cache R C
       \<lparr> sl_db = d, sl_node_id = node,
         sl_sequence = (case get_cf R d SEQ_KEY of
                          Inr (Some b) \<Rightarrow> if length b = 8 then from_be_bytes b else 0
                        | _ \<Rightarrow> 0),
         sl_cache = [], sl_max_cache_size = max_cache_size \<rparr>"

definition put_ignore :: "'db rocks \<Rightarrow> write_op list \<Rightarrow> 'db \<Rightarrow> 'db" where
  "put_ignore R ops d = (case write_batch R d ops of Inr d' \<Rightarrow> d' | Inl _ \<Rightarrow> d)"

definition push_cache :: "nat \<Rightarrow> log_entry list \<Rightarrow> log_entry \<Rightarrow> log_entry list" where
  "push_cache m cache e = (let cache = cache @ [e] in if length cache > m then tl cache else cache)"

definition number_entry :: "string \<Rightarrow> u64 \<Rightarrow> log_entry \<Rightarrow> log_entry" where
  "number_entry node s e =
     (let e = e\<lparr> le_sequence := s \<rparr> in if le_node_id e = [] then e\<lparr> le_node_id := node \<rparr> else e)"

definition log_append :: "'db rocks \<Rightarrow> log_codec \<Rightarrow> log_entry \<Rightarrow> 'db sync_log \<Rightarrow> u64 \<times> 'db sync_log" where
  "log_append R C entry l =
     (let s = sl_sequence l + 1;
          e = number_entry (sl_node_id l) s entry;
          d1 = put_ignore R [Put (log_key s) (entry_to_vec C e)] (sl_db l);
          d2 = put_ignore R [Put SEQ_KEY (to_be_bytes s)] d1
      in (s, l\<lparr> sl_sequence := s, sl_db := d2, sl_cache := push_cache (sl_max_cache_size l) (sl_cache l) e \<rparr>))"

fun number_entries :: "string \<Rightarrow> u64 \<Rightarrow> log_entry list \<Rightarrow> log_entry list" where
  "number_entries node s [] = []"
| "number_entries node s (e # es) = number_entry node (s + 1) e # number_entries node (s + 1) es"

definition append_batch :: "'db rocks \<Rightarrow> log_codec \<Rightarrow> log_entry list \<Rightarrow> 'db sync_log \<Rightarrow> u64 \<times> 'db sync_log" where
  "append_batch R C entries l =
     (if entries = [] then (sl_sequence l, l)
      else
        (let es = number_entries (sl_node_id l) (sl_sequence l) entries;
             s = sl_sequence l + of_nat (length entries);
             batch = map (\<lambda>e. Put (log_key (le_sequence e)) (entry_to_vec C e)) es @ [Put SEQ_KEY (to_be_bytes s)]
         in (s, l\<lparr> sl_sequence := s, sl_db := put_ignore R batch (sl_db l),
                   sl_cache := foldl (push_cache (sl_max_cache_size l)) (sl_cache l) es \<rparr>)))"

definition get_entries_after :: "'db rocks \<Rightarrow> log_codec \<Rightarrow> 'db sync_log \<Rightarrow> u64 \<Rightarrow> nat \<Rightarrow> log_entry list" where
  "get_entries_after R C l after_sequence limit =
     (let cached = take limit (filter (\<lambda>e. le_sequence e > after_sequence) (sl_cache l))
      in if cached \<noteq> [] \<and> le_sequence (hd cached) = after_sequence + 1 then cached
         else take_entries C (\<lambda>e. le_sequence e > after_sequence) limit []
                (oks (iter_from R (sl_db l) (log_key (after_sequence + 1)))))"

definition append_columnar ::
    "'db rocks \<Rightarrow> log_codec \<Rightarrow> u64 \<Rightarrow> string \<Rightarrow> string \<Rightarrow> sync_operation \<Rightarrow> string \<Rightarrow> bytes option \<Rightarrow>
     'db sync_log \<Rightarrow> u64 \<times> 'db sync_log" where
  "append_columnar R C now db coll op key data =
     log_append R C \<lparr> le_sequence = 0, le_node_id = [], le_database = db, le_collection = coll, le_operation = op,
                      le_key = key, le_data = data, le_timestamp = now, le_origin_sequence = None \<rparr>"

end
