(* ===== verification/SyncLogCorrect.thy ===== *)
theory SyncLogCorrect
  imports SyncLog Document
begin

text \<open>
  What readers of the replication log of \<open>SyncLog\<close> get: all entries in order as long as the process
  runs, and a gap after a restart with more entries than the cache holds.
\<close>

section \<open>Keys\<close>

lemma digits_snoc: "digits b (Suc n) v = digits b n (v div b) @ [v mod b]"
proof (induction n)
  case (Suc n)
  have "v div b ^ Suc n = v div b div b ^ n" by (simp add: div_mult2_eq mult.commute)
  then show ?case using Suc by (subst digits.simps) simp
qed simp

lemma digits_small: "v < b \<Longrightarrow> digits b (Suc n) v = replicate n 0 @ [v]"
proof (induction n)
  case (Suc n)
  have "b ^ 1 \<le> b ^ Suc n" using Suc.prems by (intro power_increasing) auto
  from less_le_trans [OF Suc.prems this [unfolded power_one_right]] have "v < b ^ Suc n" .
  then show ?case using Suc by (subst digits.simps) simp
qed simp

lemma show_nat_digits:
  "n < 10 ^ Suc k \<Longrightarrow>
   replicate (Suc k - length (show_nat n)) (CHR ''0'') @ show_nat n = map digit_char (digits 10 (Suc k) n)"
proof (induction n arbitrary: k rule: show_nat.induct)
  case (1 n)
  have z: "digit_char 0 = CHR ''0''" by (simp add: digit_char_def char_of_def bit_0)
  show ?case
  proof (cases "n < 10")
    case True
    then show ?thesis by (subst (1 2) show_nat.simps) (simp add: digits_small z del: digits.simps)
  next
    case False
    with "1.prems" obtain k' where k: "k = Suc k'" by (cases k) auto
    have "n div 10 < 10 ^ Suc k'" using "1.prems" k by (simp add: less_mult_imp_div_less mult.commute)
    from "1.IH" [OF False this] have
      "replicate (Suc k' - length (show_nat (n div 10))) (CHR ''0'') @ show_nat (n div 10) =
       map digit_char (digits 10 (Suc k') (n div 10))" .
    then show ?thesis
      using False k by (subst (1 2) show_nat.simps) (simp add: digits_snoc [of 10 "Suc k'"] del: digits.simps append_assoc flip: append_assoc)
  qed
qed

lemma u64_lt_10_20: "unat (n :: u64) < 10 ^ 20"
  using unat_u64_lt [of n] by simp

lemma pad20_digits: "pad20 n = map digit_char (digits 10 20 (unat n))"
  using show_nat_digits [of "unat n" 19] u64_lt_10_20 [of n]
  by (simp add: pad20_def show_u64_def del: digits.simps)

lemma log_key_less [simp]: "log_key a < log_key b \<longleftrightarrow> a < b"
proof -
  have up: "log_key a < log_key b" if "a < b" for a b :: u64
  proof -
    have "unat a mod 10 ^ 20 < unat b mod 10 ^ 20"
      using that u64_lt_10_20 by (simp add: word_less_nat_alt)
    then have "lt_at (digits 10 20 (unat a)) (digits 10 20 (unat b))" by (intro digits_lt_at) simp_all
    then have "lt_at (pad20 a) (pad20 b)"
      unfolding pad20_digits
    proof (rule lt_at_map)
      fix x y assume "x \<in> set (digits 10 20 (unat a))" "y \<in> set (digits 10 20 (unat b))" "x < y"
      moreover from this have "x < 10" "y < 10" using set_digits by (meson zero_less_numeral)+
      ultimately show "digit_char x < digit_char y" by (simp add: less_char_def digit_char_range)
    qed
    then show ?thesis by (simp add: log_key_def lt_at_less)
  qed
  show ?thesis using up [of a b] up [of b a] by (metis linorder_less_linear order_less_asym)
qed

lemma log_key_seq [simp]: "log_key a < SEQ_KEY" "log_key a \<noteq> SEQ_KEY"
proof -
  have "length (pad20 a) = 20" by (simp add: pad20_digits del: digits.simps)
  then obtain c r where c: "pad20 a = c # r" by (cases "pad20 a") auto
  then have "c \<in> digit_char ` set (digits 10 20 (unat a))"
    by (metis list.set_intros(1) list.set_map pad20_digits)
  then obtain d where d: "d < 10" "c = digit_char d" using set_digits [of 10] by auto
  then have "digit_char d < CHR ''_''" by (simp add: less_char_def digit_char_range)
  then have "pad20 a < ''_sequence''" using c d by simp
  then show "log_key a < SEQ_KEY" by (simp add: log_key_def SEQ_KEY_def LOG_PREFIX_def)
  then show "log_key a \<noteq> SEQ_KEY" by auto
qed

lemma seq_log_key [simp]: "SEQ_KEY \<noteq> log_key a"
  using log_key_seq(2) by metis

lemma log_key_prefix [simp]: "starts_with (log_key a) LOG_PREFIX"
  by (simp add: log_key_def)

section \<open>Invariant\<close>

text \<open>Entries numbered from one, and the contents of a store that holds exactly them.\<close>

definition numbered :: "log_entry list \<Rightarrow> bool" where
  "numbered es \<longleftrightarrow> length es < 2 ^ 64 \<and> (\<forall>i < length es. le_sequence (es ! i) = of_nat (Suc i))"

definition log_items :: "log_codec \<Rightarrow> log_entry list \<Rightarrow> (bytes \<times> bytes) list" where
  "log_items C es = map (\<lambda>e. (log_key (le_sequence e), entry_to_vec C e)) es"

definition seq_item :: "log_entry list \<Rightarrow> (bytes \<times> bytes) list" where
  "seq_item es = (if es = [] then [] else [(SEQ_KEY, to_be_bytes (of_nat (length es)))])"

definition log_codec_ok :: "log_codec \<Rightarrow> bool" where
  "log_codec_ok C \<longleftrightarrow> (\<forall>e. entry_from_slice C (entry_to_vec C e) = Some e)"

text \<open>The cache holds the end of the log.\<close>

definition log_inv :: "('db \<Rightarrow> (bytes, bytes) smap) \<Rightarrow> log_codec \<Rightarrow> 'db sync_log \<Rightarrow> log_entry list \<Rightarrow> bool" where
  "log_inv V C l es \<longleftrightarrow> numbered es \<and> sl_sequence l = of_nat (length es) \<and>
     V (sl_db l) = log_items C es @ seq_item es \<and> (\<exists>k. sl_cache l = drop k es)"

lemma numbered_seq:
  assumes "numbered es" "i < length es"
  shows "le_sequence (es ! i) = of_nat (Suc i)" "unat (le_sequence (es ! i)) = Suc i"
proof -
  show n: "le_sequence (es ! i) = of_nat (Suc i)" using assms by (simp add: numbered_def)
  have "Suc i < 2 ^ 64" using assms by (simp add: numbered_def)
  then show "unat (le_sequence (es ! i)) = Suc i" unfolding n by (simp add: unat_of_nat del: of_nat_Suc)
qed

lemma numbered_filter:
  assumes "numbered es"
  shows "filter (\<lambda>e. a < le_sequence e) (drop k es) = drop (max k (unat a)) es"
proof -
  have "filter (\<lambda>e. a < le_sequence e) xs = drop (unat a - j) xs" if "xs = drop j es" for xs j
    using that
  proof (induction xs arbitrary: j)
    case (Cons e xs)
    have j: "j < length es" using Cons.prems by (metis drop_all list.distinct(1) linorder_not_less)
    have e: "e = es ! j" and xs: "xs = drop (Suc j) es"
      using Cons.prems [folded Cons_nth_drop_Suc [OF j]] by simp_all
    have "a < le_sequence e \<longleftrightarrow> unat a \<le> j"
      using numbered_seq(2) [OF assms j] by (simp add: e word_less_nat_alt less_Suc_eq_le)
    with Cons.IH [OF xs] show ?case by (cases "unat a \<le> j") (auto simp: Suc_diff_le drop_Cons')
  qed simp
  from this [OF refl] show ?thesis by (simp add: max_def)
qed

lemma items_above:
  assumes "numbered es" "a + 1 \<noteq> 0"
  shows "filter (\<lambda>p. log_key (a + 1) \<le> fst p) (log_items C es @ seq_item es) =
    log_items C (drop (unat a) es) @ seq_item es"
proof -
  have "unat (a + 1) = Suc (unat a)" using assms(2) by (metis unatSuc add.commute)
  then have "\<not> s < a + 1 \<longleftrightarrow> a < s" for s by (auto simp: word_less_nat_alt)
  then have "log_key (a + 1) \<le> log_key s \<longleftrightarrow> a < s" for s by (simp flip: not_less)
  moreover have "filter (\<lambda>p. log_key (a + 1) \<le> fst p) (seq_item es) = seq_item es"
    by (simp add: seq_item_def less_imp_le)
  ultimately show ?thesis
    using numbered_filter [OF assms(1), of a 0] by (simp add: log_items_def filter_map comp_def)
qed

lemma take_entries_items:
  assumes "log_codec_ok C" "\<forall>e \<in> set xs. P e" "length acc < limit"
  shows "take_entries C P limit acc (log_items C xs @ seq_item es) = acc @ take (limit - length acc) xs"
  using assms(2,3)
proof (induction xs arbitrary: acc)
  case Nil
  then show ?case by (simp add: log_items_def seq_item_def)
next
  case (Cons e xs)
  have "take_entries C P limit acc (log_items C (e # xs) @ seq_item es) =
      (if length (acc @ [e]) \<ge> limit then acc @ [e] else take_entries C P limit (acc @ [e]) (log_items C xs @ seq_item es))"
    using assms(1) Cons.prems(1) by (simp add: log_items_def log_codec_ok_def)
  moreover have "limit - length acc = Suc (limit - Suc (length acc))" using Cons.prems(2) by simp
  ultimately show ?case using Cons by auto
qed

lemma get_entries_after_eq:
  assumes "rocks_ok R V" "log_codec_ok C" "log_inv V C l es" "a + 1 \<noteq> 0" "0 < limit"
  shows "get_entries_after R C l a limit = take limit (drop (unat a) es)"
proof -
  from assms(3) obtain k where k: "sl_cache l = drop k es" and n: "numbered es"
    and d: "V (sl_db l) = log_items C es @ seq_item es" by (auto simp: log_inv_def)
  let ?c = "take limit (filter (\<lambda>e. a < le_sequence e) (sl_cache l))"
  have c: "?c = take limit (drop (max k (unat a)) es)" by (simp add: k numbered_filter [OF n])
  have disk: "take_entries C (\<lambda>e. a < le_sequence e) limit [] (oks (iter_from R (sl_db l) (log_key (a + 1)))) =
      take limit (drop (unat a) es)"
  proof -
    have "\<forall>e \<in> set (drop (unat a) es). a < le_sequence e"
      using numbered_filter [OF n, of a 0, symmetric] by simp
    from take_entries_items [OF assms(2) this, of "[]" limit es] assms(5) show ?thesis
      by (simp add: rocks_okD(4) [OF assms(1)] d items_above [OF n assms(4)] del: filter_append map_append)
  qed
  show ?thesis
  proof (cases "?c \<noteq> [] \<and> le_sequence (hd ?c) = a + 1")
    case True
    then have m: "max k (unat a) < length es" and h: "hd ?c = es ! max k (unat a)"
      unfolding c by (auto simp: hd_drop_conv_nth not_le)
    have "unat (a + 1) = Suc (max k (unat a))" using numbered_seq(2) [OF n m] True h by simp
    moreover have "unat (a + 1) = Suc (unat a)" using assms(4) by (metis unatSuc add.commute)
    ultimately show ?thesis using True c by (simp add: get_entries_after_def disk Let_def)
  next
    case False
    then show ?thesis by (simp only: get_entries_after_def disk Let_def if_False)
  qed
qed

section \<open>Appending\<close>

lemma numbered_snoc:
  assumes "numbered es" "length es + 1 < 2 ^ 64" "le_sequence e = of_nat (length es) + 1"
  shows "numbered (es @ [e])"
  using assms by (auto simp: numbered_def nth_append less_Suc_eq add.commute)

lemma log_smap_ok:
  assumes "numbered es"
  shows "smap_ok (log_items C es @ seq_item es)"
proof -
  have "le_sequence (es ! i) < le_sequence (es ! j)" if "i < j" "j < length es" for i j
    using that numbered_seq(2) [OF assms] by (simp add: word_less_nat_alt)
  then have "sorted_wrt (\<lambda>a b. le_sequence a < le_sequence b) es" by (simp add: sorted_wrt_iff_nth_less)
  then show ?thesis
    by (auto simp: smap_ok_def log_items_def seq_item_def sorted_wrt_append sorted_wrt_map comp_def)
qed

lemma map_of_log:
  assumes "numbered (es @ [e])"
  shows "map_of (log_items C (es @ [e]) @ seq_item (es @ [e])) =
    (map_of (log_items C es @ seq_item es))(log_key (le_sequence e) \<mapsto> entry_to_vec C e,
       SEQ_KEY \<mapsto> to_be_bytes (of_nat (Suc (length es))))"
proof -
  have "log_key (le_sequence e) \<notin> fst ` set (log_items C es)"
  proof
    assume "log_key (le_sequence e) \<in> fst ` set (log_items C es)"
    then obtain e' where "e' \<in> set es" "log_key (le_sequence e) = log_key (le_sequence e')" by (auto simp: log_items_def)
    then obtain i where "i < length es" "\<not> le_sequence (es ! i) < le_sequence e"
      by (metis in_set_conv_nth log_key_less order_less_irrefl)
    then show False
      using numbered_seq(2) [OF assms, of i] numbered_seq(2) [OF assms, of "length es"]
      by (simp add: nth_append word_less_nat_alt)
  qed
  then have "map_of (log_items C es) (log_key (le_sequence e)) = None" by (simp add: map_of_eq_None_iff)
  moreover have "map_of (log_items C es) SEQ_KEY = None" by (auto simp: map_of_eq_None_iff log_items_def)
  ultimately show ?thesis
    by (auto simp: fun_eq_iff map_add_def seq_item_def log_items_def split: option.splits)
qed

definition puts_succeed :: "'db rocks \<Rightarrow> bool" where
  "puts_succeed R \<longleftrightarrow> (\<forall>d ops. \<exists>d'. write_batch R d ops = Inr d')"

lemma put_ignore_ok:
  assumes "rocks_ok R V" "puts_succeed R"
  shows "map_of (V (put_ignore R ops d)) = apply_ops ops (map_of (V d))"
proof -
  obtain d' where "write_batch R d ops = Inr d'" using assms(2) by (auto simp: puts_succeed_def)
  with rocks_okD(3) [OF assms(1) this] show ?thesis by (simp add: put_ignore_def)
qed

lemma push_cache_drop: "\<exists>j. push_cache m (drop k es) e = drop j (es @ [e])"
proof -
  let ?j = "min k (length es)"
  have d: "drop k es @ [e] = drop ?j (es @ [e])" by (simp add: min_def)
  have "tl (drop ?j (es @ [e])) = drop (Suc ?j) (es @ [e])" by (simp only: drop_Suc tl_drop)
  then have "push_cache m (drop k es) e = drop (if length (drop k es @ [e]) > m then Suc ?j else ?j) (es @ [e])"
    by (simp only: push_cache_def Let_def d split: if_split) blast
  then show ?thesis by blast
qed

lemma number_entry_sequence [simp]: "le_sequence (number_entry n s e) = s"
  by (simp add: number_entry_def Let_def)

lemma append_inv:
  assumes "rocks_ok R V" "puts_succeed R" "log_inv V C l es" "length es + 1 < 2 ^ 64" "log_append R C entry l = (s, l')"
  shows "log_inv V C l' (es @ [number_entry (sl_node_id l) s entry])" "s = of_nat (length es + 1)"
    "sl_node_id l' = sl_node_id l" "sl_max_cache_size l' = sl_max_cache_size l"
proof -
  let ?e = "number_entry (sl_node_id l) s entry"
  from assms(3) obtain k where k: "sl_cache l = drop k es" and n: "numbered es" and q: "sl_sequence l = of_nat (length es)"
    and d: "V (sl_db l) = log_items C es @ seq_item es" by (auto simp: log_inv_def)
  have s: "s = of_nat (length es) + 1" and l': "l' = l\<lparr> sl_sequence := s,
      sl_db := put_ignore R [Put SEQ_KEY (to_be_bytes s)] (put_ignore R [Put (log_key s) (entry_to_vec C ?e)] (sl_db l)),
      sl_cache := push_cache (sl_max_cache_size l) (sl_cache l) ?e \<rparr>"
    using assms(5) q by (auto simp: log_append_def Let_def)
  have n': "numbered (es @ [?e])" by (rule numbered_snoc [OF n assms(4)]) (simp add: s)
  have "V (sl_db l') = log_items C (es @ [?e]) @ seq_item (es @ [?e])"
  proof (rule smap_eqI)
    show "map_of (V (sl_db l')) = map_of (log_items C (es @ [?e]) @ seq_item (es @ [?e]))"
      unfolding map_of_log [OF n'] by (simp add: l' put_ignore_ok [OF assms(1,2)] d s add.commute)
  qed (use rocks_okD(1) [OF assms(1)] log_smap_ok [OF n'] in auto)
  then show "log_inv V C l' (es @ [?e])"
    using n' push_cache_drop [of "sl_max_cache_size l" k es ?e] by (simp add: log_inv_def l' k s)
  show "s = of_nat (length es + 1)" using s by simp
  show "sl_node_id l' = sl_node_id l" "sl_max_cache_size l' = sl_max_cache_size l" by (simp_all add: l')
qed

lemma length_number_entries [simp]: "length (number_entries n s es) = length es"
  by (induction es arbitrary: s) auto

lemma numbered_entries:
  assumes "numbered es" "length es + length entries < 2 ^ 64"
  shows "numbered (es @ number_entries n (of_nat (length es)) entries)"
  using assms
proof (induction entries arbitrary: es)
  case (Cons e entries)
  let ?e = "number_entry n (of_nat (length es) + 1) e"
  have "numbered (es @ [?e])" using Cons.prems by (intro numbered_snoc) simp_all
  from Cons.IH [OF this] Cons.prems(2) show ?case by (simp add: add.commute)
qed simp

lemma map_of_log_batch:
  assumes "numbered (es @ ns)" "ns \<noteq> []"
  shows "map_of (log_items C (es @ ns) @ seq_item (es @ ns)) =
    apply_ops (map (\<lambda>e. Put (log_key (le_sequence e)) (entry_to_vec C e)) ns @
               [Put SEQ_KEY (to_be_bytes (of_nat (length (es @ ns))))]) (map_of (log_items C es @ seq_item es))"
  using assms(2,1)
proof (induction ns rule: rev_nonempty_induct)
  case (single e)
  then show ?case using map_of_log [OF single] by (simp add: fun_upd_def)
next
  case (snoc e ns)
  have n: "numbered ((es @ ns) @ [e])" using snoc.prems by simp
  have "numbered (es @ ns)" using n by (auto simp: numbered_def nth_append split: if_splits)
  note ih = snoc.IH [OF this]
  show ?case
    unfolding append_assoc [symmetric] map_of_log [OF n]
    using fun_cong [OF ih] by (auto simp: apply_ops_append fun_eq_iff)
qed

lemma push_cache_drops: "\<exists>j. foldl (push_cache m) (drop k es) ns = drop j (es @ ns)"
proof (induction ns rule: rev_induct)
  case (snoc e ns)
  then obtain j where "foldl (push_cache m) (drop k es) ns = drop j (es @ ns)" by blast
  with push_cache_drop [of m j "es @ ns" e] show ?case by simp
qed auto

lemma append_batch_inv:
  assumes "rocks_ok R V" "puts_succeed R" "log_inv V C l es" "length es + length entries < 2 ^ 64"
    "append_batch R C entries l = (s, l')"
  shows "log_inv V C l' (es @ number_entries (sl_node_id l) (of_nat (length es)) entries)"
    "s = of_nat (length es + length entries)" "sl_node_id l' = sl_node_id l" "sl_max_cache_size l' = sl_max_cache_size l"
proof -
  let ?ns = "number_entries (sl_node_id l) (of_nat (length es)) entries"
  from assms(3) obtain k where k: "sl_cache l = drop k es" and n: "numbered es" and q: "sl_sequence l = of_nat (length es)"
    and d: "V (sl_db l) = log_items C es @ seq_item es" by (auto simp: log_inv_def)
  show "log_inv V C l' (es @ ?ns)"
  proof (cases "entries = []")
    case True
    then show ?thesis using assms(3,5) by (simp add: append_batch_def)
  next
    case False
    then have l': "l' = l\<lparr> sl_sequence := of_nat (length (es @ ?ns)), sl_db := put_ignore R
        (map (\<lambda>e. Put (log_key (le_sequence e)) (entry_to_vec C e)) ?ns @
         [Put SEQ_KEY (to_be_bytes (of_nat (length (es @ ?ns))))]) (sl_db l),
        sl_cache := foldl (push_cache (sl_max_cache_size l)) (sl_cache l) ?ns \<rparr>"
      using assms(5) q by (auto simp: append_batch_def Let_def)
    have n': "numbered (es @ ?ns)" by (rule numbered_entries [OF n assms(4)])
    have ne: "?ns \<noteq> []" using False by (cases entries) simp_all
    have "V (sl_db l') = log_items C (es @ ?ns) @ seq_item (es @ ?ns)"
    proof (rule smap_eqI)
      show "map_of (V (sl_db l')) = map_of (log_items C (es @ ?ns) @ seq_item (es @ ?ns))"
        unfolding map_of_log_batch [OF n' ne] by (simp add: l' put_ignore_ok [OF assms(1,2)] d)
    qed (use rocks_okD(1) [OF assms(1)] log_smap_ok [OF n'] in auto)
    then show ?thesis
      using n' push_cache_drops [of "sl_max_cache_size l" k es ?ns] by (simp add: log_inv_def l' k)
  qed
  show "s = of_nat (length es + length entries)" "sl_node_id l' = sl_node_id l" "sl_max_cache_size l' = sl_max_cache_size l"
    using assms(5) q by (auto simp: append_batch_def Let_def split: if_splits)
qed

section \<open>Readers\<close>

lemma oks_items: "smap_ok (V d) \<Longrightarrow> rocks_ok R V \<Longrightarrow> V d = log_items C es @ seq_item es \<Longrightarrow>
  oks (iter_from R d LOG_PREFIX) = log_items C es @ seq_item es"
proof -
  assume "rocks_ok R V" and d: "V d = log_items C es @ seq_item es"
  have "LOG_PREFIX \<le> fst p" if "p \<in> set (V d)" for p
    using that d by (intro prefix_le) (auto simp: log_items_def seq_item_def SEQ_KEY_def LOG_PREFIX_def starts_with_def log_key_def split: if_splits)
  then have "filter (\<lambda>p. LOG_PREFIX \<le> fst p) (V d) = V d" by (simp add: filter_id_conv)
  then show ?thesis using d by (simp add: rocks_okD(4) [OF \<open>rocks_ok R V\<close>] del: map_append)
qed

lemma reopen_log:
  assumes "rocks_ok R V" "log_codec_ok C" "numbered es" "V d = log_items C es @ seq_item es"
  shows "sl_sequence (sync_log_new R C n d m) = of_nat (length es)" "sl_db (sync_log_new R C n d m) = d"
    "sl_node_id (sync_log_new R C n d m) = n" "sl_max_cache_size (sync_log_new R C n d m) = m"
    "0 < m \<or> es = [] \<Longrightarrow> sl_cache (sync_log_new R C n d m) = take m es"
proof -
  have len: "length (to_be_bytes w) = 8" for w by (simp add: to_be_bytes_def del: digits.simps)
  have "map_of (V d) SEQ_KEY = (if es = [] then None else Some (to_be_bytes (of_nat (length es))))"
    by (auto simp: assms(4) map_add_def seq_item_def log_items_def map_of_eq_None_iff split: option.splits dest!: map_of_SomeD)
  then show "sl_sequence (sync_log_new R C n d m) = of_nat (length es)"
    by (simp add: sync_log_new_def load_cache_def rocks_okD(2) [OF assms(1)] len)
  show "sl_db (sync_log_new R C n d m) = d" "sl_node_id (sync_log_new R C n d m) = n"
    "sl_max_cache_size (sync_log_new R C n d m) = m"
    by (simp_all add: sync_log_new_def load_cache_def)
  have o: "oks (iter_from R d LOG_PREFIX) = log_items C es @ seq_item es"
    by (rule oks_items [OF rocks_okD(1) [OF assms(1)] assms(1,4)])
  show "sl_cache (sync_log_new R C n d m) = take m es" if "0 < m \<or> es = []"
    using that take_entries_items [OF assms(2), of es "\<lambda>_. True" "[]" m es]
    by (cases "es = []") (auto simp: sync_log_new_def load_cache_def o log_items_def seq_item_def)
qed

text \<open>The states of a log that starts on an empty store; it is reopened only while all its entries fit
  into the cache.\<close>

inductive log_reach ::
    "'db rocks \<Rightarrow> ('db \<Rightarrow> (bytes, bytes) smap) \<Rightarrow> log_codec \<Rightarrow> 'db sync_log \<Rightarrow> log_entry list \<Rightarrow> bool"
  for R V C where
  new: "V d = [] \<Longrightarrow> log_reach R V C (sync_log_new R C n d m) []"
| append: "log_reach R V C l es \<Longrightarrow> length es + 1 < 2 ^ 64 \<Longrightarrow> log_append R C e l = (s, l') \<Longrightarrow>
    log_reach R V C l' (es @ [number_entry (sl_node_id l) s e])"
| batch: "log_reach R V C l es \<Longrightarrow> length es + length entries < 2 ^ 64 \<Longrightarrow> append_batch R C entries l = (s, l') \<Longrightarrow>
    log_reach R V C l' (es @ number_entries (sl_node_id l) (of_nat (length es)) entries)"
| reopen: "log_reach R V C l es \<Longrightarrow> length es \<le> m \<Longrightarrow> log_reach R V C (sync_log_new R C n (sl_db l) m) es"

lemma log_reach_inv:
  assumes "log_reach R V C l es" "rocks_ok R V" "log_codec_ok C" "puts_succeed R"
  shows "log_inv V C l es"
  using assms(1)
proof induction
  case (new d n m)
  have "V d = log_items C [] @ seq_item []" using new by (simp add: log_items_def seq_item_def)
  from reopen_log [OF assms(2,3) _ this, where n = n and m = m] show ?case
    using new by (simp add: log_inv_def numbered_def log_items_def seq_item_def)
next
  case (append l es e s l')
  then show ?case using append_inv(1) [OF assms(2,4)] by blast
next
  case (batch l es entries s l')
  then show ?case using append_batch_inv(1) [OF assms(2,4)] by blast
next
  case (reopen l es m n)
  then have *: "numbered es" "V (sl_db l) = log_items C es @ seq_item es" by (simp_all add: log_inv_def)
  have "0 < m \<or> es = []" using reopen.hyps(2) by (cases es) auto
  with reopen_log [OF assms(2,3) *, where n = n and m = m] reopen.hyps(2) * show ?case
    by (auto simp: log_inv_def intro!: exI [of _ 0])
qed

text \<open>
  C12: Readers of the replication log see every entry. As long as the log is not reopened with more
  entries than its cache holds, a read after a sequence number returns exactly the next entries in
  order, up to the limit, whether the cache or the store answers; the sequence number of the log is
  the number of its entries.
\<close>
theorem sync_log_complete:
  assumes "rocks_ok R V" "log_codec_ok C" "puts_succeed R" "log_reach R V C l es" "a + 1 \<noteq> 0" "0 < limit"
  shows "get_entries_after R C l a limit = take limit (drop (unat a) es) \<and> sl_sequence l = of_nat (length es) \<and>
    (\<forall>i < length es. le_sequence (es ! i) = of_nat (Suc i))"
  using log_reach_inv [OF assms(4,1-3)] get_entries_after_eq [OF assms(1,2) _ assms(5,6)]
  by (auto simp: log_inv_def numbered_def)

text \<open>
  C40: A restart loses entries for readers. Opening a log with more entries than the cache holds fills
  the cache with the oldest entries; after one more append the cache has a gap, and a read that starts
  inside it returns the cached entries as if there were none in between. The entry after the cached
  ones is in the store, is newer than the reader's position and older than the last entry it gets, and
  is not returned.
\<close>
theorem restart_skips_entries:
  assumes "rocks_ok R V" "log_codec_ok C" "puts_succeed R" "log_reach R V C l es" "1 < m" "m < length es"
    "length es + 1 < 2 ^ 64" "log_append R C e (sync_log_new R C n (sl_db l) m) = (s, l')"
  shows "get_entries_after R C l' 1 m = drop 1 (take m es) @ [number_entry n s e] \<and>
    es ! m \<notin> set (get_entries_after R C l' 1 m) \<and> 1 < le_sequence (es ! m) \<and> le_sequence (es ! m) < s \<and>
    log_inv V C (l'\<lparr> sl_cache := [] \<rparr>) (es @ [number_entry n s e])"
proof -
  let ?e = "number_entry n s e" and ?l = "sync_log_new R C n (sl_db l) m"
  have inv: "numbered es" "V (sl_db l) = log_items C es @ seq_item es"
    using log_reach_inv [OF assms(4,1-3)] by (simp_all add: log_inv_def)
  have l: "sl_sequence ?l = of_nat (length es)" "sl_db ?l = sl_db l" "sl_node_id ?l = n" "sl_max_cache_size ?l = m"
      "sl_cache ?l = take m es"
    using reopen_log [OF assms(1,2) inv, where n = n and m = m] assms(5) by auto
  have "log_inv V C (?l\<lparr> sl_cache := [] \<rparr>) es" using l inv by (auto simp: log_inv_def intro!: exI [of _ "length es"])
  from append_inv [OF assms(1,3) this assms(7), of e s "l'\<lparr> sl_cache := push_cache m [] ?e \<rparr>"] assms(8) l(3,4)
  have a: "log_inv V C (l'\<lparr> sl_cache := push_cache m [] ?e \<rparr>) (es @ [?e])" "s = of_nat (length es) + 1"
    by (auto simp: log_append_def Let_def)
  have c: "sl_cache l' = drop 1 (take m es) @ [?e]"
    using assms(5,6,8) l by (auto simp: log_append_def Let_def push_cache_def drop_Suc tl_append split: list.splits)
  have n': "numbered (es @ [?e])" using a(1) by (simp add: log_inv_def)
  have seq: "unat (le_sequence (es ! i)) = Suc i" if "i < length es" for i using numbered_seq(2) [OF inv(1) that] .
  have us: "unat s = Suc (length es)"
    using numbered_seq(2) [OF n', of "length es"] by simp
  have old: "\<exists>i. 0 < i \<and> i < m \<and> x = es ! i" if x: "x \<in> set (drop 1 (take m es))" for x
  proof -
    from x obtain j where "j < length (drop 1 (take m es))" "x = drop 1 (take m es) ! j" by (metis in_set_conv_nth)
    then show ?thesis using assms(6) by (intro exI [of _ "Suc j"]) (simp add: add.commute)
  qed
  have above: "1 < le_sequence x" if "x \<in> set (sl_cache l')" for x
    using that old [of x] seq assms(6) us by (auto simp: c word_less_nat_alt)
  have len: "length (sl_cache l') = m" using assms(5,6) by (simp add: c)
  have hd: "le_sequence (hd (sl_cache l')) = 1 + 1"
  proof -
    have "hd (sl_cache l') = es ! 1" using assms(5,6) by (simp add: c hd_append hd_drop_conv_nth)
    then show ?thesis using numbered_seq(1) [OF inv(1), of 1] assms(5,6) by simp
  qed
  have "sl_cache l' \<noteq> []" by (simp add: c)
  with above len hd have g: "get_entries_after R C l' 1 m = sl_cache l'"
    by (simp add: get_entries_after_def Let_def)
  have "es ! m \<notin> set (sl_cache l')"
  proof
    assume "es ! m \<in> set (sl_cache l')"
    then consider "es ! m = ?e" | i where "i < m" "es ! m = es ! i" using old [of "es ! m"] by (auto simp: c)
    then show False using seq [of m] seq us assms(6) by cases (metis number_entry_sequence nat_neq_iff Suc_inject, metis nat_neq_iff Suc_inject order_less_trans)
  qed
  moreover have "1 < le_sequence (es ! m)" "le_sequence (es ! m) < s"
    using seq [OF assms(6)] us assms(5,6) by (simp_all add: word_less_nat_alt)
  moreover have "log_inv V C (l'\<lparr> sl_cache := [] \<rparr>) (es @ [?e])"
    using a(1) by (auto simp: log_inv_def intro!: exI [of _ "Suc (length es)"])
  ultimately show ?thesis by (simp add: g) (simp add: c)
qed

section \<open>An instance\<close>

instance sync_operation :: countable
  by countable_datatype

definition entry_tuple ::
    "log_entry \<Rightarrow> u64 \<times> string \<times> string \<times> string \<times> sync_operation \<times> string \<times> bytes option \<times> u64 \<times> u64 option" where
  "entry_tuple e = (le_sequence e, le_node_id e, le_database e, le_collection e, le_operation e, le_key e, le_data e,
     le_timestamp e, le_origin_sequence e)"

fun tuple_entry ::
    "u64 \<times> string \<times> string \<times> string \<times> sync_operation \<times> string \<times> bytes option \<times> u64 \<times> u64 option \<Rightarrow> log_entry" where
  "tuple_entry (s, n, d, c, op, k, v, t, q) = \<lparr> le_sequence = s, le_node_id = n, le_database = d, le_collection = c,
     le_operation = op, le_key = k, le_data = v, le_timestamp = t, le_origin_sequence = q \<rparr>"

definition demo_log_codec :: log_codec where
  "demo_log_codec = \<lparr> entry_to_vec = (\<lambda>e. demo_ser (entry_tuple e)),
     entry_from_slice = (\<lambda>b. Some (tuple_entry (demo_de b))) \<rparr>"

lemma demo_log_codec_ok: "log_codec_ok demo_log_codec"
  by (simp add: log_codec_ok_def demo_log_codec_def entry_tuple_def)

lemma mem_puts: "puts_succeed mem_rocks"
  by (simp add: puts_succeed_def mem_rocks_def)

definition demo_entry :: "string \<Rightarrow> log_entry" where
  "demo_entry k = \<lparr> le_sequence = 0, le_node_id = [], le_database = ''db'', le_collection = ''c'', le_operation = SyncInsert,
     le_key = k, le_data = None, le_timestamp = 0, le_origin_sequence = None \<rparr>"

lemma demo_log_reach:
  "\<exists>l. log_reach mem_rocks mem_view demo_log_codec l
    (number_entries ''n1'' 0 [demo_entry ''a'', demo_entry ''b'', demo_entry ''c''])"
proof -
  let ?l = "sync_log_new mem_rocks demo_log_codec ''n1'' [] 10"
  obtain s l' where b: "append_batch mem_rocks demo_log_codec [demo_entry ''a'', demo_entry ''b'', demo_entry ''c''] ?l = (s, l')"
    by fastforce
  have "log_reach mem_rocks mem_view demo_log_codec ?l []" by (rule log_reach.new) (simp add: mem_view_def)
  from log_reach.batch [OF this _ b] show ?thesis
    by (auto simp: sync_log_new_def load_cache_def)
qed

theorem sync_log_complete_witness:
  "\<exists>l. map le_key (get_entries_after mem_rocks demo_log_codec l 1 5) = [''b'', ''c''] \<and> sl_sequence l = 3"
proof -
  obtain l where l: "log_reach mem_rocks mem_view demo_log_codec l
    (number_entries ''n1'' 0 [demo_entry ''a'', demo_entry ''b'', demo_entry ''c''])" using demo_log_reach by blast
  from sync_log_complete [OF mem_rocks_ok demo_log_codec_ok mem_puts l, of 1 5] show ?thesis
    by (intro exI [of _ l]) (simp add: number_entry_def demo_entry_def Let_def)
qed

theorem restart_skips_entries_witness:
  "\<exists>d s l'. log_append mem_rocks demo_log_codec (demo_entry ''d'') (sync_log_new mem_rocks demo_log_codec ''n1'' d 2) = (s, l') \<and>
     map le_key (get_entries_after mem_rocks demo_log_codec l' 1 2) = [''b'', ''d'']"
proof -
  obtain l where l: "log_reach mem_rocks mem_view demo_log_codec l
    (number_entries ''n1'' 0 [demo_entry ''a'', demo_entry ''b'', demo_entry ''c''])" using demo_log_reach by blast
  obtain s l' where a: "log_append mem_rocks demo_log_codec (demo_entry ''d'')
      (sync_log_new mem_rocks demo_log_codec ''n1'' (sl_db l) 2) = (s, l')" by fastforce
  from restart_skips_entries [OF mem_rocks_ok demo_log_codec_ok mem_puts l _ _ _ a] a show ?thesis
    by (intro exI [of _ "sl_db l"] exI [of _ s] exI [of _ l']) (simp add: number_entry_def demo_entry_def Let_def)
qed

end
