(* ===== verification/SyncState.thy ===== *)
theory SyncState
  imports Engine SyncLog
begin

text \<open>
  The state of synchronisation, \<^verbatim>\<open>src/sync/state.rs\<close>: sequence numbers, peers and heartbeats in memory,
  persisted as two documents of the collection \<^verbatim>\<open>_sync\<close> of the system database. Times are numbers of
  the monotonic clock.
\<close>

section \<open>State\<close>

record node_stats =
  ns_cpu_usage :: u32
  ns_memory_used :: u64
  ns_disk_used :: u64
  ns_document_count :: u64
  ns_collections_count :: u32

record peer_info =
  pi_node_id :: string
  pi_sync_address :: string
  pi_http_address :: string
  pi_last_seen :: nat
  pi_is_connected :: bool

record sync_state =
  ss_node_id :: string
  ss_local_sequence :: u64
  ss_origin_sequences :: "(string, u64) smap"
  ss_sent_sequences :: "(string, u64) smap"
  ss_last_heartbeat :: "(string, nat) smap"
  ss_node_stats :: "(string, node_stats) smap"
  ss_peers :: "(string, peer_info) smap"

definition next_sequence :: "sync_state \<Rightarrow> u64 \<times> sync_state" where
  "next_sequence st = (ss_local_sequence st + 1, st\<lparr> ss_local_sequence := ss_local_sequence st + 1 \<rparr>)"

definition get_origin_sequence :: "sync_state \<Rightarrow> string \<Rightarrow> u64" where
  "get_origin_sequence st origin = smap_get_or 0 (ss_origin_sequences st) origin"

definition update_origin_sequence :: "string \<Rightarrow> u64 \<Rightarrow> sync_state \<Rightarrow> sync_state" where
  "update_origin_sequence origin s st =
     (if s > get_origin_sequence st origin
      then st\<lparr> ss_origin_sequences := smap_put origin s (ss_origin_sequences st) \<rparr> else st)"

definition is_duplicate :: "sync_state \<Rightarrow> string \<Rightarrow> u64 \<Rightarrow> bool" where
  "is_duplicate st origin s \<longleftrightarrow> get_origin_sequence st origin \<ge> s"

definition update_sent_sequence :: "string \<Rightarrow> u64 \<Rightarrow> sync_state \<Rightarrow> sync_state" where
  "update_sent_sequence peer s st = st\<lparr> ss_sent_sequences := smap_put peer s (ss_sent_sequences st) \<rparr>"

definition get_sent_sequence :: "sync_state \<Rightarrow> string \<Rightarrow> u64" where
  "get_sent_sequence st peer = smap_get_or 0 (ss_sent_sequences st) peer"

definition update_heartbeat :: "nat \<Rightarrow> string \<Rightarrow> node_stats \<Rightarrow> sync_state \<Rightarrow> sync_state" where
  "update_heartbeat now n stats st =
     st\<lparr> ss_last_heartbeat := smap_put n now (ss_last_heartbeat st),
         ss_node_stats := smap_put n stats (ss_node_stats st) \<rparr>"

definition dead_nodes :: "nat \<Rightarrow> nat \<Rightarrow> sync_state \<Rightarrow> string list" where
  "dead_nodes now max_age st = map fst (filter (\<lambda>p. now - snd p > max_age) (ss_last_heartbeat st))"

definition get_peers :: "sync_state \<Rightarrow> peer_info list" where
  "get_peers st = map snd (ss_peers st)"

definition add_peer :: "nat \<Rightarrow> string \<Rightarrow> string \<Rightarrow> string \<Rightarrow> sync_state \<Rightarrow> sync_state" where
  "add_peer now n sync_address http_address st =
     st\<lparr> ss_peers := smap_put n \<lparr> pi_node_id = n, pi_sync_address = sync_address, pi_http_address = http_address,
                                  pi_last_seen = now, pi_is_connected = False \<rparr> (ss_peers st) \<rparr>"

definition remove_peer :: "string \<Rightarrow> sync_state \<Rightarrow> sync_state" where
  "remove_peer n st =
     st\<lparr> ss_peers := smap_del n (ss_peers st), ss_last_heartbeat := smap_del n (ss_last_heartbeat st),
         ss_node_stats := smap_del n (ss_node_stats st), ss_sent_sequences := smap_del n (ss_sent_sequences st) \<rparr>"

definition set_peer_connected :: "nat \<Rightarrow> string \<Rightarrow> bool \<Rightarrow> sync_state \<Rightarrow> sync_state" where
  "set_peer_connected now n connected st =
     (case map_of (ss_peers st) n of
        None \<Rightarrow> st
      | Some p \<Rightarrow>
          (let p = p\<lparr> pi_is_connected := connected \<rparr>;
               p = (if connected then p\<lparr> pi_last_seen := now \<rparr> else p)
           in st\<lparr> ss_peers := smap_put n p (ss_peers st) \<rparr>))"

section \<open>Persistence\<close>

definition SYNC_COLLECTION :: string where "SYNC_COLLECTION = ''_sync''"
definition STATE_KEY :: string where "STATE_KEY = ''sync_state''"
definition PEERS_KEY :: string where "PEERS_KEY = ''peers''"

definition u64_json :: "u64 \<Rightarrow> json" where
  "u64_json n = JNumber (PosInt n)"

text \<open>The two documents; the fields of an object are in the order of a \<^verbatim>\<open>BTreeMap\<close>.\<close>

definition state_doc :: "sync_state \<Rightarrow> json" where
  "state_doc st = JObject
     [(''_key'', JString STATE_KEY),
      (''origin_sequences'', JObject (map (\<lambda>p. (fst p, u64_json (snd p))) (ss_origin_sequences st))),
      (''sequence'', u64_json (ss_local_sequence st))]"

definition peer_json :: "peer_info \<Rightarrow> json" where
  "peer_json p = JObject [(''http_address'', JString (pi_http_address p)), (''sync_address'', JString (pi_sync_address p))]"

definition peers_doc :: "sync_state \<Rightarrow> json" where
  "peers_doc st = JObject
     [(''_key'', JString PEERS_KEY), (''peers'', JObject (map (\<lambda>p. (fst p, peer_json (snd p))) (ss_peers st)))]"

text \<open>\<^verbatim>\<open>.ok()\<close>, \<^verbatim>\<open>if let Ok(..)\<close> and \<^verbatim>\<open>let _ = ..\<close>: an error is dropped, a panic is not.\<close>

definition etry :: "('e \<Rightarrow> 'a outcome \<times> 'e) \<Rightarrow> 'e \<Rightarrow> 'a option outcome \<times> 'e" where
  "etry m e = (case m e of (Done x, e') \<Rightarrow> (Done (Some x), e') | (Err _, e') \<Rightarrow> (Done None, e') | (Panic, e') \<Rightarrow> (Panic, e'))"

definition write_state ::
    "('db, 'v, 's, 'f) env \<Rightarrow> fresh \<Rightarrow> fresh \<Rightarrow> sync_state \<Rightarrow> nat \<Rightarrow> ('db, 'v, 's, 'f, unit) eact" where
  "write_state E fr1 fr2 st h =
     ebind (etry (with_handle h (coll_delete E STATE_KEY))) (\<lambda>_.
     ebind (etry (with_handle h (coll_insert E fr1 (state_doc st)))) (\<lambda>_.
     ebind (etry (with_handle h (coll_delete E PEERS_KEY))) (\<lambda>_.
     ebind (etry (with_handle h (coll_insert E fr2 (peers_doc st)))) (\<lambda>_ e. (Done (), e)))))"

definition persist ::
    "('db, 'v, 's, 'f) env \<Rightarrow> 'db cf_ops \<Rightarrow> fresh \<Rightarrow> fresh \<Rightarrow> sync_state \<Rightarrow> ('db, 'v, 's, 'f, unit) eact" where
  "persist E F fr1 fr2 st =
     ebind (etry (get_database E ''_system'')) (\<lambda>db.
       case db of
         None \<Rightarrow> (\<lambda>e. (Done (), e))
       | Some i \<Rightarrow>
           ebind (etry (db_get_collection E i SYNC_COLLECTION)) (\<lambda>c.
             case c of
               Some h \<Rightarrow> write_state E fr1 fr2 st h
             | None \<Rightarrow>
                 ebind (etry (db_create_collection E F i SYNC_COLLECTION None)) (\<lambda>_.
                 ebind (etry (db_get_collection E i SYNC_COLLECTION)) (\<lambda>c.
                   case c of Some h \<Rightarrow> write_state E fr1 fr2 st h | None \<Rightarrow> (\<lambda>e. (Done (), e))))))"

text \<open>What \<^verbatim>\<open>load\<close> makes of the two documents.\<close>

definition load_state :: "json \<Rightarrow> sync_state \<Rightarrow> sync_state" where
  "load_state data st =
     (case as_object data of
        None \<Rightarrow> st
      | Some obj \<Rightarrow>
          (let st = (case Option.bind (map_of obj ''sequence'') as_u64 of
                       Some s \<Rightarrow> st\<lparr> ss_local_sequence := s \<rparr> | None \<Rightarrow> st)
           in case Option.bind (map_of obj ''origin_sequences'') as_object of
                Some origins \<Rightarrow>
                  st\<lparr> ss_origin_sequences := foldl (\<lambda>m (k, v). case as_u64 v of Some s \<Rightarrow> smap_put k s m | None \<Rightarrow> m)
                        (ss_origin_sequences st) origins \<rparr>
              | None \<Rightarrow> st))"

definition str_field :: "json_obj \<Rightarrow> string \<Rightarrow> string" where
  "str_field obj k = (case Option.bind (map_of obj k) as_str of Some s \<Rightarrow> s | None \<Rightarrow> [])"

definition load_peers :: "nat \<Rightarrow> json \<Rightarrow> sync_state \<Rightarrow> sync_state" where
  "load_peers now data st =
     (case as_object data of
        None \<Rightarrow> st
      | Some peers \<Rightarrow>
          foldl (\<lambda>st (n, info). case as_object info of
                   None \<Rightarrow> st
                 | Some obj \<Rightarrow> add_peer now n (str_field obj ''sync_address'') (str_field obj ''http_address'') st) st peers)"

definition load ::
    "('db, 'v, 's, 'f) env \<Rightarrow> nat \<Rightarrow> sync_state \<Rightarrow> ('db, 'v, 's, 'f, sync_state) eact" where
  "load E now st =
     ebind (etry (ebind (get_database E ''_system'') (\<lambda>i. db_get_collection E i SYNC_COLLECTION))) (\<lambda>coll.
       case coll of
         None \<Rightarrow> (\<lambda>e. (Done st, e))
       | Some h \<Rightarrow>
           ebind (etry (with_handle h (\<lambda>c. (coll_get E STATE_KEY c, c)))) (\<lambda>state.
           ebind (etry (with_handle h (\<lambda>c. (coll_get E PEERS_KEY c, c)))) (\<lambda>peers e.
             (let st = (case state of Some d \<Rightarrow> load_state (doc_data d) st | None \<Rightarrow> st)
              in (Done (case peers of Some d \<Rightarrow> load_peers now (doc_data d) st | None \<Rightarrow> st), e)))))"

definition sync_state_new ::
    "('db, 'v, 's, 'f) env \<Rightarrow> nat \<Rightarrow> string \<Rightarrow> ('db, 'v, 's, 'f, sync_state) eact" where
  "sync_state_new E now n =
     load E now \<lparr> ss_node_id = n, ss_local_sequence = 0, ss_origin_sequences = [], ss_sent_sequences = [],
                  ss_last_heartbeat = [], ss_node_stats = [], ss_peers = [] \<rparr>"

end
