(* ===== verification/SyncWorker.thy ===== *)
theory SyncWorker
  imports SyncState EngineDb
begin

text \<open>
  Applying the entries of a peer, \<^verbatim>\<open>src/sync/worker.rs\<close>: a page of the peer's log is cut into batches,
  and every batch or entry is applied to the storage engine unless its origin and sequence number say
  that it has been applied before. The network exchange is an argument, the columnar store
  (\<^verbatim>\<open>src/storage/columnar.rs\<close>) a record of operations. Values that the writes of a batch draw (revisions and
  times) are paired with the entries.
\<close>

section \<open>State and results\<close>

datatype transport_error =
    ConnectionFailed string | AuthFailed string | IoError string | EncodeError string | DecodeError string
  | MessageTooLarge u32 | Disconnected

datatype 'a wresult = WOk 'a | WErr transport_error | WPanic

record ('db, 'v, 's, 'f) worker =
  wk_state :: sync_state
  wk_storage :: "('db, 'v, 's, 'f) engine"

type_synonym ('db, 'v, 's, 'f, 'a) wact =
  "('db, 'v, 's, 'f) worker \<Rightarrow> 'a wresult \<times> ('db, 'v, 's, 'f) worker"

definition wbind :: "('w \<Rightarrow> 'a wresult \<times> 'w) \<Rightarrow> ('a \<Rightarrow> 'w \<Rightarrow> 'b wresult \<times> 'w) \<Rightarrow> 'w \<Rightarrow> 'b wresult \<times> 'w" where
  "wbind m f w = (case m w of (WOk a, w') \<Rightarrow> f a w' | (WErr x, w') \<Rightarrow> (WErr x, w') | (WPanic, w') \<Rightarrow> (WPanic, w'))"

text \<open>A call of the engine whose error the worker drops, only reports, or tests for.\<close>

definition storage :: "('db, 'v, 's, 'f, 'a) eact \<Rightarrow> ('db, 'v, 's, 'f, 'a option) wact" where
  "storage m w =
     (case m (wk_storage w) of
        (Done a, e) \<Rightarrow> (WOk (Some a), w\<lparr> wk_storage := e \<rparr>)
      | (Err _, e) \<Rightarrow> (WOk None, w\<lparr> wk_storage := e \<rparr>)
      | (Panic, e) \<Rightarrow> (WPanic, w\<lparr> wk_storage := e \<rparr>))"

text \<open>\<^verbatim>\<open>if let Ok(x) = .. { .. }\<close>\<close>

definition if_ok :: "('db, 'v, 's, 'f, 'a) eact \<Rightarrow> ('a \<Rightarrow> ('db, 'v, 's, 'f, unit) wact) \<Rightarrow> ('db, 'v, 's, 'f, unit) wact" where
  "if_ok m f = wbind (storage m) (\<lambda>r. case r of Some x \<Rightarrow> f x | None \<Rightarrow> (\<lambda>w. (WOk (), w)))"

definition run_ignored :: "('db, 'v, 's, 'f, 'a) eact \<Rightarrow> ('db, 'v, 's, 'f, unit) wact" where
  "run_ignored m = wbind (storage m) (\<lambda>_ w. (WOk (), w))"

definition set_origin :: "sync_entry \<Rightarrow> ('db, 'v, 's, 'f) worker \<Rightarrow> ('db, 'v, 's, 'f) worker" where
  "set_origin en w = w\<lparr> wk_state := update_origin_sequence (se_origin_node en) (se_origin_sequence en) (wk_state w) \<rparr>"

definition seen :: "sync_state \<Rightarrow> sync_entry \<Rightarrow> bool" where
  "seen st en \<longleftrightarrow> is_duplicate st (se_origin_node en) (se_origin_sequence en)"

section \<open>Shard configuration of a collection\<close>

record shard_config =
  sc_num_shards :: u16
  sc_shard_key :: string
  sc_replication_factor :: u16

definition SHARD_CONFIG_KEY :: bytes where "SHARD_CONFIG_KEY = ''_stats:shard_config''"

definition set_shard_config ::
    "('db, 'v, 's, 'f) env \<Rightarrow> shard_config meta_codec \<Rightarrow> shard_config \<Rightarrow> ('db, 'v, 's, 'f, unit) act" where
  "set_shard_config E C config c =
     (case to_vec C config of
        Inl m \<Rightarrow> (Inl (JsonError m), c)
      | Inr b \<Rightarrow> db_write E ''Failed to store shard config: '' [Put SHARD_CONFIG_KEY b] c)"

definition get_shard_config ::
    "('db, 'v, 's, 'f) env \<Rightarrow> shard_config meta_codec \<Rightarrow> nat \<Rightarrow> ('db, 'v, 's, 'f) engine \<Rightarrow> shard_config option" where
  "get_shard_config E C h e =
     (case map_of (cfs e) (coll_name (handles e ! h)) of
        None \<Rightarrow> None
      | Some d \<Rightarrow> (case get_cf (env_db E) d SHARD_CONFIG_KEY of
                      Inr (Some b) \<Rightarrow> from_slice C b
                    | _ \<Rightarrow> None))"

section \<open>Data operations\<close>

text \<open>The test for the collection that holds a shard. A string is its UTF-8 bytes, and the last byte is a
  digit exactly when the last character is.\<close>

definition has_infix :: "string \<Rightarrow> string \<Rightarrow> bool" where
  "has_infix p s \<longleftrightarrow> (\<exists>i \<in> set [0..<length s + 1]. starts_with (drop i s) p)"

definition is_ascii_digit :: "char \<Rightarrow> bool" where
  "is_ascii_digit c \<longleftrightarrow> CHR ''0'' \<le> c \<and> c \<le> CHR ''9''"

definition is_physical_shard :: "string \<Rightarrow> bool" where
  "is_physical_shard coll \<longleftrightarrow> has_infix ''_s'' coll \<and> coll \<noteq> [] \<and> is_ascii_digit (last coll)"

definition ensure_database :: "('db, 'v, 's, 'f) env \<Rightarrow> string \<Rightarrow> ('db, 'v, 's, 'f, unit) wact" where
  "ensure_database E database =
     wbind (storage (get_database E database)) (\<lambda>r.
       case r of Some _ \<Rightarrow> (\<lambda>w. (WOk (), w)) | None \<Rightarrow> run_ignored (create_database E database))"

definition ensure_collection ::
    "('db, 'v, 's, 'f) env \<Rightarrow> 'db cf_ops \<Rightarrow> nat \<Rightarrow> string \<Rightarrow> ('db, 'v, 's, 'f, unit) wact" where
  "ensure_collection E F i collection =
     wbind (storage (db_get_collection E i collection)) (\<lambda>r.
       case r of Some _ \<Rightarrow> (\<lambda>w. (WOk (), w)) | None \<Rightarrow> run_ignored (db_create_collection E F i collection None))"

text \<open>\<^verbatim>\<open>upsert_batch\<close> on a handle refuses a time series before it looks for the column family.\<close>

definition upsert_handle ::
    "('db, 'v, 's, 'f) env \<Rightarrow> (fresh \<times> string \<times> json) list \<Rightarrow> nat \<Rightarrow> ('db, 'v, 's, 'f, nat) eact" where
  "upsert_handle E docs h e =
     (if docs = [] \<or> collection_type (handles e ! h) = ''timeseries''
      then (outcome_of (fst (upsert_batch E docs (handles e ! h))), e)
      else with_handle h (upsert_batch E docs) e)"

text \<open>The message of a parse error ends with the text of the parser, which is left out.\<close>

definition parse_document :: "('db, 'v, 's, 'f) env \<Rightarrow> string \<Rightarrow> bytes \<Rightarrow> transport_error + json" where
  "parse_document E msg data =
     (case value_from_slice (env_json E) data of None \<Rightarrow> Inl (DecodeError msg) | Some v \<Rightarrow> Inr v)"

text \<open>The documents of a batch: entries seen before and entries without data are skipped, and data that
  is not JSON ends the loop with an error.\<close>

fun batch_data ::
    "('db, 'v, 's, 'f) env \<Rightarrow> sync_state \<Rightarrow> (fresh \<times> sync_entry) list \<Rightarrow> transport_error + (fresh \<times> string \<times> json) list" where
  "batch_data E st [] = Inr []"
| "batch_data E st ((fr, en) # es) =
     (if seen st en then batch_data E st es
      else case se_document_data en of
             None \<Rightarrow> batch_data E st es
           | Some data \<Rightarrow>
               (case parse_document E ''Invalid document'' data of
                  Inl x \<Rightarrow> Inl x
                | Inr doc \<Rightarrow> (case batch_data E st es of
                                Inl x \<Rightarrow> Inl x
                              | Inr ds \<Rightarrow> Inr ((fr, se_document_key en, doc) # ds))))"

definition keys_to_delete :: "sync_state \<Rightarrow> (fresh \<times> sync_entry) list \<Rightarrow> string list" where
  "keys_to_delete st es = map (se_document_key \<circ> snd) (filter (\<lambda>p. \<not> seen st (snd p)) es)"

definition batch_upsert ::
    "('db, 'v, 's, 'f) env \<Rightarrow> string \<Rightarrow> string \<Rightarrow> (fresh \<times> sync_entry) list \<Rightarrow> ('db, 'v, 's, 'f, unit) wact" where
  "batch_upsert E database collection es =
     if_ok (get_database E database) (\<lambda>i.
     if_ok (db_get_collection E i collection) (\<lambda>h w.
       case batch_data E (wk_state w) es of
         Inl x \<Rightarrow> (WErr x, w)
       | Inr ds \<Rightarrow> if ds = [] then (WOk (), w) else run_ignored (upsert_handle E ds h) w))"

definition batch_delete ::
    "('db, 'v, 's, 'f) env \<Rightarrow> string \<Rightarrow> string \<Rightarrow> (fresh \<times> sync_entry) list \<Rightarrow> ('db, 'v, 's, 'f, unit) wact" where
  "batch_delete E database collection es =
     if_ok (get_database E database) (\<lambda>i.
     if_ok (db_get_collection E i collection) (\<lambda>h w.
       let ks = keys_to_delete (wk_state w) es
       in if ks = [] then (WOk (), w) else run_ignored (with_handle h (delete_batch E ks)) w))"

section \<open>Single entries\<close>

text \<open>The operations of a columnar collection, with the engine as their state; \<open>col_defs\<close> parses column
  definitions.\<close>

record ('e, 'c, 'd) col_ops =
  col_load :: "string \<Rightarrow> string \<Rightarrow> 'e \<Rightarrow> 'c outcome \<times> 'e"
  col_insert_row_with_id :: "'c \<Rightarrow> string \<Rightarrow> json \<Rightarrow> 'e \<Rightarrow> unit outcome \<times> 'e"
  col_delete_row :: "'c \<Rightarrow> string \<Rightarrow> 'e \<Rightarrow> unit outcome \<times> 'e"
  col_new :: "string \<Rightarrow> string \<Rightarrow> 'd \<Rightarrow> 'e \<Rightarrow> unit outcome \<times> 'e"
  col_drop :: "'c \<Rightarrow> 'e \<Rightarrow> unit outcome \<times> 'e"
  col_truncate :: "'c \<Rightarrow> 'e \<Rightarrow> unit outcome \<times> 'e"
  col_defs :: "bytes \<Rightarrow> 'd option"

type_synonym ('db, 'v, 's, 'f, 'c, 'd) columnar = "(('db, 'v, 's, 'f) engine, 'c, 'd) col_ops"

definition entry_upsert ::
    "('db, 'v, 's, 'f) env \<Rightarrow> 'db cf_ops \<Rightarrow> fresh \<Rightarrow> sync_entry \<Rightarrow> ('db, 'v, 's, 'f, unit) wact" where
  "entry_upsert E F fr en =
     (case se_document_data en of
        None \<Rightarrow> (\<lambda>w. (WOk (), w))
      | Some data \<Rightarrow>
          (case parse_document E ''Invalid document'' data of
             Inl x \<Rightarrow> (\<lambda>w. (WErr x, w))
           | Inr doc \<Rightarrow>
               wbind (ensure_database E (se_database en)) (\<lambda>_.
               if_ok (get_database E (se_database en)) (\<lambda>i.
               wbind (ensure_collection E F i (se_collection en)) (\<lambda>_.
               if_ok (db_get_collection E i (se_collection en)) (\<lambda>h.
                 run_ignored (upsert_handle E [(fr, se_document_key en, doc)] h)))))))"

definition entry_delete :: "('db, 'v, 's, 'f) env \<Rightarrow> sync_entry \<Rightarrow> ('db, 'v, 's, 'f, unit) wact" where
  "entry_delete E en =
     if_ok (get_database E (se_database en)) (\<lambda>i.
     if_ok (db_get_collection E i (se_collection en)) (\<lambda>h.
       run_ignored (with_handle h (coll_delete E (se_document_key en)))))"

definition shard_config_of :: "json \<Rightarrow> shard_config" where
  "shard_config_of v =
     \<lparr> sc_num_shards = ucast (case Option.bind (json_get v ''num_shards'') as_u64 of Some n \<Rightarrow> n | None \<Rightarrow> 1),
       sc_shard_key = (case Option.bind (json_get v ''shard_key'') as_str of Some s \<Rightarrow> s | None \<Rightarrow> ''_key''),
       sc_replication_factor =
         ucast (case Option.bind (json_get v ''replication_factor'') as_u64 of Some n \<Rightarrow> n | None \<Rightarrow> 1) \<rparr>"

definition entry_create_collection ::
    "('db, 'v, 's, 'f) env \<Rightarrow> 'db cf_ops \<Rightarrow> shard_config meta_codec \<Rightarrow> sync_entry \<Rightarrow> ('db, 'v, 's, 'f, unit) wact" where
  "entry_create_collection E F C en =
     if_ok (get_database E (se_database en)) (\<lambda>i.
       let metadata = Option.bind (se_document_data en) (value_from_slice (env_json E));
           ty = Option.bind (Option.bind metadata (\<lambda>m. json_get m ''type'')) as_str
       in if_ok (db_create_collection E F i (se_collection en) ty) (\<lambda>_.
            case Option.bind metadata (\<lambda>m. json_get m ''shardConfig'') of
              None \<Rightarrow> (\<lambda>w. (WOk (), w))
            | Some sc \<Rightarrow>
                if is_null sc then (\<lambda>w. (WOk (), w))
                else if_ok (db_get_collection E i (se_collection en)) (\<lambda>h.
                       run_ignored (with_handle h (set_shard_config E C (shard_config_of sc))))))"

definition shard_name :: "string \<Rightarrow> nat \<Rightarrow> string" where
  "shard_name coll k = coll @ ''_s'' @ show_nat k"

fun truncate_shards ::
    "('db, 'v, 's, 'f) env \<Rightarrow> nat \<Rightarrow> string \<Rightarrow> nat list \<Rightarrow> ('db, 'v, 's, 'f, unit) wact" where
  "truncate_shards E i coll [] = (\<lambda>w. (WOk (), w))"
| "truncate_shards E i coll (k # ks) =
     wbind (if_ok (db_get_collection E i (shard_name coll k)) (\<lambda>h. run_ignored (with_handle h (Crud.truncate E))))
       (\<lambda>_. truncate_shards E i coll ks)"

definition entry_truncate ::
    "('db, 'v, 's, 'f) env \<Rightarrow> shard_config meta_codec \<Rightarrow> sync_entry \<Rightarrow> ('db, 'v, 's, 'f, unit) wact" where
  "entry_truncate E C en =
     if_ok (get_database E (se_database en)) (\<lambda>i.
     if_ok (db_get_collection E i (se_collection en)) (\<lambda>h w.
       wbind (case get_shard_config E C h (wk_storage w) of
                None \<Rightarrow> (\<lambda>w. (WOk (), w))
              | Some sc \<Rightarrow> truncate_shards E i (se_collection en) [0..<unat (sc_num_shards sc)])
         (\<lambda>_. run_ignored (with_handle h (Crud.truncate E))) w))"

definition with_columnar ::
    "('db, 'v, 's, 'f) env \<Rightarrow> ('db, 'v, 's, 'f, 'c, 'd) columnar \<Rightarrow> sync_entry \<Rightarrow>
     ('c \<Rightarrow> ('db, 'v, 's, 'f, unit) eact) \<Rightarrow> ('db, 'v, 's, 'f, unit) wact" where
  "with_columnar E K en f =
     if_ok (get_database E (se_database en)) (\<lambda>_.
     if_ok (col_load K (se_collection en) (se_database en)) (\<lambda>col. run_ignored (f col)))"

definition columnar_insert ::
    "('db, 'v, 's, 'f) env \<Rightarrow> ('db, 'v, 's, 'f, 'c, 'd) columnar \<Rightarrow> sync_entry \<Rightarrow> ('db, 'v, 's, 'f, unit) wact" where
  "columnar_insert E K en =
     (case se_document_data en of
        None \<Rightarrow> (\<lambda>w. (WOk (), w))
      | Some data \<Rightarrow>
          (case parse_document E ''Invalid columnar row'' data of
             Inl x \<Rightarrow> (\<lambda>w. (WErr x, w))
           | Inr row \<Rightarrow>
               wbind (ensure_database E (se_database en)) (\<lambda>_.
                 with_columnar E K en (\<lambda>col. col_insert_row_with_id K col (se_document_key en) row))))"

definition columnar_create ::
    "('db, 'v, 's, 'f) env \<Rightarrow> ('db, 'v, 's, 'f, 'c, 'd) columnar \<Rightarrow> sync_entry \<Rightarrow> ('db, 'v, 's, 'f, unit) wact" where
  "columnar_create E K en =
     wbind (ensure_database E (se_database en)) (\<lambda>_.
     if_ok (get_database E (se_database en)) (\<lambda>_.
       case Option.bind (se_document_data en) (col_defs K) of
         None \<Rightarrow> (\<lambda>w. (WOk (), w))
       | Some columns \<Rightarrow> run_ignored (col_new K (se_collection en) (se_database en) columns)))"

fun run_operation ::
    "('db, 'v, 's, 'f) env \<Rightarrow> 'db cf_ops \<Rightarrow> shard_config meta_codec \<Rightarrow> ('db, 'v, 's, 'f, 'c, 'd) columnar \<Rightarrow>
     fresh \<Rightarrow> sync_entry \<Rightarrow> sync_operation \<Rightarrow> ('db, 'v, 's, 'f, unit) wact" where
  "run_operation E F C K fr en SyncInsert = entry_upsert E F fr en"
| "run_operation E F C K fr en SyncUpdate = entry_upsert E F fr en"
| "run_operation E F C K fr en SyncDelete = entry_delete E en"
| "run_operation E F C K fr en SyncCreateDatabase = run_ignored (create_database E (se_database en))"
| "run_operation E F C K fr en SyncDeleteDatabase = run_ignored (delete_database E F (se_database en))"
| "run_operation E F C K fr en SyncCreateCollection = entry_create_collection E F C en"
| "run_operation E F C K fr en SyncDeleteCollection =
     if_ok (get_database E (se_database en)) (\<lambda>i. run_ignored (db_delete_collection F i (se_collection en)))"
| "run_operation E F C K fr en SyncTruncateCollection = entry_truncate E C en"
| "run_operation E F C K fr en SyncPutBlobChunk = (\<lambda>w. (WOk (), w))"
| "run_operation E F C K fr en SyncDeleteBlob = (\<lambda>w. (WOk (), w))"
| "run_operation E F C K fr en SyncColumnarInsert = columnar_insert E K en"
| "run_operation E F C K fr en SyncColumnarDelete = with_columnar E K en (\<lambda>col. col_delete_row K col (se_document_key en))"
| "run_operation E F C K fr en SyncColumnarCreateCollection = columnar_create E K en"
| "run_operation E F C K fr en SyncColumnarDropCollection = with_columnar E K en (col_drop K)"
| "run_operation E F C K fr en SyncColumnarTruncate = with_columnar E K en (col_truncate K)"

definition apply_entry ::
    "('db, 'v, 's, 'f) env \<Rightarrow> 'db cf_ops \<Rightarrow> shard_config meta_codec \<Rightarrow> ('db, 'v, 's, 'f, 'c, 'd) columnar \<Rightarrow>
     fresh \<times> sync_entry \<Rightarrow> ('db, 'v, 's, 'f, unit) wact" where
  "apply_entry E F C K p w =
     (let en = snd p in
      if seen (wk_state w) en then (WOk (), w)
      else if is_physical_shard (se_collection en) then (WOk (), w)
      else wbind (run_operation E F C K (fst p) en (se_operation en)) (\<lambda>_ w. (WOk (), set_origin en w)) w)"

section \<open>Batches and pages\<close>

fun apply_entries ::
    "('db, 'v, 's, 'f) env \<Rightarrow> 'db cf_ops \<Rightarrow> shard_config meta_codec \<Rightarrow> ('db, 'v, 's, 'f, 'c, 'd) columnar \<Rightarrow>
     (fresh \<times> sync_entry) list \<Rightarrow> ('db, 'v, 's, 'f, unit) wact" where
  "apply_entries E F C K [] = (\<lambda>w. (WOk (), w))"
| "apply_entries E F C K (p # ps) = wbind (apply_entry E F C K p) (\<lambda>_. apply_entries E F C K ps)"

definition is_write :: "sync_operation \<Rightarrow> bool" where
  "is_write op \<longleftrightarrow> op = SyncInsert \<or> op = SyncUpdate"

definition is_data :: "sync_operation \<Rightarrow> bool" where
  "is_data op \<longleftrightarrow> is_write op \<or> op = SyncDelete"

text \<open>The two phases of a batch: make the collection exist for writes, then carry out the operation of the
  first entry.\<close>

definition prepare_batch ::
    "('db, 'v, 's, 'f) env \<Rightarrow> 'db cf_ops \<Rightarrow> sync_entry \<Rightarrow> ('db, 'v, 's, 'f, unit) wact" where
  "prepare_batch E F en =
     (if is_write (se_operation en)
      then wbind (ensure_database E (se_database en)) (\<lambda>_.
           if_ok (get_database E (se_database en)) (\<lambda>i. ensure_collection E F i (se_collection en)))
      else (\<lambda>w. (WOk (), w)))"

definition run_batch ::
    "('db, 'v, 's, 'f) env \<Rightarrow> 'db cf_ops \<Rightarrow> shard_config meta_codec \<Rightarrow> ('db, 'v, 's, 'f, 'c, 'd) columnar \<Rightarrow>
     sync_entry \<Rightarrow> (fresh \<times> sync_entry) list \<Rightarrow> ('db, 'v, 's, 'f, unit) wact" where
  "run_batch E F C K en es =
     (if is_write (se_operation en) then batch_upsert E (se_database en) (se_collection en) es
      else if se_operation en = SyncDelete then batch_delete E (se_database en) (se_collection en) es
      else apply_entries E F C K es)"

definition apply_batch ::
    "('db, 'v, 's, 'f) env \<Rightarrow> 'db cf_ops \<Rightarrow> shard_config meta_codec \<Rightarrow> ('db, 'v, 's, 'f, 'c, 'd) columnar \<Rightarrow>
     (fresh \<times> sync_entry) list \<Rightarrow> ('db, 'v, 's, 'f, unit) wact" where
  "apply_batch E F C K es w =
     (if es = [] then (WOk (), w)
      else if is_physical_shard (se_collection (snd (hd es))) then (WOk (), w)
      else wbind (prepare_batch E F (snd (hd es))) (\<lambda>_.
           wbind (run_batch E F C K (snd (hd es)) es) (\<lambda>_ w.
             (WOk (), fold (set_origin \<circ> snd) es w))) w)"

text \<open>The cut of a page: a batch is the longest run of entries with the database, collection and
  operation of its first one.\<close>

definition same_group :: "sync_entry \<Rightarrow> sync_entry \<Rightarrow> bool" where
  "same_group a b \<longleftrightarrow> se_database b = se_database a \<and> se_collection b = se_collection a \<and> se_operation b = se_operation a"

function apply_page ::
    "('db, 'v, 's, 'f) env \<Rightarrow> 'db cf_ops \<Rightarrow> shard_config meta_codec \<Rightarrow> ('db, 'v, 's, 'f, 'c, 'd) columnar \<Rightarrow>
     (fresh \<times> sync_entry) list \<Rightarrow> ('db, 'v, 's, 'f, unit) wact" where
  "apply_page E F C K [] w = (WOk (), w)"
| "apply_page E F C K (p # ps) w =
     (if is_data (se_operation (snd p)) then
        wbind (apply_batch E F C K (p # takeWhile (\<lambda>q. same_group (snd p) (snd q)) ps))
          (\<lambda>_. apply_page E F C K (dropWhile (\<lambda>q. same_group (snd p) (snd q)) ps)) w
      else wbind (apply_entry E F C K p) (\<lambda>_. apply_page E F C K ps) w)"
  by pat_completeness auto
termination
  by (relation "measure (\<lambda>(E, F, C, K, ps, w). length ps)") (auto simp: le_imp_less_Suc length_dropWhile_le)

definition max_sequence :: "sync_entry list \<Rightarrow> u64 option" where
  "max_sequence es = (if es = [] then None else Some (fold max (map se_sequence (tl es)) (se_sequence (hd es))))"

text \<open>The answer of the peer: an error of the connection, a page with the sequence number of the peer, or
  another message (\<open>None\<close>). The result is whether the peer has more entries.\<close>

definition incremental_sync ::
    "('db, 'v, 's, 'f) env \<Rightarrow> 'db cf_ops \<Rightarrow> shard_config meta_codec \<Rightarrow> ('db, 'v, 's, 'f, 'c, 'd) columnar \<Rightarrow>
     string \<Rightarrow> transport_error + ((fresh \<times> sync_entry) list \<times> u64) option \<Rightarrow> ('db, 'v, 's, 'f, bool) wact" where
  "incremental_sync E F C K peer_addr response w =
     (case response of
        Inl x \<Rightarrow> (WErr x, w)
      | Inr None \<Rightarrow> (WOk False, w)
      | Inr (Some (entries, current_sequence)) \<Rightarrow>
          (let after_seq = get_origin_sequence (wk_state w) peer_addr;
               latest = max_sequence (map snd entries)
           in wbind (apply_page E F C K entries) (\<lambda>_ w.
                (WOk (current_sequence > (case latest of Some m \<Rightarrow> m | None \<Rightarrow> after_seq)),
                 case latest of
                   Some m \<Rightarrow> if m > after_seq then w\<lparr> wk_state := update_origin_sequence peer_addr m (wk_state w) \<rparr> else w
                 | None \<Rightarrow> w)) w))"

end
