(* ===== verification/SyncStateCorrect.thy ===== *)
theory SyncStateCorrect
  imports SyncState
begin

text \<open>
  What a restart restores of the synchronisation state: the sequence numbers, but not the peers.
\<close>

section \<open>The stored documents\<close>

lemma stored_doc:
  assumes "rocks_ok (env_db E) V" "doc_codec_ok (env_doc E)" "coll_inv E V c" "insertable E V c fr (JObject ((''_key'', JString k) # obj))"
    "coll_insert E fr (JObject ((''_key'', JString k) # obj)) c = (Inr doc, c')" "smap_ok ((''_key'', JString k) # obj)"
  shows "coll_get E k c' = Inr doc" "doc_data doc = strip_system (JObject obj)" "doc_key_of doc = k"
proof -
  from insert_ok [OF assms(1,5)] obtain key data' where
    k: "take_key (fr_uuid fr) (JObject ((''_key'', JString k) # obj)) = Inr (key, data')" and
    doc: "doc = doc_with_key (fr_rev fr) (fr_now fr) (coll_name c) key data'" by metis
  have "smap_del ''_key'' ((''_key'', JString k) # obj) = obj"
    using assms(6) by (auto simp: smap_del_def filter_id_conv)
  with k have "key = k" "data' = JObject obj" by (simp_all add: take_key_def)
  note s = insert_steps [OF assms(1-3) assms(5) assms(4)]
  from coll_get_docs(1) [OF assms(1) s(3,1)] s(4) show "coll_get E k c' = Inr doc"
    by (simp add: doc \<open>key = k\<close> doc_with_key_def)
  show "doc_data doc = strip_system (JObject obj)" "doc_key_of doc = k"
    by (simp_all add: doc \<open>data' = _\<close> \<open>key = k\<close> doc_with_key_def)
qed



lemmas strip_simps = system_fields_def smap_del_def

section \<open>Restart\<close>


text \<open>
  The peers do not survive a restart. \<^verbatim>\<open>persist\<close> stores them under the field \<open>peers\<close> of a document, and
  \<^verbatim>\<open>load\<close> takes the fields of that document for the peers: whatever the peers were, loading adds one peer
  with the name \<open>peers\<close> and empty addresses, and none of them.
\<close>
theorem peers_not_restored:
  assumes "rocks_ok (env_db E) V" "doc_codec_ok (env_doc E)" "coll_inv E V c" "insertable E V c fr (peers_doc st)"
    "coll_insert E fr (peers_doc st) c = (Inr doc, c')"
  shows "coll_get E PEERS_KEY c' = Inr doc \<and> load_peers now (doc_data doc) st0 = add_peer now ''peers'' [] [] st0"
proof -
  note d = stored_doc [OF assms(1-3) assms(4,5) [unfolded peers_doc_def]]
  have "as_str v = None" if "map_of (map (\<lambda>p. (fst p, peer_json (snd p))) (ss_peers st)) k = Some v" for k v
    using map_of_SomeD [OF that] by (auto simp: peer_json_def)
  then have "str_field (map (\<lambda>p. (fst p, peer_json (snd p))) (ss_peers st)) k = []" for k
    by (auto simp: str_field_def split: option.split bind_splits)
  with d show ?thesis by (simp add: strip_simps load_peers_def)
qed

text \<open>A node that has received five entries from a peer.\<close>

definition new_sync_state :: "string \<Rightarrow> sync_state" where
  "new_sync_state n = \<lparr> ss_node_id = n, ss_local_sequence = 0, ss_origin_sequences = [], ss_sent_sequences = [],
     ss_last_heartbeat = [], ss_node_stats = [], ss_peers = [] \<rparr>"

definition demo_sync_state :: sync_state where
  "demo_sync_state = add_peer 3 ''n2'' ''10.0.0.2:6746'' ''10.0.0.2:8080''
     (update_origin_sequence ''n2'' 5 ((new_sync_state ''n1'')\<lparr> ss_local_sequence := 7 \<rparr>))"

lemma demo_stored:
  assumes "data = JObject ((''_key'', JString k) # obj)" "key_ok k"
  obtains doc c' where "insertable demo_env mem_view demo_coll (demo_fresh 1) data"
    "coll_insert demo_env (demo_fresh 1) data demo_coll = (Inr doc, c')"
proof -
  have t: "take_key (fr_uuid (demo_fresh 1)) data = Inr (k, JObject (smap_del ''_key'' ((''_key'', JString k) # obj)))"
    by (simp add: take_key_def assms(1))
  from demo_insert [OF this] obtain doc c' where "coll_insert demo_env (demo_fresh 1) data demo_coll = (Inr doc, c')" by blast
  moreover have "insertable demo_env mem_view demo_coll (demo_fresh 1) data"
    using t assms(2) demo_coll_inv(2) by (simp add: insertable_def)
  ultimately show ?thesis using that by blast
qed


theorem peers_not_restored_witness:
  "\<exists>doc c'. coll_insert demo_env (demo_fresh 1) (peers_doc demo_sync_state) demo_coll = (Inr doc, c') \<and>
     map fst (ss_peers demo_sync_state) = [''n2''] \<and>
     map fst (ss_peers (load_peers 9 (doc_data doc) (new_sync_state ''n1''))) = [''peers'']"
proof -
  have k: "key_ok PEERS_KEY" by (simp add: key_ok_def PEERS_KEY_def)
  from demo_stored [OF peers_doc_def k, of demo_sync_state] obtain doc c' where
    i: "insertable demo_env mem_view demo_coll (demo_fresh 1) (peers_doc demo_sync_state)" and
    c: "coll_insert demo_env (demo_fresh 1) (peers_doc demo_sync_state) demo_coll = (Inr doc, c')" .
  from peers_not_restored [OF _ _ demo_coll_inv(1) i c, of 9 "new_sync_state ''n1''"] c show ?thesis
    by (auto simp: mem_rocks_ok demo_doc_codec_ok add_peer_def new_sync_state_def demo_sync_state_def
        update_origin_sequence_def)
qed

end
