(* ===== verification/SyncWorkerCorrect.thy ===== *)
theory SyncWorkerCorrect
  imports SyncWorker SyncStateCorrect
begin

text \<open>
  What applying the log of a peer guarantees: sequence numbers only grow, a page is processed to its end
  and marks its entries, applying it again changes nothing; and which entries are marked although they
  were not applied.
\<close>

section \<open>Relations kept by the steps of a worker\<close>

definition always :: "('w \<Rightarrow> 'w \<Rightarrow> bool) \<Rightarrow> ('w \<Rightarrow> 'a wresult \<times> 'w) \<Rightarrow> bool" where
  "always rel m \<longleftrightarrow> (\<forall>w. rel w (snd (m w)))"

lemma alwaysI: "(\<And>w. rel w (snd (m w))) \<Longrightarrow> always rel m"
  by (simp add: always_def)

lemma alwaysD: "always rel m \<Longrightarrow> m w = (r, w') \<Longrightarrow> rel w w'"
  unfolding always_def by (metis snd_conv)

locale worker_order =
  fixes rel :: "('db, 'v, 's, 'f) worker \<Rightarrow> ('db, 'v, 's, 'f) worker \<Rightarrow> bool"
  assumes rel_refl: "rel w w"
    and rel_trans: "rel w1 w2 \<Longrightarrow> rel w2 w3 \<Longrightarrow> rel w1 w3"
begin

lemma always_ret: "always rel (\<lambda>w. (r, w))"
  by (rule alwaysI) (simp add: rel_refl)

lemma always_wbind:
  assumes "always rel m" "\<And>a. always rel (f a)"
  shows "always rel (wbind m f)"
proof (rule alwaysI)
  fix w
  obtain r w1 where 1: "m w = (r, w1)" by fastforce
  note rel1 = alwaysD [OF assms(1) 1]
  show "rel w (snd (wbind m f w))"
  proof (cases r)
    case (WOk a)
    then show ?thesis using rel_trans [OF rel1] assms(2) [of a] 1 by (simp add: wbind_def always_def)
  qed (use 1 rel1 in \<open>simp_all add: wbind_def\<close>)
qed

lemma always_if_ok: "always rel (storage m) \<Longrightarrow> (\<And>a. always rel (f a)) \<Longrightarrow> always rel (if_ok m f)"
  unfolding if_ok_def by (intro always_wbind) (auto intro: always_ret split: option.split)

lemma always_run: "always rel (storage m) \<Longrightarrow> always rel (run_ignored m)"
  unfolding run_ignored_def by (intro always_wbind always_ret)

end

section \<open>Sequence numbers\<close>

definition same_state :: "('db, 'v, 's, 'f) worker \<Rightarrow> ('db, 'v, 's, 'f) worker \<Rightarrow> bool" where
  "same_state w w' \<longleftrightarrow> wk_state w' = wk_state w"

definition origins_grow :: "('db, 'v, 's, 'f) worker \<Rightarrow> ('db, 'v, 's, 'f) worker \<Rightarrow> bool" where
  "origins_grow w w' \<longleftrightarrow> (smap_ok (ss_origin_sequences (wk_state w)) \<longrightarrow> smap_ok (ss_origin_sequences (wk_state w')) \<and>
     (\<forall>n. get_origin_sequence (wk_state w) n \<le> get_origin_sequence (wk_state w') n))"

interpretation st: worker_order same_state
  by unfold_locales (simp_all add: same_state_def)

interpretation og: worker_order origins_grow
  by unfold_locales (auto simp: origins_grow_def intro: order_trans)

lemma storage_same_state: "always same_state (storage m)"
  by (rule alwaysI) (auto simp: storage_def same_state_def split: prod.split outcome.split)

lemmas same_state_rules = st.always_ret st.always_wbind st.always_if_ok st.always_run storage_same_state

lemma ensure_same_state:
  "always same_state (ensure_database E n)" "always same_state (ensure_collection E F i c)"
  by (auto simp: ensure_database_def ensure_collection_def intro!: same_state_rules split: option.split)

lemma truncate_shards_same_state: "always same_state (truncate_shards E i c ks)"
  by (induction ks) (auto intro!: same_state_rules)

lemma get_origin_update:
  assumes "smap_ok (ss_origin_sequences st)"
  shows "get_origin_sequence (update_origin_sequence o1 s st) n =
    (if n = o1 then max s (get_origin_sequence st n) else get_origin_sequence st n)"
  using assms by (auto simp: update_origin_sequence_def get_origin_sequence_def smap_get_or_def max_def)

lemma update_origin_ok: "smap_ok (ss_origin_sequences st) \<Longrightarrow> smap_ok (ss_origin_sequences (update_origin_sequence o1 s st))"
  by (simp add: update_origin_sequence_def)

lemma update_origin_old: "s \<le> get_origin_sequence st o1 \<Longrightarrow> update_origin_sequence o1 s st = st"
  by (simp add: update_origin_sequence_def)

lemma columnar_same_state:
  "always same_state (with_columnar E K en f)" "always same_state (columnar_insert E K en)"
  "always same_state (columnar_create E K en)"
  by (auto simp: with_columnar_def columnar_insert_def columnar_create_def
      intro!: same_state_rules ensure_same_state split: option.split sum.split)

lemma entry_truncate_same_state: "always same_state (entry_truncate E C en)"
proof -
  have "always same_state (wbind (case sc of None \<Rightarrow> (\<lambda>w. (WOk (), w))
      | Some sc \<Rightarrow> truncate_shards E i c [0..<unat (sc_num_shards sc)]) (\<lambda>_. run_ignored (with_handle h (Crud.truncate E))))" for sc :: "shard_config option" and i c h
    by (auto intro!: same_state_rules truncate_shards_same_state split: option.split)
  then show ?thesis
    unfolding entry_truncate_def by (intro st.always_if_ok storage_same_state) (simp add: always_def)
qed

lemma run_operation_same_state: "always same_state (run_operation E F C K fr en op)"
  by (cases op)
    (auto simp: entry_upsert_def entry_delete_def entry_create_collection_def Let_def
      intro!: same_state_rules ensure_same_state columnar_same_state entry_truncate_same_state
      split: option.split sum.split)

lemma same_state_grow: "always same_state m \<Longrightarrow> always origins_grow m"
  by (auto simp: always_def same_state_def origins_grow_def)

lemma set_origin_grow: "origins_grow w (set_origin en w)"
  by (simp add: origins_grow_def set_origin_def get_origin_update update_origin_ok)

lemma fold_set_origin_grow: "origins_grow w (fold (set_origin \<circ> snd) es w)"
  by (induction es arbitrary: w) (auto intro: og.rel_refl og.rel_trans [OF set_origin_grow])

lemma apply_entry_grow: "always origins_grow (apply_entry E F C K p)"
proof -
  have "always origins_grow (wbind (run_operation E F C K (fst p) en op) (\<lambda>_ w. (WOk (), set_origin en w)))" for en op
    by (rule og.always_wbind [OF same_state_grow [OF run_operation_same_state]]) (simp add: always_def set_origin_grow)
  then show ?thesis by (auto simp: always_def apply_entry_def Let_def og.rel_refl)
qed

lemma apply_entries_grow: "always origins_grow (apply_entries E F C K ps)"
  by (induction ps) (auto intro!: og.always_ret og.always_wbind apply_entry_grow)

lemma batch_writes_same_state:
  "always same_state (batch_upsert E d c es)" "always same_state (batch_delete E d c es)"
proof -
  have u: "always same_state (\<lambda>w. case batch_data E (wk_state w) es of Inl x \<Rightarrow> (WErr x, w)
      | Inr ds \<Rightarrow> if ds = [] then (WOk (), w) else run_ignored (upsert_handle E ds h) w)" for h
    using st.always_run [OF storage_same_state] by (auto simp: always_def st.rel_refl split: sum.split)
  have k: "always same_state (\<lambda>w. let ks = keys_to_delete (wk_state w) es
       in if ks = [] then (WOk (), w) else run_ignored (with_handle h (delete_batch E ks)) w)" for h
    using st.always_run [OF storage_same_state] by (auto simp: always_def st.rel_refl Let_def)
  show "always same_state (batch_upsert E d c es)"
    unfolding batch_upsert_def by (intro st.always_if_ok storage_same_state u)
  show "always same_state (batch_delete E d c es)"
    unfolding batch_delete_def by (intro st.always_if_ok storage_same_state k)
qed

lemma prepare_same_state: "always same_state (prepare_batch E F en)"
  by (auto simp: prepare_batch_def intro!: same_state_rules ensure_same_state)

lemma run_batch_grow: "always origins_grow (run_batch E F C K en es)"
  by (auto simp: run_batch_def intro: apply_entries_grow same_state_grow batch_writes_same_state)

lemma apply_batch_grow: "always origins_grow (apply_batch E F C K es)"
proof -
  have "always origins_grow (wbind (prepare_batch E F en) (\<lambda>_. wbind (run_batch E F C K en es)
      (\<lambda>_ w. (WOk (), fold (set_origin \<circ> snd) es w))))" for en
    by (intro og.always_wbind run_batch_grow same_state_grow [OF prepare_same_state])
      (simp add: always_def fold_set_origin_grow)
  then show ?thesis by (simp add: always_def apply_batch_def og.rel_refl)
qed

lemma apply_page_grow: "always origins_grow (apply_page E F C K ps)"
proof (induction "length ps" arbitrary: ps rule: less_induct)
  case less
  show ?case
  proof (cases ps)
    case (Cons p qs)
    have "always origins_grow (wbind (apply_batch E F C K (p # ts)) (\<lambda>_. apply_page E F C K (dropWhile P qs)))" for ts P
      by (intro og.always_wbind apply_batch_grow less) (simp add: Cons length_dropWhile_le le_imp_less_Suc)
    moreover have "always origins_grow (wbind (apply_entry E F C K p) (\<lambda>_. apply_page E F C K qs))"
      by (intro og.always_wbind apply_entry_grow less) (simp add: Cons)
    ultimately show ?thesis by (auto simp: Cons always_def)
  qed (simp add: always_def og.rel_refl)
qed

section \<open>Entries are marked\<close>

lemma seen_iff: "seen st en \<longleftrightarrow> se_origin_sequence en \<le> get_origin_sequence st (se_origin_node en)"
  by (simp add: seen_def is_duplicate_def)

lemma seen_grow:
  assumes "origins_grow w w'" "smap_ok (ss_origin_sequences (wk_state w))" "seen (wk_state w) en"
  shows "seen (wk_state w') en"
  using assms by (auto simp: origins_grow_def seen_iff intro: order_trans)

lemma set_origin_seen:
  "smap_ok (ss_origin_sequences (wk_state w)) \<Longrightarrow> seen (wk_state (set_origin en w)) en"
  by (simp add: seen_iff set_origin_def get_origin_update)

lemma fold_set_origin_seen:
  assumes "smap_ok (ss_origin_sequences (wk_state w))" "p \<in> set es"
  shows "seen (wk_state (fold (set_origin \<circ> snd) es w)) (snd p)"
  using assms
proof (induction es arbitrary: w)
  case (Cons q es)
  have ok: "smap_ok (ss_origin_sequences (wk_state (set_origin (snd q) w)))"
    using Cons.prems(1) by (simp add: set_origin_def update_origin_ok)
  show ?case
  proof (cases "p = q")
    case True
    with seen_grow [OF fold_set_origin_grow ok set_origin_seen [OF Cons.prems(1)]] show ?thesis by (simp add: comp_def)
  qed (use Cons ok in \<open>simp add: comp_def\<close>)
qed simp

lemma fold_set_origin_old:
  "\<forall>p \<in> set es. seen (wk_state w) (snd p) \<Longrightarrow> fold (set_origin \<circ> snd) es w = w"
  by (induction es) (auto simp: set_origin_def seen_iff update_origin_old)

lemma wbind_WOk: "wbind m f w = (WOk b, w') \<longleftrightarrow> (\<exists>a w1. m w = (WOk a, w1) \<and> f a w1 = (WOk b, w'))"
  by (auto simp: wbind_def split: prod.splits wresult.splits)

lemma apply_entry_marks:
  assumes "smap_ok (ss_origin_sequences (wk_state w))" "apply_entry E F C K p w = (WOk (), w')"
    "\<not> is_physical_shard (se_collection (snd p))"
  shows "seen (wk_state w') (snd p)"
proof (cases "seen (wk_state w) (snd p)")
  case False
  with assms(2,3) obtain u w1 where
    1: "run_operation E F C K (fst p) (snd p) (se_operation (snd p)) w = (WOk u, w1)" and w': "w' = set_origin (snd p) w1"
    by (auto simp: apply_entry_def Let_def wbind_WOk)
  have "wk_state w1 = wk_state w" using alwaysD [OF run_operation_same_state 1] by (simp add: same_state_def)
  then show ?thesis unfolding w' using assms(1) by (simp add: set_origin_seen)
qed (use assms in \<open>simp add: apply_entry_def\<close>)

lemma apply_batch_marks:
  assumes "smap_ok (ss_origin_sequences (wk_state w))" "apply_batch E F C K es w = (WOk (), w')"
    "\<not> is_physical_shard (se_collection (snd (hd es)))" "p \<in> set es"
  shows "seen (wk_state w') (snd p)"
proof -
  have "es \<noteq> []" using assms(4) by auto
  with assms(2,3) obtain w1 w2 where 1: "prepare_batch E F (snd (hd es)) w = (WOk (), w1)" and
    2: "run_batch E F C K (snd (hd es)) es w1 = (WOk (), w2)" and w': "w' = fold (set_origin \<circ> snd) es w2"
    by (auto simp: apply_batch_def wbind_WOk)
  have "origins_grow w w2"
    using alwaysD [OF same_state_grow [OF prepare_same_state] 1] alwaysD [OF run_batch_grow 2] by (rule og.rel_trans)
  with assms(1) have "smap_ok (ss_origin_sequences (wk_state w2))" by (simp add: origins_grow_def)
  from fold_set_origin_seen [OF this assms(4)] show ?thesis by (simp add: w')
qed

lemma apply_page_marks:
  assumes "smap_ok (ss_origin_sequences (wk_state w))" "apply_page E F C K ps w = (WOk (), w')"
    "p \<in> set ps" "\<not> is_physical_shard (se_collection (snd p))"
  shows "seen (wk_state w') (snd p)"
  using assms
proof (induction "length ps" arbitrary: ps w rule: less_induct)
  case less
  from less.prems(3) obtain q qs where ps: "ps = q # qs" by (cases ps) auto
  define g where "g = (\<lambda>r :: fresh \<times> sync_entry. same_group (snd q) (snd r))"
  define m where "m = (if is_data (se_operation (snd q)) then apply_batch E F C K (q # takeWhile g qs) else apply_entry E F C K q)"
  define rest where "rest = (if is_data (se_operation (snd q)) then dropWhile g qs else qs)"
  have shorter: "length rest < length ps" by (simp add: rest_def ps length_dropWhile_le le_imp_less_Suc)
  from less.prems(2) obtain w1 where 1: "m w = (WOk (), w1)" and 2: "apply_page E F C K rest w1 = (WOk (), w')"
    by (auto simp: ps m_def rest_def g_def wbind_WOk split: if_splits)
  have "always origins_grow m" by (simp add: m_def apply_batch_grow apply_entry_grow)
  then have grow: "origins_grow w w1" using 1 by (rule alwaysD)
  then have ok: "smap_ok (ss_origin_sequences (wk_state w1))" using less.prems(1) by (simp add: origins_grow_def)
  show ?case
  proof (cases "p \<in> set rest")
    case True
    from less.hyps [OF shorter ok 2 True less.prems(4)] show ?thesis .
  next
    case False
    have "seen (wk_state w1) (snd p)"
    proof (cases "is_data (se_operation (snd q))")
      case True
      have "set qs = set (takeWhile g qs) \<union> set (dropWhile g qs)"
        by (simp only: set_append [symmetric] takeWhile_dropWhile_id)
      with True False less.prems(3) have in_batch: "p \<in> set (q # takeWhile g qs)" by (auto simp: ps rest_def)
      then have "se_collection (snd p) = se_collection (snd q)"
        by (auto simp: g_def same_group_def dest: set_takeWhileD)
      with apply_batch_marks [OF less.prems(1) _ _ in_batch] 1 True less.prems(4) show ?thesis by (simp add: m_def)
    next
      case no: False
      then have "p = q" using False less.prems(3) by (simp add: ps rest_def)
      with apply_entry_marks [OF less.prems(1)] 1 no less.prems(4) show ?thesis by (simp add: m_def)
    qed
    with seen_grow [OF alwaysD [OF apply_page_grow 2] ok] show ?thesis by blast
  qed
qed

lemma fold_max_start: "a \<le> fold max xs (a :: u64)"
  by (induction xs arbitrary: a) (auto intro: order_trans [OF max.cobounded2])

lemma fold_max_elem: "x \<in> set xs \<Longrightarrow> x \<le> fold max xs (a :: u64)"
  by (induction xs arbitrary: a) (auto intro: order_trans [OF max.cobounded1 fold_max_start])

lemma max_sequence_ge: "max_sequence es = Some m \<Longrightarrow> en \<in> set es \<Longrightarrow> se_sequence en \<le> m"
  by (cases es) (auto simp: max_sequence_def intro: fold_max_start fold_max_elem)

lemma incremental_sync_steps:
  assumes "smap_ok (ss_origin_sequences (wk_state w))"
    "incremental_sync E F C K peer (Inr (Some (es, cur))) w = (WOk mo, w')"
  obtains w1 where "apply_page E F C K es w = (WOk (), w1)" "origins_grow w w1" "origins_grow w1 w'"
    "\<forall>p \<in> set es. se_sequence (snd p) \<le> get_origin_sequence (wk_state w') peer"
    "\<not> mo \<longrightarrow> cur \<le> get_origin_sequence (wk_state w') peer"
proof -
  let ?a = "get_origin_sequence (wk_state w) peer" and ?l = "max_sequence (map snd es)"
  from assms(2) obtain w1 where 1: "apply_page E F C K es w = (WOk (), w1)" and
    mo: "mo \<longleftrightarrow> cur > (case ?l of Some m \<Rightarrow> m | None \<Rightarrow> ?a)" and
    w': "w' = (case ?l of Some m \<Rightarrow> if m > ?a then w1\<lparr> wk_state := update_origin_sequence peer m (wk_state w1) \<rparr> else w1
               | None \<Rightarrow> w1)"
    by (auto simp: incremental_sync_def Let_def wbind_WOk)
  note g1 = alwaysD [OF apply_page_grow 1]
  then have ok: "smap_ok (ss_origin_sequences (wk_state w1))" and ge: "?a \<le> get_origin_sequence (wk_state w1) peer"
    using assms(1) by (simp_all add: origins_grow_def)
  have g2: "origins_grow w1 w'"
    unfolding w' using ok by (auto simp: origins_grow_def get_origin_update update_origin_ok split: option.split)
  have top: "(case ?l of Some m \<Rightarrow> m | None \<Rightarrow> ?a) \<le> get_origin_sequence (wk_state w') peer"
    unfolding w' using ok ge by (auto simp: get_origin_update not_less split: option.split)
  have "se_sequence (snd p) \<le> get_origin_sequence (wk_state w') peer" if "p \<in> set es" for p
  proof -
    from that obtain m where m: "?l = Some m" by (cases es) (auto simp: max_sequence_def)
    from max_sequence_ge [OF m, of "snd p"] that top m show ?thesis by (auto intro: order_trans)
  qed
  with that [OF 1 g1 g2] mo top show ?thesis by (auto simp: not_less intro: order_trans)
qed

section \<open>Redelivery\<close>

text \<open>What a worker does when all the entries of a set are settled: its sequence numbers stay, and so do
  the contents of every collection.\<close>

definition settled :: "sync_state \<Rightarrow> sync_entry \<Rightarrow> bool" where
  "settled st en \<longleftrightarrow> seen st en \<or> is_physical_shard (se_collection en)"

definition families_kept :: "('db, 'v, 's, 'f) engine \<Rightarrow> ('db, 'v, 's, 'f) engine \<Rightarrow> bool" where
  "families_kept e e' \<longleftrightarrow> (\<forall>n d. n \<noteq> META_CF \<longrightarrow> map_of (cfs e) n = Some d \<longrightarrow> map_of (cfs e') n = Some d)"

definition quiet :: "sync_entry set \<Rightarrow> ('db, 'v, 's, 'f) worker \<Rightarrow> ('db, 'v, 's, 'f) worker \<Rightarrow> bool" where
  "quiet S w w' \<longleftrightarrow> (\<forall>en \<in> S. settled (wk_state w) en) \<longrightarrow>
     wk_state w' = wk_state w \<and> families_kept (wk_storage w) (wk_storage w')"

interpretation qt: worker_order "quiet S" for S
  by unfold_locales (auto simp: quiet_def families_kept_def)

lemma storage_quiet: "(\<And>e. families_kept e (snd (m e))) \<Longrightarrow> always (quiet S) (storage m)"
  by (rule alwaysI) (auto simp: storage_def quiet_def split: prod.split outcome.split, (metis snd_conv)+)

lemma engine_kept:
  "families_kept e (snd (get_database E n e))" "families_kept e (snd (db_get_collection E i c e))"
  "families_kept e (snd (create_database E n e))" "families_kept e (snd (db_create_collection E F i c ty e))"
  by (auto simp: families_kept_def get_database_def db_get_collection_def create_database_def write_meta_def
      map_of_cf_put db_create_collection_def new_family_def Let_def map_add_def
      split: option.splits sum.splits)

lemmas quiet_rules = qt.always_ret qt.always_wbind qt.always_if_ok qt.always_run storage_quiet engine_kept

lemma prepare_quiet: "always (quiet S) (prepare_batch E F en)"
  by (auto simp: prepare_batch_def ensure_database_def ensure_collection_def intro!: quiet_rules split: option.split)

lemma batch_data_seen: "\<forall>p \<in> set es. seen st (snd p) \<Longrightarrow> batch_data E st es = Inr [] \<and> keys_to_delete st es = []"
  by (induction es) (auto simp: keys_to_delete_def)

lemma settled_batch:
  assumes "\<forall>en \<in> S. settled st en" "snd ` set es \<subseteq> S" "\<forall>p \<in> set es. \<not> is_physical_shard (se_collection (snd p))"
  shows "\<forall>p \<in> set es. seen st (snd p)"
  using assms by (auto simp: settled_def)

lemma apply_entry_quiet: "snd p \<in> S \<Longrightarrow> always (quiet S) (apply_entry E F C K p)"
  by (auto simp: always_def quiet_def apply_entry_def settled_def families_kept_def Let_def)

lemma apply_entries_quiet: "snd ` set ps \<subseteq> S \<Longrightarrow> always (quiet S) (apply_entries E F C K ps)"
  by (induction ps) (auto intro!: qt.always_ret qt.always_wbind apply_entry_quiet)

lemma run_batch_quiet:
  assumes "snd ` set es \<subseteq> S" "\<forall>p \<in> set es. \<not> is_physical_shard (se_collection (snd p))"
  shows "always (quiet S) (run_batch E F C K en es)"
proof -
  have *: "\<forall>en \<in> S. settled st en \<Longrightarrow> batch_data E st es = Inr [] \<and> keys_to_delete st es = []" for st
    using batch_data_seen [of es st E] settled_batch [OF _ assms] by blast
  have "quiet S w (snd (case batch_data E (wk_state w) es of Inl x \<Rightarrow> (WErr x, w)
      | Inr ds \<Rightarrow> if ds = [] then (WOk (), w) else run_ignored (upsert_handle E ds h) w))" for w h
    using * [of "wk_state w"] by (auto simp: quiet_def families_kept_def)
  then have u: "always (quiet S) (\<lambda>w. case batch_data E (wk_state w) es of Inl x \<Rightarrow> (WErr x, w)
      | Inr ds \<Rightarrow> if ds = [] then (WOk (), w) else run_ignored (upsert_handle E ds h) w)" for h
    by (rule alwaysI)
  have "quiet S w (snd (let ks = keys_to_delete (wk_state w) es
       in if ks = [] then (WOk (), w) else run_ignored (with_handle h (delete_batch E ks)) w))" for w h
    using * [of "wk_state w"] by (auto simp: quiet_def families_kept_def)
  then have k: "always (quiet S) (\<lambda>w. let ks = keys_to_delete (wk_state w) es
       in if ks = [] then (WOk (), w) else run_ignored (with_handle h (delete_batch E ks)) w)" for h
    by (rule alwaysI)
  have "always (quiet S) (batch_upsert E d c es)" "always (quiet S) (batch_delete E d c es)" for d c
    unfolding batch_upsert_def batch_delete_def
    by (intro qt.always_if_ok storage_quiet engine_kept u, intro qt.always_if_ok storage_quiet engine_kept k)
  then show ?thesis using apply_entries_quiet [OF assms(1)] by (auto simp: run_batch_def)
qed

lemma fold_quiet:
  assumes "snd ` set es \<subseteq> S" "\<forall>p \<in> set es. \<not> is_physical_shard (se_collection (snd p))"
  shows "quiet S w (fold (set_origin \<circ> snd) es w)"
proof (cases "\<forall>en \<in> S. settled (wk_state w) en")
  case True
  from fold_set_origin_old [OF settled_batch [OF True assms]] show ?thesis by (simp only: qt.rel_refl)
qed (unfold quiet_def, blast)

lemma apply_batch_quiet:
  assumes "snd ` set es \<subseteq> S" "\<forall>p \<in> set es. se_collection (snd p) = se_collection (snd (hd es))"
  shows "always (quiet S) (apply_batch E F C K es)"
proof (cases "es = [] \<or> is_physical_shard (se_collection (snd (hd es)))")
  case False
  then have ns: "\<forall>p \<in> set es. \<not> is_physical_shard (se_collection (snd p))"
    using bspec [OF assms(2)] by (intro ballI) metis
  have "always (quiet S) (wbind (prepare_batch E F en) (\<lambda>_. wbind (run_batch E F C K en es)
      (\<lambda>_ w. (WOk (), fold (set_origin \<circ> snd) es w))))" for en
    by (intro qt.always_wbind run_batch_quiet [OF assms(1) ns] prepare_quiet)
      (simp add: always_def fold_quiet [OF assms(1) ns])
  with False show ?thesis by (simp add: always_def apply_batch_def)
qed (auto simp: always_def apply_batch_def qt.rel_refl)

lemma apply_page_quiet: "snd ` set ps \<subseteq> S \<Longrightarrow> always (quiet S) (apply_page E F C K ps)"
proof (induction "length ps" arbitrary: ps rule: less_induct)
  case less
  show ?case
  proof (cases ps)
    case (Cons p qs)
    define g where "g = (\<lambda>r :: fresh \<times> sync_entry. same_group (snd p) (snd r))"
    have sub: "snd ` set (p # takeWhile g qs) \<subseteq> S" "snd ` set (dropWhile g qs) \<subseteq> S"
      using less.prems by (auto simp: Cons dest: set_takeWhileD set_dropWhileD)
    have "always (quiet S) (wbind (apply_batch E F C K (p # takeWhile g qs)) (\<lambda>_. apply_page E F C K (dropWhile g qs)))"
      by (intro qt.always_wbind apply_batch_quiet less.hyps sub)
        (auto simp: Cons length_dropWhile_le le_imp_less_Suc g_def same_group_def dest: set_takeWhileD)
    moreover have "always (quiet S) (wbind (apply_entry E F C K p) (\<lambda>_. apply_page E F C K qs))"
      using less.prems by (intro qt.always_wbind apply_entry_quiet less.hyps) (auto simp: Cons)
    ultimately show ?thesis by (auto simp: Cons always_def g_def)
  qed (simp add: always_def qt.rel_refl)
qed

section \<open>Properties of a synchronisation\<close>


text \<open>
  C14: Entries can be delivered more than once. After a successful exchange, a page made of entries of
  that page, in any order and any number, leaves the sequence numbers and the contents of every
  collection as they are, whatever the result of applying it.
\<close>
theorem redelivery_harmless:
  assumes "smap_ok (ss_origin_sequences (wk_state w))"
    "incremental_sync E F C K peer (Inr (Some (es, cur))) w = (WOk mo, w1)"
    "snd ` set es' \<subseteq> snd ` set es" "apply_page E F C K es' w1 = (r, w2)"
  shows "wk_state w2 = wk_state w1 \<and> families_kept (wk_storage w1) (wk_storage w2)"
proof -
  from incremental_sync_steps [OF assms(1,2)] obtain w0 where
    1: "apply_page E F C K es w = (WOk (), w0)" and g: "origins_grow w w0" "origins_grow w0 w1" .
  have ok: "smap_ok (ss_origin_sequences (wk_state w0))" using g(1) assms(1) by (simp add: origins_grow_def)
  have "settled (wk_state w1) (snd p)" if "p \<in> set es" for p
    using seen_grow [OF g(2) ok] apply_page_marks [OF assms(1) 1 that] by (auto simp: settled_def)
  then have "\<forall>en \<in> snd ` set es. settled (wk_state w1) en" by auto
  with alwaysD [OF apply_page_quiet [OF assms(3)] assms(4)] show ?thesis by (simp add: quiet_def)
qed

text \<open>The collection of a batch is open: the worker finds its database and its handle in the caches.\<close>

definition opened :: "('db, 'v, 's, 'f) env \<Rightarrow> ('db, 'v, 's, 'f) engine \<Rightarrow> string \<Rightarrow> string \<Rightarrow> nat \<Rightarrow> bool" where
  "opened E e d c h \<longleftrightarrow> (\<exists>i. map_of (databases e) d = Some i \<and> map_of (db_collections (db_handles e ! i)) c = Some h)"

lemma opened_steps:
  assumes "opened E (wk_storage w) d c h"
  shows "if_ok (get_database E d) (\<lambda>i. if_ok (db_get_collection E i c) f) w = f h w"
    "is_write (se_operation en) \<Longrightarrow> se_database en = d \<Longrightarrow> se_collection en = c \<Longrightarrow> prepare_batch E F en w = (WOk (), w)"
  using assms
  by (auto simp: opened_def prepare_batch_def ensure_database_def ensure_collection_def if_ok_def wbind_def
      storage_def get_database_def db_get_collection_def)

text \<open>
  Replicated writes to a time series are lost. The worker writes with an operation that time series
  refuse; the refusal is only reported, the storage stays as it was, and the entries are marked as
  applied, so that no later exchange brings them back.
\<close>
theorem timeseries_entries_lost:
  assumes "smap_ok (ss_origin_sequences (wk_state w))" "es \<noteq> []"
    "is_write (se_operation (snd (hd es)))" "\<not> is_physical_shard (se_collection (snd (hd es)))"
    "opened E (wk_storage w) (se_database (snd (hd es))) (se_collection (snd (hd es))) h"
    "collection_type (handles (wk_storage w) ! h) = ''timeseries''" "batch_data E (wk_state w) es = Inr ds"
  shows "\<exists>w'. apply_batch E F C K es w = (WOk (), w') \<and> wk_storage w' = wk_storage w \<and>
    (\<forall>p \<in> set es. seen (wk_state w') (snd p))"
proof -
  let ?en = "snd (hd es)"
  have fold: "wk_storage (fold (set_origin \<circ> snd) es w) = wk_storage w" for w :: "('a, 'b, 'c, 'd) worker"
    by (induction es arbitrary: w) (auto simp: set_origin_def)
  have "run_ignored (upsert_handle E ds h) w = (WOk (), w)" if "ds \<noteq> []"
    using that assms(6) by (simp add: run_ignored_def wbind_def storage_def upsert_handle_def upsert_batch_def)
  then have "run_batch E F C K ?en es w = (WOk (), w)"
    using assms(3,7) by (simp add: run_batch_def batch_upsert_def opened_steps(1) [OF assms(5)])
  then have "apply_batch E F C K es w = (WOk (), fold (set_origin \<circ> snd) es w)"
    using assms(2-4) opened_steps(2) [OF assms(5,3) refl refl, where F = F] by (simp add: apply_batch_def wbind_def)
  moreover have "\<forall>p \<in> set es. seen (wk_state (fold (set_origin \<circ> snd) es w)) (snd p)"
    using fold_set_origin_seen [OF assms(1)] by blast
  ultimately show ?thesis by (simp add: fold)
qed

text \<open>
  One malformed entry stops replication from a peer. When the first new write of a page is not valid
  JSON, the exchange fails and leaves all sequence numbers as they were, so that the next request is
  the same, however many entries follow.
\<close>
theorem malformed_entry_blocks:
  assumes "is_write (se_operation (snd p))" "\<not> is_physical_shard (se_collection (snd p))" "\<not> seen (wk_state w) (snd p)"
    "opened E (wk_storage w) (se_database (snd p)) (se_collection (snd p)) h"
    "se_document_data (snd p) = Some b" "value_from_slice (env_json E) b = None"
  shows "incremental_sync E F C K peer (Inr (Some (p # ps, cur))) w = (WErr (DecodeError ''Invalid document''), w)"
proof -
  let ?es = "p # takeWhile (\<lambda>q. same_group (snd p) (snd q)) ps"
  have "batch_data E (wk_state w) ?es = Inl (DecodeError ''Invalid document'')"
    using assms(3,5,6) by (cases p) (simp add: parse_document_def)
  then have "run_batch E F C K (snd p) ?es w = (WErr (DecodeError ''Invalid document''), w)"
    using assms(1) by (simp add: run_batch_def batch_upsert_def opened_steps(1) [OF assms(4)])
  then have "apply_batch E F C K ?es w = (WErr (DecodeError ''Invalid document''), w)"
    using assms(2) opened_steps(2) [OF assms(4,1) refl refl, where F = F] by (simp add: apply_batch_def wbind_def)
  then show ?thesis using assms(1) by (simp add: incremental_sync_def Let_def wbind_def is_data_def)
qed

lemma digit_char_digit: "n < 10 \<Longrightarrow> is_ascii_digit (digit_char n)"
  by (auto simp: is_ascii_digit_def digit_char_def less_eq_char_def)

lemma shard_name_physical: "is_physical_shard (shard_name c k)"
proof -
  have "starts_with (drop (length c) (shard_name c k)) ''_s''" by (simp add: shard_name_def starts_with_def)
  then have "has_infix ''_s'' (shard_name c k)"
    unfolding has_infix_def by (intro bexI [of _ "length c"]) (auto simp: shard_name_def)
  moreover have "show_nat k \<noteq> [] \<and> is_ascii_digit (last (show_nat k))"
    by (subst (1 2) show_nat.simps) (simp add: digit_char_digit)
  ultimately show ?thesis by (simp add: is_physical_shard_def shard_name_def)
qed

lemma stats_physical: "is_physical_shard ''user_stats2''"
  by (simp add: is_physical_shard_def has_infix_def starts_with_def is_ascii_digit_def upt_rec less_eq_char_def)

lemma apply_page_shards:
  "\<forall>p \<in> set ps. is_physical_shard (se_collection (snd p)) \<Longrightarrow> apply_page E F C K ps w = (WOk (), w)"
proof (induction "length ps" arbitrary: ps rule: less_induct)
  case less
  show ?case
  proof (cases ps)
    case (Cons p qs)
    have "apply_page E F C K (dropWhile P qs) w = (WOk (), w)" for P
      using less.prems by (intro less.hyps) (auto simp: Cons length_dropWhile_le le_imp_less_Suc dest!: set_dropWhileD)
    moreover have "apply_page E F C K qs w = (WOk (), w)" using less.prems by (intro less.hyps) (auto simp: Cons)
    ultimately show ?thesis using less.prems by (simp add: Cons apply_batch_def apply_entry_def wbind_def Let_def)
  qed simp
qed

text \<open>
  Collections whose names look like shards are not replicated. The test accepts the name of every
  shard, but also ordinary names such as \<open>user_stats2\<close>; a page of entries of such collections leaves the
  storage as it was and moves the position in the peer's log past them.
\<close>
theorem ordinary_collection_skipped:
  assumes "smap_ok (ss_origin_sequences (wk_state w))" "\<forall>p \<in> set es. is_physical_shard (se_collection (snd p))"
  shows "(\<forall>c k. is_physical_shard (shard_name c k)) \<and> is_physical_shard ''user_stats2'' \<and> (\<exists>w' mo. incremental_sync E F C K peer (Inr (Some (es, cur))) w = (WOk mo, w') \<and>
    wk_storage w' = wk_storage w \<and> (\<forall>p \<in> set es. se_sequence (snd p) \<le> get_origin_sequence (wk_state w') peer))"
proof -
  obtain mo w' where r: "incremental_sync E F C K peer (Inr (Some (es, cur))) w = (WOk mo, w')" and
    s: "wk_storage w' = wk_storage w"
    using apply_page_shards [OF assms(2), of E F C K w]
    by (auto simp: incremental_sync_def Let_def wbind_def split: option.split)
  have "\<forall>p \<in> set es. se_sequence (snd p) \<le> get_origin_sequence (wk_state w') peer"
    by (rule incremental_sync_steps [OF assms(1) r])
  with r s shard_name_physical stats_physical show ?thesis by blast
qed

section \<open>An example\<close>

definition demo_columnar :: "((bytes \<times> bytes) list, unit, unit, string set, unit, unit) columnar" where
  "demo_columnar = \<lparr> col_load = (\<lambda>_ _ e. (Done (), e)), col_insert_row_with_id = (\<lambda>_ _ _ e. (Done (), e)),
     col_delete_row = (\<lambda>_ _ e. (Done (), e)), col_new = (\<lambda>_ _ _ e. (Done (), e)), col_drop = (\<lambda>_ e. (Done (), e)),
     col_truncate = (\<lambda>_ e. (Done (), e)), col_defs = (\<lambda>_. Some ()) \<rparr>"

definition demo_shard_codec :: "shard_config meta_codec" where
  "demo_shard_codec = \<lparr> to_vec = (\<lambda>_. Inr []), from_slice = (\<lambda>_. None) \<rparr>"

definition demo_sync_entry :: "u64 \<Rightarrow> sync_operation \<Rightarrow> string \<Rightarrow> bytes \<Rightarrow> fresh \<times> sync_entry" where
  "demo_sync_entry s op coll data = (demo_fresh 1,
     \<lparr> se_sequence = s, se_origin_node = ''n2'', se_origin_sequence = s, se_hlc_ts = 0, se_hlc_count = 0,
       se_database = ''db'', se_collection = coll, se_operation = op, se_document_key = ''x'',
       se_document_data = Some data, se_shard_id = None, se_version_vector = None, se_parent_vectors = [],
       se_is_delta = False, se_delta_data = None, se_session_id = None, se_device_id = None \<rparr>)"

text \<open>A worker on an engine whose collection has the given type.\<close>

definition demo_worker :: "string \<Rightarrow> ((bytes \<times> bytes) list, unit, unit, string set) worker" where
  "demo_worker ty = \<lparr> wk_state = new_sync_state ''n1'',
     wk_storage = (demo_engine [])\<lparr> handles := [(coll_new demo_env ''db:people'' (coll_db demo_coll))\<lparr> collection_type := ty \<rparr>] \<rparr> \<rparr>"

lemma demo_worker_simps [simp]:
  "ss_origin_sequences (wk_state (demo_worker ty)) = []" "opened E (wk_storage (demo_worker ty)) ''db'' ''people'' 0"
  "collection_type (handles (wk_storage (demo_worker ty)) ! 0) = ty"
  "seen (wk_state (demo_worker ty)) (snd (demo_sync_entry s op c d)) \<longleftrightarrow> s = 0"
  by (simp_all add: demo_worker_def new_sync_state_def opened_def demo_engine_def seen_iff get_origin_sequence_def
      smap_get_or_def demo_sync_entry_def)

lemma people_no_shard [simp]: "\<not> is_physical_shard ''people''"
  by (simp add: is_physical_shard_def is_ascii_digit_def less_eq_char_def)

text \<open>A page with a blob operation, which the worker leaves to others.\<close>

lemma demo_sync:
  "\<exists>w'. incremental_sync demo_env ok_cf_ops demo_shard_codec demo_columnar ''p''
     (Inr (Some ([demo_sync_entry 4 SyncPutBlobChunk ''people'' []], 4))) (demo_worker ''document'') = (WOk False, w')"
  by (simp add: incremental_sync_def Let_def wbind_def apply_entry_def is_data_def is_write_def max_sequence_def)
    (simp add: demo_sync_entry_def is_data_def is_write_def wbind_def)


theorem redelivery_harmless_witness:
  "\<exists>w1 w2 r mo. incremental_sync demo_env ok_cf_ops demo_shard_codec demo_columnar ''p''
     (Inr (Some ([demo_sync_entry 4 SyncPutBlobChunk ''people'' []], 4))) (demo_worker ''document'') = (WOk mo, w1) \<and>
     apply_page demo_env ok_cf_ops demo_shard_codec demo_columnar
       [demo_sync_entry 4 SyncPutBlobChunk ''people'' [], demo_sync_entry 4 SyncPutBlobChunk ''people'' []] w1 = (r, w2) \<and>
     wk_state w2 = wk_state w1"
proof -
  let ?e = "demo_sync_entry 4 SyncPutBlobChunk ''people'' []"
  obtain w1 where w1: "incremental_sync demo_env ok_cf_ops demo_shard_codec demo_columnar ''p''
     (Inr (Some ([?e], 4))) (demo_worker ''document'') = (WOk False, w1)"
    using demo_sync by blast
  obtain r w2 where w2: "apply_page demo_env ok_cf_ops demo_shard_codec demo_columnar [?e, ?e] w1 = (r, w2)"
    by fastforce
  from redelivery_harmless [OF _ w1 _ w2] w1 w2 show ?thesis by auto
qed

theorem timeseries_entries_lost_witness:
  "\<exists>w'. apply_batch demo_env ok_cf_ops demo_shard_codec demo_columnar
     [demo_sync_entry 4 SyncInsert ''people'' ''[]''] (demo_worker ''timeseries'') = (WOk (), w') \<and>
     wk_storage w' = wk_storage (demo_worker ''timeseries'')"
proof -
  let ?es = "[demo_sync_entry 4 SyncInsert ''people'' ''[]'']"
  have "batch_data demo_env (wk_state (demo_worker ''timeseries'')) ?es = Inr [(demo_fresh 1, ''x'', JArray [])]"
    using demo_worker_simps(4) [of "''timeseries''" 4 SyncInsert "''people''" "''[]''"]
    by (simp add: demo_sync_entry_def parse_document_def demo_serde_def)
  from timeseries_entries_lost [OF _ _ _ _ _ _ this, where h = 0 and F = ok_cf_ops and C = demo_shard_codec and K = demo_columnar]
  show ?thesis by (auto simp: is_write_def demo_sync_entry_def)
qed

theorem malformed_entry_blocks_witness:
  "incremental_sync demo_env ok_cf_ops demo_shard_codec demo_columnar ''p''
     (Inr (Some ([demo_sync_entry 4 SyncInsert ''people'' ''not json'', demo_sync_entry 5 SyncInsert ''people'' ''[]''], 9)))
     (demo_worker ''document'') = (WErr (DecodeError ''Invalid document''), demo_worker ''document'')"
  by (rule malformed_entry_blocks [where h = 0 and b = "''not json''"])
    (simp_all add: is_write_def, simp_all add: demo_sync_entry_def demo_serde_def)

theorem ordinary_collection_skipped_witness:
  "\<exists>w' mo. incremental_sync demo_env ok_cf_ops demo_shard_codec demo_columnar ''p''
     (Inr (Some ([demo_sync_entry 4 SyncInsert ''user_stats2'' ''[]''], 4))) (demo_worker ''document'') = (WOk mo, w') \<and>
     wk_storage w' = wk_storage (demo_worker ''document'') \<and> 4 \<le> get_origin_sequence (wk_state w') ''p''"
proof -
  have *: "\<forall>p \<in> set [demo_sync_entry 4 SyncInsert ''user_stats2'' ''[]'']. is_physical_shard (se_collection (snd p))"
    by (simp add: demo_sync_entry_def stats_physical)
  from ordinary_collection_skipped [OF _ *, of "demo_worker ''document''" demo_env ok_cf_ops demo_shard_codec demo_columnar "''p''" 4]
  show ?thesis by (auto simp: demo_sync_entry_def)
qed

end
