(* ===== verification/Sharding.thy ===== *)
theory Sharding
  imports Prelude "HOL-Library.Product_Lexorder"
begin

text \<open>
  Placement of shards, \<^verbatim>\<open>src/sharding/router.rs\<close>, \<^verbatim>\<open>assignment.rs\<close> and \<^verbatim>\<open>distribution.rs\<close>: the shard of a key, the
  nodes that hold a shard by position, and the assignment of primaries and replicas to nodes by load.
  The hash functions (seahash and the hasher of the standard library) are arguments.
\<close>

section \<open>Routing\<close>

definition route :: "(bytes \<Rightarrow> u64) \<Rightarrow> string \<Rightarrow> u16 \<Rightarrow> u16" where
  "route hash key num_shards = (if num_shards = 0 then 0 else ucast (hash key mod ucast num_shards))"

definition is_shard_replica :: "u16 \<Rightarrow> nat \<Rightarrow> u16 \<Rightarrow> nat \<Rightarrow> bool" where
  "is_shard_replica shard_id node_index replication_factor num_nodes \<longleftrightarrow>
     num_nodes \<noteq> 0 \<and> replication_factor \<noteq> 0 \<and>
     (\<exists>r \<in> set [0..<unat replication_factor]. (unat shard_id mod num_nodes + r) mod num_nodes = node_index)"

record shard_assignment =
  sa_shard_id :: u16
  sa_primary_node :: string
  sa_replica_nodes :: "string list"

type_synonym assignments = "(u16, shard_assignment) smap"

text \<open>\<^verbatim>\<open>route_key\<close> divides by the number of shards, which panics when there are none.\<close>

definition route_key :: "(string \<Rightarrow> u64) \<Rightarrow> string \<Rightarrow> u16 \<Rightarrow> u16 option" where
  "route_key hash key num_shards = (if num_shards = 0 then None else Some (ucast (hash key mod ucast num_shards)))"

definition get_replicas_for_key :: "(string \<Rightarrow> u64) \<Rightarrow> string \<Rightarrow> assignments \<Rightarrow> string list option" where
  "get_replicas_for_key hash key A =
     map_option (\<lambda>s. case map_of A s of Some a \<Rightarrow> sa_primary_node a # sa_replica_nodes a | None \<Rightarrow> [])
       (route_key hash key (of_nat (length A)))"

section \<open>Distribution\<close>

text \<open>The roles of a node in the previous assignment.\<close>

definition prev_this :: "assignments option \<Rightarrow> u16 \<Rightarrow> shard_assignment option" where
  "prev_this prev s = Option.bind prev (\<lambda>p. map_of p s)"

definition was_primary :: "assignments option \<Rightarrow> u16 \<Rightarrow> string \<Rightarrow> bool" where
  "was_primary prev s n = (case prev_this prev s of Some p \<Rightarrow> sa_primary_node p = n | None \<Rightarrow> False)"

definition was_replica :: "assignments option \<Rightarrow> u16 \<Rightarrow> string \<Rightarrow> bool" where
  "was_replica prev s n = (case prev_this prev s of Some p \<Rightarrow> n \<in> set (sa_replica_nodes p) | None \<Rightarrow> False)"

definition elsewhere :: "(shard_assignment \<Rightarrow> bool) \<Rightarrow> assignments option \<Rightarrow> u16 \<Rightarrow> bool" where
  "elsewhere P prev s = (case prev of Some p \<Rightarrow> list_ex (\<lambda>(_, v). sa_shard_id v \<noteq> s \<and> P v) p | None \<Rightarrow> False)"

definition primary_elsewhere :: "assignments option \<Rightarrow> u16 \<Rightarrow> string \<Rightarrow> bool" where
  "primary_elsewhere prev s n = elsewhere (\<lambda>v. sa_primary_node v = n) prev s"

definition replica_elsewhere :: "assignments option \<Rightarrow> u16 \<Rightarrow> string \<Rightarrow> bool" where
  "replica_elsewhere prev s n = elsewhere (\<lambda>v. n \<in> set (sa_replica_nodes v)) prev s"

definition used_elsewhere :: "assignments option \<Rightarrow> u16 \<Rightarrow> string \<Rightarrow> bool" where
  "used_elsewhere prev s n = elsewhere (\<lambda>v. sa_primary_node v = n \<or> n \<in> set (sa_replica_nodes v)) prev s"

text \<open>The two comparisons of candidates are lexicographic; each is the order of the tuples below, where
  \<open>False\<close> is less than \<open>True\<close>.\<close>

type_synonym loads = "(string, nat) smap"

definition primary_rank ::
    "assignments option \<Rightarrow> u16 \<Rightarrow> loads \<Rightarrow> loads \<Rightarrow> string \<Rightarrow> nat \<times> bool \<times> bool \<times> bool \<times> bool \<times> nat \<times> string" where
  "primary_rank prev s primary_load total_load n =
     (smap_get_or 0 primary_load n, \<not> was_primary prev s n, \<not> was_replica prev s n, primary_elsewhere prev s n,
      replica_elsewhere prev s n, smap_get_or 0 total_load n, n)"

definition replica_rank :: "assignments option \<Rightarrow> u16 \<Rightarrow> loads \<Rightarrow> string \<Rightarrow> nat \<times> bool \<times> bool \<times> string" where
  "replica_rank prev s total_load n =
     (smap_get_or 0 total_load n, \<not> was_replica prev s n, used_elsewhere prev s n, n)"

definition add_load :: "string \<Rightarrow> loads \<Rightarrow> loads" where
  "add_load n l = smap_put n (smap_get_or 0 l n + 1) l"

fun assign_primaries ::
    "assignments option \<Rightarrow> string list \<Rightarrow> u16 list \<Rightarrow> assignments \<times> loads \<times> loads \<Rightarrow> assignments \<times> loads \<times> loads" where
  "assign_primaries prev nodes [] st = st"
| "assign_primaries prev nodes (s # ss) (A, primary_load, total_load) =
     (let best = hd (sort_key (primary_rank prev s primary_load total_load) nodes)
      in assign_primaries prev nodes ss
           (smap_put s \<lparr> sa_shard_id = s, sa_primary_node = best, sa_replica_nodes = [] \<rparr> A,
            add_load best primary_load, add_load best total_load))"

fun pick_replicas ::
    "assignments option \<Rightarrow> string list \<Rightarrow> u16 \<Rightarrow> string \<Rightarrow> nat \<Rightarrow> string list \<times> loads \<Rightarrow> string list \<times> loads" where
  "pick_replicas prev nodes s primary 0 st = st"
| "pick_replicas prev nodes s primary (Suc k) (rs, total_load) =
     (let candidates = filter (\<lambda>n. n \<noteq> primary \<and> n \<notin> set rs) nodes
      in if candidates = [] then (rs, total_load)
         else let best = hd (sort_key (replica_rank prev s total_load) candidates)
              in pick_replicas prev nodes s primary k (rs @ [best], add_load best total_load))"

text \<open>Every shard has its primary by then, so the lookup that the code unwraps succeeds (\<open>None\<close> is not reached).\<close>

fun assign_replicas ::
    "assignments option \<Rightarrow> string list \<Rightarrow> nat \<Rightarrow> u16 list \<Rightarrow> assignments \<times> loads \<Rightarrow> assignments \<times> loads" where
  "assign_replicas prev nodes k [] st = st"
| "assign_replicas prev nodes k (s # ss) (A, total_load) =
     (case map_of A s of
        None \<Rightarrow> (A, total_load)
      | Some a \<Rightarrow>
          (let (rs, total_load) = pick_replicas prev nodes s (sa_primary_node a) k (sa_replica_nodes a, total_load)
           in assign_replicas prev nodes k ss (smap_put s (a\<lparr> sa_replica_nodes := sort rs \<rparr>) A, total_load)))"

definition shard_ids :: "u16 \<Rightarrow> u16 list" where
  "shard_ids num_shards = map of_nat [0..<unat num_shards]"

definition compute_assignments :: "string list \<Rightarrow> u16 \<Rightarrow> u16 \<Rightarrow> assignments option \<Rightarrow> string + assignments" where
  "compute_assignments nodes num_shards replication_factor prev =
     (if nodes = [] then Inl ''No nodes available for shard assignment''
      else
        (let sorted_nodes = sort nodes;
             zero = foldl (\<lambda>l n. smap_put n 0 l) [] sorted_nodes;
             (A, primary_load, total_load) = assign_primaries prev sorted_nodes (shard_ids num_shards) ([], zero, zero);
             target_replicas = unat replication_factor - 1
         in Inr (if target_replicas > 0 \<and> \<not> length nodes < 2
                 then fst (assign_replicas prev sorted_nodes target_replicas (shard_ids num_shards) (A, total_load))
                 else A)))"

end
