(* ===== verification/ShardingCorrect.thy ===== *)
theory ShardingCorrect
  imports Sharding
begin

text \<open>
  What the placement of \<open>Sharding\<close> guarantees: keys go to existing shards, every shard has a primary and as
  many distinct replicas as the nodes allow, and primaries are spread evenly.
\<close>

section \<open>Choosing the best candidate\<close>

lemma best_in: "xs \<noteq> [] \<Longrightarrow> hd (sort_key f xs) \<in> set xs"
  by (metis hd_in_set set_sort set_empty)

lemma best_min:
  assumes "x \<in> set xs"
  shows "f (hd (sort_key f xs)) \<le> f x"
proof -
  have "x \<in> set (sort_key f xs)" "sorted (map f (sort_key f xs))" using assms by simp_all
  then show ?thesis by (cases "sort_key f xs") auto
qed

lemma best_least_load:
  "x \<in> set xs \<Longrightarrow> smap_get_or 0 pl (hd (sort_key (primary_rank prev s pl tot) xs)) \<le> smap_get_or 0 pl x"
  using best_min [of x xs "primary_rank prev s pl tot"] by (auto simp: primary_rank_def)

section \<open>Primaries\<close>

definition primary_count :: "assignments \<Rightarrow> string \<Rightarrow> nat" where
  "primary_count A n = length (filter (\<lambda>p. sa_primary_node (snd p) = n) A)"

lemma primary_count_put:
  "smap_ok A \<Longrightarrow> map_of A s = None \<Longrightarrow>
   primary_count (smap_put s a A) n = primary_count A n + (if sa_primary_node a = n then 1 else 0)"
  by (induction A) (auto simp: primary_count_def split: if_splits)

definition primaries_inv :: "string list \<Rightarrow> u16 set \<Rightarrow> assignments \<times> loads \<times> loads \<Rightarrow> bool" where
  "primaries_inv nodes ids st \<longleftrightarrow>
     (case st of (A, pl, tot) \<Rightarrow> smap_ok A \<and> smap_ok pl \<and> dom (map_of A) = ids \<and>
        (\<forall>s a. map_of A s = Some a \<longrightarrow> sa_shard_id a = s \<and> sa_primary_node a \<in> set nodes \<and> sa_replica_nodes a = []) \<and>
        (\<forall>n. smap_get_or 0 pl n = primary_count A n) \<and>
        (\<forall>m \<in> set nodes. \<forall>n \<in> set nodes. primary_count A m \<le> primary_count A n + 1))"

lemma assign_primaries_inv:
  assumes "nodes \<noteq> []" "primaries_inv nodes ids st" "distinct ss" "set ss \<inter> ids = {}"
  shows "primaries_inv nodes (ids \<union> set ss) (assign_primaries prev nodes ss st)"
  using assms(2-)
proof (induction ss arbitrary: ids st)
  case (Cons s ss)
  obtain A pl tot where st: "st = (A, pl, tot)" by (cases st)
  let ?b = "hd (sort_key (primary_rank prev s pl tot) nodes)"
  let ?a = "\<lparr> sa_shard_id = s, sa_primary_node = ?b, sa_replica_nodes = [] \<rparr>"
  have inv: "smap_ok A" "smap_ok pl" "dom (map_of A) = ids" and load: "\<And>n. smap_get_or 0 pl n = primary_count A n" and
    bal: "\<And>m n. m \<in> set nodes \<Longrightarrow> n \<in> set nodes \<Longrightarrow> primary_count A m \<le> primary_count A n + 1" and
    old: "\<And>s a. map_of A s = Some a \<Longrightarrow> sa_shard_id a = s \<and> sa_primary_node a \<in> set nodes \<and> sa_replica_nodes a = []"
    using Cons.prems(1) by (simp_all add: primaries_inv_def st)
  have "map_of A s = None" using Cons.prems(3) inv(3) by auto
  then have cnt: "primary_count (smap_put s ?a A) n = primary_count A n + (if ?b = n then 1 else 0)" for n
    using primary_count_put [OF inv(1)] by simp
  have least: "primary_count A ?b \<le> primary_count A n" if "n \<in> set nodes" for n
    using best_least_load [OF that, of pl prev s tot] by (simp add: load)
  have new_bal: "primary_count (smap_put s ?a A) m \<le> primary_count (smap_put s ?a A) n + 1"
    if "m \<in> set nodes" "n \<in> set nodes" for m n
    unfolding cnt using bal [OF that] least [OF that(2)] by auto
  have "primaries_inv nodes (insert s ids) (smap_put s ?a A, add_load ?b pl, add_load ?b tot)"
    unfolding primaries_inv_def prod.case
    using inv old new_bal best_in [OF assms(1)]
    by (auto simp: add_load_def load cnt split: if_splits)
  from Cons.IH [OF this] Cons.prems(2,3) show ?case by (simp add: st Let_def)
qed simp

section \<open>Replicas\<close>

lemma pick_replicas_inv:
  assumes "pick_replicas prev nodes s p k (rs, tot) = (rs', tot')" "distinct rs" "set rs \<subseteq> set nodes - {p}"
  shows "distinct rs' \<and> set rs' \<subseteq> set nodes - {p} \<and> length rs' = min (length rs + k) (card (set nodes - {p}))"
  using assms
proof (induction k arbitrary: rs tot)
  case 0
  then show ?case using card_mono [OF _ 0(3)] by (auto simp: distinct_card)
next
  case (Suc k)
  let ?c = "filter (\<lambda>n. n \<noteq> p \<and> n \<notin> set rs) nodes"
  show ?case
  proof (cases "?c = []")
    case True
    then have "set nodes - {p} \<subseteq> set rs" by (auto simp: filter_empty_conv)
    with Suc.prems(3) have "set nodes - {p} = set rs" by blast
    then show ?thesis using Suc.prems True by (simp add: distinct_card)
  next
    case False
    let ?b = "hd (sort_key (replica_rank prev s tot) ?c)"
    from best_in [OF False, of "replica_rank prev s tot"] have "?b \<in> set nodes - {p}" "?b \<notin> set rs" by auto
    then show ?thesis using Suc.IH [of "rs @ [?b]" "add_load ?b tot"] Suc.prems False by (simp add: Let_def)
  qed
qed

definition replicas_ok :: "string list \<Rightarrow> nat \<Rightarrow> shard_assignment \<Rightarrow> bool" where
  "replicas_ok nodes k a \<longleftrightarrow> distinct (sa_replica_nodes a) \<and> sorted (sa_replica_nodes a) \<and>
     set (sa_replica_nodes a) \<subseteq> set nodes - {sa_primary_node a} \<and>
     length (sa_replica_nodes a) = min k (card (set nodes - {sa_primary_node a}))"

lemma primary_count_put_old:
  assumes "smap_ok A" "map_of A s = Some a" "sa_primary_node a' = sa_primary_node a"
  shows "primary_count (smap_put s a' A) n = primary_count A n"
  using assms
proof (induction A)
  case (Cons p A)
  have "map_of A s = None" if "s < fst p" using that Cons.prems(1) by (intro smap_ok_below) auto
  then show ?case using Cons less_linear [of s "fst p"] by (auto simp: primary_count_def split: if_splits)
qed simp

lemma assign_replicas_inv:
  assumes "assign_replicas prev nodes k ss (A, tot) = (A', tot')" "smap_ok A" "distinct ss" "set ss \<subseteq> dom (map_of A)"
    "\<And>s a. s \<in> set ss \<Longrightarrow> map_of A s = Some a \<Longrightarrow> sa_replica_nodes a = []"
  shows "smap_ok A' \<and> dom (map_of A') = dom (map_of A) \<and> primary_count A' = primary_count A \<and>
    (\<forall>s a'. map_of A' s = Some a' \<longrightarrow> (\<exists>a. map_of A s = Some a \<and> sa_shard_id a' = sa_shard_id a \<and>
       sa_primary_node a' = sa_primary_node a \<and> (if s \<in> set ss then replicas_ok nodes k a' else a' = a)))"
  using assms
proof (induction ss arbitrary: A tot)
  case (Cons s ss)
  from Cons.prems(4) obtain a where a: "map_of A s = Some a" by auto
  obtain rs t where p: "pick_replicas prev nodes s (sa_primary_node a) k ([], tot) = (rs, t)" by fastforce
  note r = pick_replicas_inv [OF p]
  let ?a = "a\<lparr> sa_replica_nodes := sort rs \<rparr>"
  have ok: "replicas_ok nodes k ?a" using r by (simp add: replicas_ok_def)
  have e: "sa_replica_nodes a = []" using Cons.prems(5) [of s a] a by simp
  have rest: "assign_replicas prev nodes k ss (smap_put s ?a A, t) = (A', tot')"
    using Cons.prems(1) a p e by simp
  have "smap_ok A' \<and> dom (map_of A') = dom (map_of (smap_put s ?a A)) \<and> primary_count A' = primary_count (smap_put s ?a A) \<and>
    (\<forall>r a'. map_of A' r = Some a' \<longrightarrow> (\<exists>b. map_of (smap_put s ?a A) r = Some b \<and> sa_shard_id a' = sa_shard_id b \<and>
       sa_primary_node a' = sa_primary_node b \<and> (if r \<in> set ss then replicas_ok nodes k a' else a' = b)))"
    using Cons.prems(2-) by (intro Cons.IH [OF rest]) (auto split: if_splits)
  then have ih: "smap_ok A'" "dom (map_of A') = dom (map_of (smap_put s ?a A))"
    "primary_count A' = primary_count (smap_put s ?a A)" and
    new: "\<And>r a'. map_of A' r = Some a' \<Longrightarrow> \<exists>b. map_of (smap_put s ?a A) r = Some b \<and> sa_shard_id a' = sa_shard_id b \<and>
       sa_primary_node a' = sa_primary_node b \<and> (if r \<in> set ss then replicas_ok nodes k a' else a' = b)" by blast+
  have "\<exists>b. map_of A r = Some b \<and> sa_shard_id a' = sa_shard_id b \<and> sa_primary_node a' = sa_primary_node b \<and>
      (if r \<in> set (s # ss) then replicas_ok nodes k a' else a' = b)" if "map_of A' r = Some a'" for r a'
    using new [OF that] a ok Cons.prems(2,3) by (cases "r = s") auto
  moreover have "primary_count (smap_put s ?a A) = primary_count A"
    using primary_count_put_old [OF Cons.prems(2) a] by (intro ext) simp
  ultimately show ?case using ih Cons.prems(2) a by (simp add: insert_absorb domI)
qed simp

section \<open>Guarantees\<close>

lemma unat_of_nat_below: "k < unat (n :: u16) \<Longrightarrow> unat (of_nat k :: u16) = k"
proof -
  assume "k < unat n"
  moreover have "unat n < 2 ^ LENGTH(16)" by (rule unsigned_less)
  ultimately show ?thesis by (simp add: unsigned_of_nat take_bit_nat_eq_self)
qed

lemma shard_ids_props: "distinct (shard_ids n)" "set (shard_ids n) = {..<n}"
proof -
  have "inj_on (of_nat :: nat \<Rightarrow> u16) {0..<unat n}"
    by (rule inj_on_inverseI [where g = unat]) (simp add: unat_of_nat_below)
  then show "distinct (shard_ids n)" by (simp add: shard_ids_def distinct_map)
  have "s \<in> of_nat ` {0..<unat n}" if "s < n" for s
    using that by (intro image_eqI [of _ _ "unat s"]) (auto simp: word_less_nat_alt)
  moreover have "(of_nat k :: u16) < n" if "k < unat n" for k
    using unat_of_nat_below [OF that] that by (simp add: word_less_nat_alt)
  ultimately show "set (shard_ids n) = {..<n}" by (auto simp: shard_ids_def)
qed

lemma zero_loads:
  fixes z :: loads
  assumes "smap_ok z" "\<forall>n. smap_get_or 0 z n = 0"
  shows "smap_ok (foldl (\<lambda>l n. smap_put n 0 l) z xs) \<and> (\<forall>n. smap_get_or 0 (foldl (\<lambda>l n. smap_put n 0 l) z xs) n = 0)"
  using assms by (induction xs arbitrary: z) auto

lemma assign_replicas_all:
  assumes "assign_replicas prev nodes k (shard_ids num) (B, tot) = (C, tot')" "smap_ok B" "dom (map_of B) = {..<num}"
    "\<And>s a. map_of B s = Some a \<Longrightarrow> sa_shard_id a = s \<and> sa_primary_node a \<in> set nodes \<and> sa_replica_nodes a = []"
  shows "smap_ok C \<and> dom (map_of C) = {..<num} \<and> primary_count C = primary_count B \<and>
    (\<forall>s a. map_of C s = Some a \<longrightarrow> sa_shard_id a = s \<and> sa_primary_node a \<in> set nodes \<and> replicas_ok nodes k a)"
proof -
  have R: "smap_ok C \<and> dom (map_of C) = dom (map_of B) \<and> primary_count C = primary_count B \<and>
    (\<forall>s a'. map_of C s = Some a' \<longrightarrow> (\<exists>a. map_of B s = Some a \<and> sa_shard_id a' = sa_shard_id a \<and>
       sa_primary_node a' = sa_primary_node a \<and> (if s \<in> set (shard_ids num) then replicas_ok nodes k a' else a' = a)))"
    using assms(2-) by (intro assign_replicas_inv [OF assms(1)]) (auto simp: shard_ids_props)
  have "sa_shard_id a' = s \<and> sa_primary_node a' \<in> set nodes \<and> replicas_ok nodes k a'" if "map_of C s = Some a'" for s a'
  proof -
    from R that obtain a where a: "map_of B s = Some a" "sa_shard_id a' = sa_shard_id a"
      "sa_primary_node a' = sa_primary_node a" "if s \<in> set (shard_ids num) then replicas_ok nodes k a' else a' = a" by blast
    have "s \<in> set (shard_ids num)" using assms(3) a(1) by (auto simp: shard_ids_props(2))
    with a assms(4) [OF a(1)] show ?thesis by simp
  qed
  with R assms(3) show ?thesis by blast
qed

lemma compute_steps:
  assumes "nodes \<noteq> []" "compute_assignments nodes num rf prev = Inr A"
  shows "smap_ok A" "dom (map_of A) = {..<num}"
    "\<And>s a. map_of A s = Some a \<Longrightarrow> sa_shard_id a = s \<and> sa_primary_node a \<in> set nodes \<and> replicas_ok nodes (unat rf - 1) a"
    "\<And>m n. m \<in> set nodes \<Longrightarrow> n \<in> set nodes \<Longrightarrow> primary_count A m \<le> primary_count A n + 1"
proof -
  let ?ns = "sort nodes" and ?ids = "shard_ids num" and ?k = "unat rf - 1"
  let ?zero = "foldl (\<lambda>l n. smap_put n 0 l) [] ?ns"
  obtain B pl tot where p: "assign_primaries prev ?ns ?ids ([], ?zero, ?zero) = (B, pl, tot)" by (metis prod_cases3)
  have "primaries_inv ?ns {} ([], ?zero, ?zero)"
    using zero_loads [of "[]" ?ns] by (simp add: primaries_inv_def primary_count_def smap_get_or_def)
  moreover have "?ns \<noteq> []" using assms(1) by (metis set_empty set_sort)
  ultimately have inv: "primaries_inv ?ns {..<num} (B, pl, tot)"
    using assign_primaries_inv [of ?ns "{}" "([], ?zero, ?zero)" ?ids prev] p by (simp add: shard_ids_props)
  then have B: "smap_ok B" "dom (map_of B) = {..<num}"
    "\<And>s a. map_of B s = Some a \<Longrightarrow> sa_shard_id a = s \<and> sa_primary_node a \<in> set nodes \<and> sa_replica_nodes a = []"
    by (simp_all add: primaries_inv_def)
  define C where "C = (if ?k > 0 \<and> \<not> length nodes < 2 then fst (assign_replicas prev ?ns ?k ?ids (B, tot)) else B)"
  have A: "A = C" using assms p by (auto simp: compute_assignments_def C_def Let_def split: if_splits)
  have one: "card (set nodes) \<le> Suc 0" if "length nodes < 2" using card_length [of nodes] that by simp
  have "smap_ok C \<and> dom (map_of C) = {..<num} \<and> primary_count C = primary_count B \<and>
    (\<forall>s a. map_of C s = Some a \<longrightarrow> sa_shard_id a = s \<and> sa_primary_node a \<in> set nodes \<and> replicas_ok nodes ?k a)"
  proof (cases "?k > 0 \<and> \<not> length nodes < 2")
    case True
    obtain tot' where r: "assign_replicas prev ?ns ?k ?ids (B, tot) = (C, tot')"
      using True by (cases "assign_replicas prev ?ns ?k ?ids (B, tot)") (simp add: C_def)
    have "smap_ok C \<and> dom (map_of C) = {..<num} \<and> primary_count C = primary_count B \<and>
      (\<forall>s a. map_of C s = Some a \<longrightarrow> sa_shard_id a = s \<and> sa_primary_node a \<in> set ?ns \<and> replicas_ok ?ns ?k a)"
      using B by (intro assign_replicas_all [OF r]) auto
    then show ?thesis by (simp add: replicas_ok_def)
  next
    case False
    then have "C = B" by (simp only: C_def if_False)
    then show ?thesis using B False one by (auto simp: replicas_ok_def)
  qed
  then show "smap_ok A" "dom (map_of A) = {..<num}"
    "\<And>s a. map_of A s = Some a \<Longrightarrow> sa_shard_id a = s \<and> sa_primary_node a \<in> set nodes \<and> replicas_ok nodes (unat rf - 1) a"
    "\<And>m n. m \<in> set nodes \<Longrightarrow> n \<in> set nodes \<Longrightarrow> primary_count A m \<le> primary_count A n + 1"
    using inv by (simp_all add: A primaries_inv_def)
qed

lemma compute_total: "nodes \<noteq> [] \<Longrightarrow> \<exists>A. compute_assignments nodes num rf prev = Inr A"
  by (auto simp: compute_assignments_def Let_def split: prod.split)

text \<open>
  C19: With at least one node, an assignment is always computed and is well formed, whatever the previous
  assignment was: it has exactly the shards below the requested number, each under its own number, with a
  primary among the nodes and sorted, distinct replicas on other nodes, as many as the replication factor
  asks for or as there are other nodes.
\<close>
theorem compute_assignments_correct:
  assumes "nodes \<noteq> []"
  shows "\<exists>A. compute_assignments nodes num rf prev = Inr A \<and> dom (map_of A) = {..<num} \<and>
    (\<forall>s a. map_of A s = Some a \<longrightarrow> sa_shard_id a = s \<and> sa_primary_node a \<in> set nodes \<and>
       set (sa_replica_nodes a) \<subseteq> set nodes - {sa_primary_node a} \<and> distinct (sa_replica_nodes a) \<and>
       sorted (sa_replica_nodes a) \<and> length (sa_replica_nodes a) = min (unat rf - 1) (card (set nodes) - 1))"
proof -
  obtain A where A: "compute_assignments nodes num rf prev = Inr A" using compute_total [OF assms] by blast
  from compute_steps(2,3) [OF assms A] show ?thesis by (intro exI [of _ A]) (auto simp: A replicas_ok_def)
qed

text \<open>
  C20: Primaries are spread evenly: after any assignment, the numbers of primaries of two nodes differ by at
  most one.
\<close>
theorem primaries_balanced:
  assumes "compute_assignments nodes num rf prev = Inr A" "m \<in> set nodes" "n \<in> set nodes"
  shows "primary_count A m \<le> primary_count A n + 1"
proof -
  have "nodes \<noteq> []" using assms(2) by auto
  from compute_steps(4) [OF this assms] show ?thesis .
qed



lemma mod_shift_inj:
  assumes "x < n" "y < n" "(p + x) mod n = (p + y) mod (n :: nat)"
  shows "x = y"
  using assms
proof (induction x y rule: linorder_wlog)
  case (le x y)
  have "n dvd (p + y) - (p + x)" using le by (subst mod_eq_dvd_iff_nat [symmetric]) auto
  then have "n dvd y - x" by simp
  with le show ?case by (auto dest: dvd_imp_le)
qed simp

lemma mod_range:
  assumes "0 < (n :: nat)"
  shows "{i. i < n \<and> (\<exists>r < k. (p + r) mod n = i)} = (\<lambda>r. (p + r) mod n) ` {..<min k n}"
proof (intro equalityI subsetI)
  fix i assume "i \<in> {i. i < n \<and> (\<exists>r < k. (p + r) mod n = i)}"
  then obtain r where r: "r < k" "(p + r) mod n = i" by auto
  have "(p + r mod n) mod n = i" using r(2) by (simp add: mod_add_right_eq)
  moreover have "r mod n < min k n" using assms r(1) le_less_trans [OF mod_less_eq_dividend r(1)] by simp
  ultimately show "i \<in> (\<lambda>r. (p + r) mod n) ` {..<min k n}" by force
qed (use assms in auto)

text \<open>
  By position, a shard has as many holders as the replication factor asks for, or every node when
  there are fewer nodes.
\<close>
theorem replica_positions:
  assumes "0 < n"
  shows "card {i. i < n \<and> is_shard_replica s i rf n} = min (unat rf) n"
proof -
  let ?p = "unat s mod n"
  have "{i. i < n \<and> is_shard_replica s i rf n} = {i. i < n \<and> (\<exists>r < unat rf. (?p + r) mod n = i)}"
    using assms by (auto simp: is_shard_replica_def unat_gt_0)
  moreover have "inj_on (\<lambda>r. (?p + r) mod n) {..<min (unat rf) n}"
  proof (rule inj_onI)
    fix x y assume "x \<in> {..<min (unat rf) n}" "y \<in> {..<min (unat rf) n}" and e: "(?p + x) mod n = (?p + y) mod n"
    then show "x = y" using mod_shift_inj [of x n y ?p] by simp
  qed
  ultimately show ?thesis using mod_range [OF assms] by (simp add: card_image)
qed

section \<open>An example\<close>

definition demo_assignment :: assignments where
  "demo_assignment = (case compute_assignments [''a'', ''b'', ''c''] 4 2 None of Inr A \<Rightarrow> A | Inl _ \<Rightarrow> [])"

lemma demo_assignment: "compute_assignments [''a'', ''b'', ''c''] 4 2 None = Inr demo_assignment"
  using compute_total [of "[''a'', ''b'', ''c'']" 4 2 None] by (auto simp: demo_assignment_def)

theorem compute_assignments_correct_witness:
  "\<exists>A. compute_assignments [''a'', ''b'', ''c''] 4 2 None = Inr A \<and> dom (map_of A) = {..<4} \<and>
     (\<forall>s a. map_of A s = Some a \<longrightarrow> length (sa_replica_nodes a) = 1)"
  using compute_assignments_correct [of "[''a'', ''b'', ''c'']" 4 2 None] by auto

theorem primaries_balanced_witness:
  "primary_count demo_assignment ''a'' \<le> primary_count demo_assignment ''c'' + 1"
  by (rule primaries_balanced [OF demo_assignment]) simp_all


theorem replica_positions_witness:
  "card {i. i < (3 :: nat) \<and> is_shard_replica 5 i 2 3} = 2"
  using replica_positions [of 3 5 2] by simp

end
