(* ===== verification/SqlLexer.thy ===== *)
theory SqlLexer
  imports Utf8
begin

text \<open>
  The lexer of the SQL front end, \<^verbatim>\<open>src/sql/lexer.rs\<close>. A Rust string is the list of its characters, and a
  character its code point; the position in the input is what is left of it. What the Unicode tables of
  the standard library say about characters outside ASCII, the parser of floating-point numbers and the
  debug form of a token are the record \<open>sql_lib\<close>.
\<close>

section \<open>Characters and tokens\<close>

type_synonym ustr = "nat list"

definition u :: "string \<Rightarrow> ustr" where
  "u s = map of_char s"

datatype (plugins only: code size) token =
    TSelect | TFrom | TWhere | TInsert | TInto | TValues | TUpdate | TSet | TDelete | TCreate | TDrop |
  TTable | TOrderBy | TOrder | TBy | TGroupBy | TGroup | THaving | TLimit | TOffset | TAs | TJoin |
  TLeft | TRight | TInner | TOuter | TOn | TAnd | TOr | TNot | TIs | TNull | TBetween | TLike | TIn |
  TCount | TSum | TAvg | TMin | TMax | TTrue | TFalse | TAsc | TDesc
  | TIdentifier ustr | TInteger int | TFloat u64 | TString ustr | TPlaceholder ustr
  | TEqual | TNotEqual | TLessThan | TLessThanEq | TGreaterThan | TGreaterThanEq
  | TPlus | TMinus | TStar | TSlash | TPercent
  | TComma | TDot | TLeftParen | TRightParen | TSemicolon | TEof

record sql_lib =
  uni_alphabetic :: "nat \<Rightarrow> bool"
  uni_numeric :: "nat \<Rightarrow> bool"
  uni_uppercase :: "ustr \<Rightarrow> ustr"
  uni_lower :: "ustr \<Rightarrow> ustr"
  parse_f64 :: "ustr \<Rightarrow> u64 option"
  show_f64 :: "u64 \<Rightarrow> ustr"
  debug_token :: "token \<Rightarrow> string"
  show_ustr :: "ustr \<Rightarrow> string"

definition is_numeric :: "sql_lib \<Rightarrow> nat \<Rightarrow> bool" where
  "is_numeric X c = (if c < 0x80 then 48 \<le> c \<and> c \<le> 57 else uni_numeric X c)"

definition is_alphabetic :: "sql_lib \<Rightarrow> nat \<Rightarrow> bool" where
  "is_alphabetic X c = (if c < 0x80 then 65 \<le> c \<and> c \<le> 90 \<or> 97 \<le> c \<and> c \<le> 122 else uni_alphabetic X c)"

definition is_word :: "sql_lib \<Rightarrow> nat \<Rightarrow> bool" where
  "is_word X c \<longleftrightarrow> is_alphabetic X c \<or> is_numeric X c \<or> c = 95"

definition ascii_up :: "nat \<Rightarrow> nat" where
  "ascii_up c = (if 97 \<le> c \<and> c \<le> 122 then c - 32 else c)"

definition to_uppercase :: "sql_lib \<Rightarrow> ustr \<Rightarrow> ustr" where
  "to_uppercase X s = (if list_all (\<lambda>c. c < 0x80) s then map ascii_up s else uni_uppercase X s)"

text \<open>\<^verbatim>\<open>str::parse::<i64>\<close> on a string that starts with a numeric character.\<close>

definition parse_i64 :: "ustr \<Rightarrow> int option" where
  "parse_i64 s =
     (if s = [] \<or> list_ex (\<lambda>c. c < 48 \<or> 57 < c) s then None
      else let n = foldl (\<lambda>n c. 10 * n + (int c - 48)) 0 s in if n < 2 ^ 63 then Some n else None)"

section \<open>Reading a token\<close>

text \<open>Each function takes what is left of the input and returns what it leaves.\<close>

definition skip_whitespace :: "ustr \<Rightarrow> ustr" where
  "skip_whitespace cs = dropWhile is_whitespace cs"

fun skip_line_comment :: "ustr \<Rightarrow> ustr" where
  "skip_line_comment [] = []"
| "skip_line_comment (c # cs) = (if c = 10 then cs else skip_line_comment cs)"

fun skip_to_block_end :: "ustr \<Rightarrow> ustr" where
  "skip_to_block_end [] = []"
| "skip_to_block_end (c # cs) = (if c = 42 \<and> take 1 cs = [47] then tl cs else skip_to_block_end cs)"

definition skip_block_comment :: "ustr \<Rightarrow> ustr" where
  "skip_block_comment cs = skip_to_block_end (tl (tl cs))"

fun number_chars :: "sql_lib \<Rightarrow> bool \<Rightarrow> ustr \<Rightarrow> ustr \<times> bool \<times> ustr" where
  "number_chars X has_dot [] = ([], has_dot, [])"
| "number_chars X has_dot (c # cs) =
     (if is_numeric X c \<or> c = 46 \<and> \<not> has_dot \<and> cs \<noteq> [] \<and> is_numeric X (hd cs)
      then case number_chars X (has_dot \<or> \<not> is_numeric X c) cs of (n, d, rest) \<Rightarrow> (c # n, d, rest)
      else ([], has_dot, c # cs))"

definition read_number :: "sql_lib \<Rightarrow> ustr \<Rightarrow> (token \<times> ustr) db_result" where
  "read_number X cs =
     (case number_chars X False cs of (num_str, has_dot, rest) \<Rightarrow>
        if has_dot
        then (case parse_f64 X num_str of
                Some f \<Rightarrow> Inr (TFloat f, rest)
              | None \<Rightarrow> Inl (ParseError (''Invalid float number: '' @ show_ustr X num_str)))
        else (case parse_i64 num_str of
                Some n \<Rightarrow> Inr (TInteger n, rest)
              | None \<Rightarrow> Inl (ParseError (''Invalid integer number: '' @ show_ustr X num_str))))"

definition unescape :: "nat \<Rightarrow> nat" where
  "unescape c = (if c = 110 then 10 else if c = 116 then 9 else if c = 114 then 13 else c)"

fun string_chars :: "nat \<Rightarrow> ustr \<Rightarrow> (ustr \<times> ustr) option" where
  "string_chars q [] = None"
| "string_chars q (c # cs) =
     (if c = q then
        (case cs of
           d # r \<Rightarrow> if d = q then map_option (\<lambda>(s, rest). (q # s, rest)) (string_chars q r) else Some ([], cs)
         | [] \<Rightarrow> Some ([], []))
      else if c = 92 then
        (case cs of
           [] \<Rightarrow> None
         | e # r \<Rightarrow> map_option (\<lambda>(s, rest). (unescape e # s, rest)) (string_chars q r))
      else map_option (\<lambda>(s, rest). (c # s, rest)) (string_chars q cs))"

definition read_string :: "ustr \<Rightarrow> (token \<times> ustr) db_result" where
  "read_string cs =
     (case string_chars (hd cs) (tl cs) of
        Some (s, rest) \<Rightarrow> Inr (TString s, rest)
      | None \<Rightarrow> Inl (ParseError ''Unterminated string''))"

definition keywords_table :: "(ustr \<times> token) list" where
  "keywords_table =
     [(u ''SELECT'', TSelect), (u ''FROM'', TFrom), (u ''WHERE'', TWhere), (u ''INSERT'', TInsert),
      (u ''INTO'', TInto), (u ''VALUES'', TValues), (u ''UPDATE'', TUpdate), (u ''SET'', TSet),
      (u ''DELETE'', TDelete), (u ''CREATE'', TCreate), (u ''DROP'', TDrop), (u ''TABLE'', TTable),
      (u ''ORDER'', TOrder), (u ''BY'', TBy), (u ''GROUP'', TGroup), (u ''HAVING'', THaving),
      (u ''LIMIT'', TLimit), (u ''OFFSET'', TOffset), (u ''AS'', TAs), (u ''JOIN'', TJoin),
      (u ''LEFT'', TLeft), (u ''RIGHT'', TRight), (u ''INNER'', TInner), (u ''OUTER'', TOuter),
      (u ''ON'', TOn), (u ''AND'', TAnd), (u ''OR'', TOr), (u ''NOT'', TNot),
      (u ''IS'', TIs), (u ''NULL'', TNull), (u ''BETWEEN'', TBetween), (u ''LIKE'', TLike),
      (u ''IN'', TIn), (u ''COUNT'', TCount), (u ''SUM'', TSum), (u ''AVG'', TAvg),
      (u ''MIN'', TMin), (u ''MAX'', TMax), (u ''TRUE'', TTrue), (u ''FALSE'', TFalse),
      (u ''ASC'', TAsc), (u ''DESC'', TDesc)]"

definition read_identifier :: "sql_lib \<Rightarrow> ustr \<Rightarrow> token \<times> ustr" where
  "read_identifier X cs =
     (let ident = takeWhile (is_word X) cs; rest = dropWhile (is_word X) cs
      in (case map_of keywords_table (to_uppercase X ident) of Some t \<Rightarrow> t | None \<Rightarrow> TIdentifier ident, rest))"

definition read_quoted_identifier :: "ustr \<Rightarrow> (token \<times> ustr) db_result" where
  "read_quoted_identifier cs =
     (let closing = (if hd cs = 91 then 93 else hd cs);
          ident = takeWhile (\<lambda>c. c \<noteq> closing) (tl cs); rest = dropWhile (\<lambda>c. c \<noteq> closing) (tl cs)
      in if rest = [] then Inl (ParseError ''Unterminated quoted identifier'') else Inr (TIdentifier ident, tl rest))"

definition read_placeholder :: "sql_lib \<Rightarrow> ustr \<Rightarrow> (token \<times> ustr) db_result" where
  "read_placeholder X cs =
     (if hd cs = 63 then Inr (TPlaceholder (u ''?''), tl cs)
      else let name = takeWhile (is_word X) (tl cs)
           in if name = [] then Inl (ParseError (''Expected placeholder name after '' @ [CHR 0x27, CHR '':'', CHR 0x27]))
              else Inr (TPlaceholder name, dropWhile (is_word X) (tl cs)))"

section \<open>The token stream\<close>

lemma skip_length:
  "length (skip_whitespace cs) \<le> length cs" "length (skip_line_comment cs) \<le> length cs"
  "length (skip_to_block_end cs) \<le> length cs" "length (skip_block_comment cs) \<le> length cs - 2"
proof -
  show "length (skip_whitespace cs) \<le> length cs" by (simp add: skip_whitespace_def length_dropWhile_le)
  show "length (skip_line_comment cs) \<le> length cs" by (induction cs) auto
  have *: "length (skip_to_block_end cs) \<le> length cs" for cs by (induction cs) auto
  then show "length (skip_to_block_end cs) \<le> length cs" .
  show "length (skip_block_comment cs) \<le> length cs - 2"
    using * [of "tl (tl cs)"] by (simp add: skip_block_comment_def)
qed

lemma take2_Cons: "take 2 xs = [a, b] \<Longrightarrow> \<exists>r. xs = a # b # r"
  by (cases xs; cases "tl xs") (auto simp: numeral_2_eq_2)

function skip_trivia :: "ustr \<Rightarrow> ustr" where
  "skip_trivia cs =
     (let cs' = skip_whitespace cs
      in if take 2 cs' = [45, 45] then skip_trivia (skip_line_comment cs')
         else if take 2 cs' = [47, 42] then skip_trivia (skip_block_comment cs')
         else cs')"
  by pat_completeness auto
termination
proof (relation "measure length")
  fix cs cs' assume *: "cs' = skip_whitespace cs" "take 2 cs' = [45, 45]"
  from take2_Cons [OF *(2)] obtain r where "cs' = 45 # 45 # r" by blast
  then show "(skip_line_comment cs', cs) \<in> measure length"
    using skip_length(1) [of cs] skip_length(2) [of r] *(1) by simp
next
  fix cs cs' assume *: "cs' = skip_whitespace cs" "take 2 cs' = [47, 42]"
  from take2_Cons [OF *(2)] obtain r where "cs' = 47 # 42 # r" by blast
  then show "(skip_block_comment cs', cs) \<in> measure length"
    using skip_length(1) [of cs] skip_length(4) [of cs'] *(1) by simp
qed simp

declare skip_trivia.simps [simp del]

text \<open>Operators and delimiters of one or two characters.\<close>

definition operator_token :: "ustr \<Rightarrow> (token \<times> ustr) option" where
  "operator_token cs =
     (let c = hd cs; r = tl cs; next_is = (\<lambda>d. take 1 r = [d])
      in if c = 61 then Some (TEqual, r)
         else if c = 33 then Some (if next_is 61 then (TNotEqual, tl r) else (TNot, r))
         else if c = 60 then Some (if next_is 61 then (TLessThanEq, tl r)
                                   else if next_is 62 then (TNotEqual, tl r) else (TLessThan, r))
         else if c = 62 then Some (if next_is 61 then (TGreaterThanEq, tl r) else (TGreaterThan, r))
         else map_option (\<lambda>t. (t, r))
                (map_of [(43, TPlus), (45, TMinus), (42, TStar), (47, TSlash), (37, TPercent), (44, TComma),
                         (46, TDot), (40, TLeftParen), (41, TRightParen), (59, TSemicolon)] c))"

definition next_token :: "sql_lib \<Rightarrow> ustr \<Rightarrow> (token \<times> ustr) db_result" where
  "next_token X input =
     (let cs = skip_trivia input
      in if cs = [] then Inr (TEof, [])
         else let c = hd cs
              in if is_numeric X c then read_number X cs
                 else if c = 39 \<or> c = 34 then read_string cs
                 else if c = 96 \<or> c = 91 then read_quoted_identifier cs
                 else if is_alphabetic X c \<or> c = 95 then Inr (read_identifier X cs)
                 else if c = 63 \<or> c = 58 then read_placeholder X cs
                 else case operator_token cs of
                        Some r \<Rightarrow> Inr r
                      | None \<Rightarrow> Inl (ParseError (''Unexpected character: '' @ show_ustr X [c])))"

end
