(* ===== verification/SqlStream.thy ===== *)
theory SqlStream
  imports SqlLexer
begin

text \<open>
  The token stream of a SQL text (\<^verbatim>\<open>SqlLexer::tokenize\<close>): every token but the end of input consumes
  characters, so the loop ends.
\<close>

section \<open>Every token consumes input\<close>

lemma number_chars_split: "number_chars X d cs = (n, d', r) \<Longrightarrow> cs = n @ r"
  by (induction X d cs arbitrary: n d' r rule: number_chars.induct) (auto split: if_splits prod.splits)

lemma number_chars_first: "number_chars X d (c # cs) = (n, d', r) \<Longrightarrow> is_numeric X c \<Longrightarrow> n \<noteq> []"
  by (auto split: prod.splits)

lemma string_chars_shorter: "string_chars q cs = Some (s, r) \<Longrightarrow> length r < length cs"
  by (induction q cs arbitrary: s r rule: string_chars.induct) (fastforce split: if_splits list.splits)+

lemma read_shorter:
  assumes "cs \<noteq> []"
  shows "is_numeric X (hd cs) \<Longrightarrow> read_number X cs = Inr (t, r) \<Longrightarrow> length r < length cs \<and> t \<noteq> TEof"
    "read_string cs = Inr (t, r) \<Longrightarrow> length r < length cs \<and> t \<noteq> TEof"
    "read_quoted_identifier cs = Inr (t, r) \<Longrightarrow> length r < length cs \<and> t \<noteq> TEof"
    "is_word X (hd cs) \<Longrightarrow> read_identifier X cs = (t, r) \<Longrightarrow> length r < length cs \<and> t \<noteq> TEof"
    "read_placeholder X cs = Inr (t, r) \<Longrightarrow> length r < length cs \<and> t \<noteq> TEof"
    "operator_token cs = Some (t, r) \<Longrightarrow> length r < length cs \<and> t \<noteq> TEof"
proof -
  obtain c cs' where cs: "cs = c # cs'" using assms by (cases cs) auto
  have tails: "length (tl xs) \<le> length xs" "length (dropWhile P xs) \<le> length xs" for xs :: ustr and P
    by (simp_all add: length_dropWhile_le)
  show "is_numeric X (hd cs) \<Longrightarrow> read_number X cs = Inr (t, r) \<Longrightarrow> length r < length cs \<and> t \<noteq> TEof"
  proof -
    assume "is_numeric X (hd cs)" "read_number X cs = Inr (t, r)"
    moreover obtain n d r' where n: "number_chars X False cs = (n, d, r')" by (metis prod_cases3)
    moreover have "n \<noteq> []" using number_chars_first [of X False c cs'] n calculation(1) by (simp add: cs del: number_chars.simps)
    ultimately show ?thesis using number_chars_split [OF n] by (auto simp: read_number_def split: if_splits option.splits)
  qed
  show "read_string cs = Inr (t, r) \<Longrightarrow> length r < length cs \<and> t \<noteq> TEof"
    by (auto simp: read_string_def cs split: option.splits dest!: string_chars_shorter)
  show "read_quoted_identifier cs = Inr (t, r) \<Longrightarrow> length r < length cs \<and> t \<noteq> TEof"
    by (auto simp: read_quoted_identifier_def cs Let_def less_Suc_eq_le split: if_splits
        intro: le_trans [OF diff_le_self length_dropWhile_le])
  show "read_placeholder X cs = Inr (t, r) \<Longrightarrow> length r < length cs \<and> t \<noteq> TEof"
    by (auto simp: read_placeholder_def cs Let_def less_Suc_eq_le length_dropWhile_le split: if_splits)
  show "operator_token cs = Some (t, r) \<Longrightarrow> length r < length cs \<and> t \<noteq> TEof"
    by (auto simp: operator_token_def cs Let_def split: if_splits)
  have "TEof \<notin> set (map snd keywords_table)" by (simp add: keywords_table_def)
  then have "map_of keywords_table k \<noteq> Some TEof" for k by (force dest: map_of_SomeD)
  then show "is_word X (hd cs) \<Longrightarrow> read_identifier X cs = (t, r) \<Longrightarrow> length r < length cs \<and> t \<noteq> TEof"
    by (auto simp: read_identifier_def cs Let_def less_Suc_eq_le length_dropWhile_le split: option.splits)
qed

lemma skip_trivia_length: "length (skip_trivia cs) \<le> length cs"
proof (induction cs rule: skip_trivia.induct)
  case (1 cs)
  let ?c = "skip_whitespace cs"
  note l = skip_length(1) [of cs] skip_length(2) [of ?c] skip_length(4) [of ?c]
  show ?case using 1 l by (subst skip_trivia.simps) (auto simp: Let_def)
qed

lemma next_token_shorter:
  assumes "next_token X cs = Inr (t, r)" "t \<noteq> TEof"
  shows "length r < length cs"
proof -
  let ?c = "skip_trivia cs"
  have "?c \<noteq> []" using assms by (auto simp: next_token_def)
  note s = read_shorter [OF this]
  have "length r < length ?c"
    using assms \<open>?c \<noteq> []\<close> s(1) [of X t r] s(2) [of t r] s(3) [of t r] s(4) [of X t r] s(5) [of X t r] s(6) [of t r]
    by (auto simp: next_token_def Let_def is_word_def split: if_splits option.splits)
  then show ?thesis using skip_trivia_length [of cs] by simp
qed

function sql_tokenize :: "sql_lib \<Rightarrow> ustr \<Rightarrow> token list db_result" where
  "sql_tokenize X cs =
     (case next_token X cs of
        Inl e \<Rightarrow> Inl e
      | Inr (t, rest) \<Rightarrow>
          if t = TEof then Inr [TEof]
          else (case sql_tokenize X rest of Inl e \<Rightarrow> Inl e | Inr ts \<Rightarrow> Inr (t # ts)))"
  by pat_completeness auto
termination
  by (relation "measure (\<lambda>(X, cs). length cs)") (auto intro: next_token_shorter)

declare sql_tokenize.simps [simp del]

lemma sql_tokenize_eof: "sql_tokenize X cs = Inr ts \<Longrightarrow> ts \<noteq> [] \<and> last ts = TEof"
proof (induction X cs arbitrary: ts rule: sql_tokenize.induct)
  case (1 X cs)
  then show ?case by (subst (asm) sql_tokenize.simps) (fastforce split: sum.splits prod.splits if_splits)
qed

end
