(* ===== verification/SqlParser.thy ===== *)
theory SqlParser
  imports SqlStream
begin

text \<open>
  The parser of the SQL front end, \<^verbatim>\<open>src/sql/parser.rs\<close>: recursive descent over the tokens that are left. The
  code recurses through \<open>parse_expression\<close> and loops over operators and lists; both carry a bound here,
  the bound is the number of tokens that are left, and \<open>SqlParserCorrect\<close> shows that it is never reached.
\<close>

section \<open>Syntax\<close>

datatype binary_op =
    BEq | BNotEq | BLt | BLtEq | BGt | BGtEq | BAnd | BOr | BPlus | BMinus | BMultiply | BDivide | BModulo | BLike

datatype sql_expr =
    EColumn ustr
  | EQualified ustr ustr
  | EInteger int
  | EFloat u64
  | EString ustr
  | EBoolean bool
  | ENull
  | EPlaceholder ustr
  | EBinary sql_expr binary_op sql_expr
  | ENot sql_expr
  | EIsNull sql_expr
  | EIsNotNull sql_expr
  | EBetween sql_expr sql_expr sql_expr
  | EInList sql_expr "sql_expr list"
  | EFunction ustr "sql_expr list"

datatype join_type = JInner | JLeft | JRight

record join_clause =
  jc_type :: join_type
  jc_table :: ustr
  jc_alias :: "ustr option"
  jc_on :: sql_expr

datatype select_column =
    SStar
  | SColumn ustr "ustr option"
  | SFunction ustr "sql_expr list" "ustr option"
  | SExpression sql_expr "ustr option"

record order_item =
  oi_column :: ustr
  oi_descending :: bool

record select_stmt =
  sel_columns :: "select_column list"
  sel_from :: ustr
  sel_from_alias :: "ustr option"
  sel_joins :: "join_clause list"
  sel_where :: "sql_expr option"
  sel_group_by :: "ustr list"
  sel_having :: "sql_expr option"
  sel_order_by :: "order_item list"
  sel_limit :: "int option"
  sel_offset :: "int option"

record insert_stmt =
  ins_table :: ustr
  ins_columns :: "ustr list option"
  ins_values :: "sql_expr list list"

record update_stmt =
  upd_table :: ustr
  upd_assignments :: "(ustr \<times> sql_expr) list"
  upd_where :: "sql_expr option"

record delete_stmt =
  del_table :: ustr
  del_where :: "sql_expr option"

datatype sql_stmt = Select select_stmt | Insert insert_stmt | Update update_stmt | Delete delete_stmt

section \<open>Parsers\<close>

text \<open>A parser fails, succeeds with the tokens it leaves, or reaches its bound.\<close>

datatype 'a presult = PBound | PErr db_error | POk 'a "token list"

type_synonym 'a parser = "token list \<Rightarrow> 'a presult"

definition pret :: "'a \<Rightarrow> 'a parser" where
  "pret a ts = POk a ts"

definition pbind :: "'a parser \<Rightarrow> ('a \<Rightarrow> 'b parser) \<Rightarrow> 'b parser" where
  "pbind p f ts = (case p ts of POk a r \<Rightarrow> f a r | PErr e \<Rightarrow> PErr e | PBound \<Rightarrow> PBound)"

definition current :: "token list \<Rightarrow> token" where
  "current ts = (case ts of t # _ \<Rightarrow> t | [] \<Rightarrow> TEof)"

definition expect :: "sql_lib \<Rightarrow> token \<Rightarrow> unit parser" where
  "expect X t ts =
     (if current ts = t then POk () (tl ts)
      else PErr (ParseError (''Expected '' @ debug_token X t @ '', found '' @ debug_token X (current ts))))"

definition skip_if :: "token \<Rightarrow> bool parser" where
  "skip_if t ts = (if current ts = t then POk True (tl ts) else POk False ts)"

definition expect_identifier :: "sql_lib \<Rightarrow> ustr parser" where
  "expect_identifier X ts =
     (case current ts of
        TIdentifier n \<Rightarrow> POk n (tl ts)
      | TString n \<Rightarrow> POk n (tl ts)
      | t \<Rightarrow> PErr (ParseError (''Expected identifier, found '' @ debug_token X t)))"

text \<open>\<^verbatim>\<open>loop { item; if comma { advance } else { break } }\<close>\<close>

primrec comma_loop :: "nat \<Rightarrow> 'a parser \<Rightarrow> 'a list parser" where
  "comma_loop 0 p = (\<lambda>_. PBound)"
| "comma_loop (Suc k) p =
     pbind p (\<lambda>a. pbind (skip_if TComma) (\<lambda>again. if again then pbind (comma_loop k p) (\<lambda>as. pret (a # as)) else pret [a]))"

definition comma_list :: "'a parser \<Rightarrow> 'a list parser" where
  "comma_list p ts = comma_loop (Suc (length ts)) p ts"

text \<open>\<^verbatim>\<open>while let Some(op) = .. { advance; right; left = left op right }\<close>\<close>

primrec binary_loop :: "nat \<Rightarrow> (token \<Rightarrow> binary_op option) \<Rightarrow> sql_expr parser \<Rightarrow> sql_expr \<Rightarrow> sql_expr parser" where
  "binary_loop 0 ops p left = (\<lambda>_. PBound)"
| "binary_loop (Suc k) ops p left =
     (\<lambda>ts. case ops (current ts) of
             None \<Rightarrow> POk left ts
           | Some op \<Rightarrow> pbind p (\<lambda>right. binary_loop k ops p (EBinary left op right)) (tl ts))"

definition left_assoc :: "(token \<Rightarrow> binary_op option) \<Rightarrow> sql_expr parser \<Rightarrow> sql_expr parser" where
  "left_assoc ops p = pbind p (\<lambda>left ts. binary_loop (Suc (length ts)) ops p left ts)"

section \<open>Expressions\<close>

text \<open>The levels of precedence, with \<open>sub\<close> for \<^verbatim>\<open>parse_expression\<close>.\<close>

definition aggregate_name :: "token \<Rightarrow> string option" where
  "aggregate_name t = map_of [(TCount, ''COUNT''), (TSum, ''SUM''), (TAvg, ''AVG''), (TMin, ''MIN''), (TMax, ''MAX'')] t"

definition parse_aggregate_args :: "sql_expr parser \<Rightarrow> sql_expr list parser" where
  "parse_aggregate_args sub ts =
     (if current ts = TStar then POk [EColumn (u ''*'')] (tl ts)
      else if current ts = TRightParen then POk [] ts
      else comma_list sub ts)"

definition parse_identifier_expr :: "sql_lib \<Rightarrow> sql_expr parser \<Rightarrow> ustr \<Rightarrow> sql_expr parser" where
  "parse_identifier_expr X sub name ts =
     (if current ts = TLeftParen then
        pbind (\<lambda>ts. if current ts = TRightParen then POk [] ts else comma_list sub ts) (\<lambda>args.
        pbind (expect X TRightParen) (\<lambda>_. pret (EFunction name args))) (tl ts)
      else if current ts = TDot then
        pbind (expect_identifier X) (\<lambda>column. pret (EQualified name column)) (tl ts)
      else POk (EColumn name) ts)"

definition parse_primary_expression :: "sql_lib \<Rightarrow> sql_expr parser \<Rightarrow> sql_expr parser" where
  "parse_primary_expression X sub ts =
     (case current ts of
        TInteger n \<Rightarrow> POk (EInteger n) (tl ts)
      | TFloat n \<Rightarrow> POk (EFloat n) (tl ts)
      | TString s \<Rightarrow> POk (EString s) (tl ts)
      | TTrue \<Rightarrow> POk (EBoolean True) (tl ts)
      | TFalse \<Rightarrow> POk (EBoolean False) (tl ts)
      | TNull \<Rightarrow> POk ENull (tl ts)
      | TPlaceholder n \<Rightarrow> POk (EPlaceholder n) (tl ts)
      | TLeftParen \<Rightarrow> pbind sub (\<lambda>e. pbind (expect X TRightParen) (\<lambda>_. pret e)) (tl ts)
      | TIdentifier n \<Rightarrow> parse_identifier_expr X sub n (tl ts)
      | t \<Rightarrow>
          (case aggregate_name t of
             Some name \<Rightarrow>
               pbind (expect X TLeftParen) (\<lambda>_.
               pbind (parse_aggregate_args sub) (\<lambda>args.
               pbind (expect X TRightParen) (\<lambda>_. pret (EFunction (u name) args)))) (tl ts)
           | None \<Rightarrow> PErr (ParseError (''Unexpected token in expression: '' @ debug_token X t))))"

definition multiplicative_op :: "token \<Rightarrow> binary_op option" where
  "multiplicative_op t = map_of [(TStar, BMultiply), (TSlash, BDivide), (TPercent, BModulo)] t"

definition additive_op :: "token \<Rightarrow> binary_op option" where
  "additive_op t = map_of [(TPlus, BPlus), (TMinus, BMinus)] t"

definition comparison_op :: "token \<Rightarrow> binary_op option" where
  "comparison_op t = map_of [(TEqual, BEq), (TNotEqual, BNotEq), (TLessThan, BLt), (TLessThanEq, BLtEq),
                             (TGreaterThan, BGt), (TGreaterThanEq, BGtEq)] t"

definition parse_multiplicative_expression :: "sql_lib \<Rightarrow> sql_expr parser \<Rightarrow> sql_expr parser" where
  "parse_multiplicative_expression X sub = left_assoc multiplicative_op (parse_primary_expression X sub)"

definition parse_additive_expression :: "sql_lib \<Rightarrow> sql_expr parser \<Rightarrow> sql_expr parser" where
  "parse_additive_expression X sub = left_assoc additive_op (parse_multiplicative_expression X sub)"

definition comparison_rest :: "sql_lib \<Rightarrow> sql_expr parser \<Rightarrow> sql_expr \<Rightarrow> sql_expr parser" where
  "comparison_rest X sub left ts =
     (let add = parse_additive_expression X sub in
      if current ts = TIs then
        pbind (skip_if TNot) (\<lambda>neg. pbind (expect X TNull) (\<lambda>_.
          pret (if neg then EIsNotNull left else EIsNull left))) (tl ts)
      else if current ts = TBetween then
        pbind add (\<lambda>low. pbind (expect X TAnd) (\<lambda>_. pbind add (\<lambda>high. pret (EBetween left low high)))) (tl ts)
      else if current ts = TIn then
        pbind (expect X TLeftParen) (\<lambda>_. pbind (comma_list sub) (\<lambda>list.
        pbind (expect X TRightParen) (\<lambda>_. pret (EInList left list)))) (tl ts)
      else if current ts = TLike then
        pbind add (\<lambda>right. pret (EBinary left BLike right)) (tl ts)
      else case comparison_op (current ts) of
             Some op \<Rightarrow> pbind add (\<lambda>right. pret (EBinary left op right)) (tl ts)
           | None \<Rightarrow> POk left ts)"

definition parse_comparison_expression :: "sql_lib \<Rightarrow> sql_expr parser \<Rightarrow> sql_expr parser" where
  "parse_comparison_expression X sub = pbind (parse_additive_expression X sub) (comparison_rest X sub)"

fun parse_not_expression :: "sql_lib \<Rightarrow> sql_expr parser \<Rightarrow> sql_expr parser" where
  "parse_not_expression X sub [] = parse_comparison_expression X sub []"
| "parse_not_expression X sub (t # ts) =
     (if t = TNot then
        (case parse_not_expression X sub ts of POk e r \<Rightarrow> POk (ENot e) r | PErr e \<Rightarrow> PErr e | PBound \<Rightarrow> PBound)
      else parse_comparison_expression X sub (t # ts))"

definition parse_and_expression :: "sql_lib \<Rightarrow> sql_expr parser \<Rightarrow> sql_expr parser" where
  "parse_and_expression X sub = left_assoc (\<lambda>t. if t = TAnd then Some BAnd else None) (parse_not_expression X sub)"

definition parse_or_expression :: "sql_lib \<Rightarrow> sql_expr parser \<Rightarrow> sql_expr parser" where
  "parse_or_expression X sub = left_assoc (\<lambda>t. if t = TOr then Some BOr else None) (parse_and_expression X sub)"

primrec expression_within :: "sql_lib \<Rightarrow> nat \<Rightarrow> sql_expr parser" where
  "expression_within X 0 = (\<lambda>_. PBound)"
| "expression_within X (Suc n) = parse_or_expression X (expression_within X n)"

definition parse_expression :: "sql_lib \<Rightarrow> sql_expr parser" where
  "parse_expression X ts = expression_within X (Suc (length ts)) ts"

section \<open>Statements\<close>

text \<open>
  An implicit alias is an identifier; the code excludes keywords from it, which are tokens of their own
  and never \<open>TIdentifier\<close>, so the three places that parse an alias are one definition.
\<close>

definition parse_optional_alias :: "sql_lib \<Rightarrow> ustr option parser" where
  "parse_optional_alias X ts =
     (case current ts of
        TAs \<Rightarrow> pbind (expect_identifier X) (\<lambda>a. pret (Some a)) (tl ts)
      | TIdentifier n \<Rightarrow> POk (Some n) (tl ts)
      | _ \<Rightarrow> POk None ts)"

text \<open>An optional clause: the parser after its keyword, or the default.\<close>

definition clause :: "token \<Rightarrow> 'a \<Rightarrow> 'a parser \<Rightarrow> 'a parser" where
  "clause t d p ts = (if current ts = t then p (tl ts) else POk d ts)"

definition parse_where :: "sql_lib \<Rightarrow> token \<Rightarrow> sql_expr option parser" where
  "parse_where X t = clause t None (pbind (parse_expression X) (\<lambda>e. pret (Some e)))"

definition parse_qualified_name :: "sql_lib \<Rightarrow> ustr parser" where
  "parse_qualified_name X =
     pbind (expect_identifier X) (\<lambda>name.
       clause TDot name (pbind (expect_identifier X) (\<lambda>col. pret (name @ u ''.'' @ col))))"

definition parse_identifier_list :: "sql_lib \<Rightarrow> ustr list parser" where
  "parse_identifier_list X = comma_list (parse_qualified_name X)"

definition parse_order_by_item :: "sql_lib \<Rightarrow> order_item parser" where
  "parse_order_by_item X =
     pbind (expect_identifier X) (\<lambda>column.
     pbind (skip_if TDesc) (\<lambda>desc.
     pbind (if desc then pret True else skip_if TAsc) (\<lambda>_.
     pret \<lparr>oi_column = column, oi_descending = desc\<rparr>)))"

definition parse_order_by_list :: "sql_lib \<Rightarrow> order_item list parser" where
  "parse_order_by_list X = comma_list (parse_order_by_item X)"

definition parse_expression_list :: "sql_lib \<Rightarrow> sql_expr list parser" where
  "parse_expression_list X = comma_list (parse_expression X)"

definition parse_select_column :: "sql_lib \<Rightarrow> select_column parser" where
  "parse_select_column X ts =
     (if current ts = TStar then POk SStar (tl ts)
      else case aggregate_name (current ts) of
             Some name \<Rightarrow>
               pbind (expect X TLeftParen) (\<lambda>_.
               pbind (\<lambda>ts. if current ts = TStar then POk [EColumn (u ''*'')] (tl ts) else parse_expression_list X ts) (\<lambda>args.
               pbind (expect X TRightParen) (\<lambda>_.
               pbind (parse_optional_alias X) (\<lambda>alias. pret (SFunction (u name) args alias))))) (tl ts)
           | None \<Rightarrow>
               pbind (parse_qualified_name X) (\<lambda>name.
               pbind (parse_optional_alias X) (\<lambda>alias. pret (SColumn name alias))) ts)"

definition parse_select_columns :: "sql_lib \<Rightarrow> select_column list parser" where
  "parse_select_columns X = comma_list (parse_select_column X)"

definition parse_join_type :: "sql_lib \<Rightarrow> join_type option parser" where
  "parse_join_type X ts =
     (case current ts of
        TJoin \<Rightarrow> POk (Some JInner) (tl ts)
      | TInner \<Rightarrow> pbind (expect X TJoin) (\<lambda>_. pret (Some JInner)) (tl ts)
      | TLeft \<Rightarrow> pbind (skip_if TOuter) (\<lambda>_. pbind (expect X TJoin) (\<lambda>_. pret (Some JLeft))) (tl ts)
      | TRight \<Rightarrow> pbind (skip_if TOuter) (\<lambda>_. pbind (expect X TJoin) (\<lambda>_. pret (Some JRight))) (tl ts)
      | _ \<Rightarrow> POk None ts)"

primrec join_loop :: "nat \<Rightarrow> sql_lib \<Rightarrow> join_clause list parser" where
  "join_loop 0 X = (\<lambda>_. PBound)"
| "join_loop (Suc k) X =
     pbind (parse_join_type X) (\<lambda>jt.
       case jt of
         None \<Rightarrow> pret []
       | Some ty \<Rightarrow>
           pbind (expect_identifier X) (\<lambda>table.
           pbind (parse_optional_alias X) (\<lambda>alias.
           pbind (expect X TOn) (\<lambda>_.
           pbind (parse_expression X) (\<lambda>cond.
           pbind (join_loop k X) (\<lambda>joins.
           pret (\<lparr>jc_type = ty, jc_table = table, jc_alias = alias, jc_on = cond\<rparr> # joins)))))))"

definition parse_join_clauses :: "sql_lib \<Rightarrow> join_clause list parser" where
  "parse_join_clauses X ts = join_loop (Suc (length ts)) X ts"

definition parse_count :: "string \<Rightarrow> int option parser" where
  "parse_count name ts =
     (case current ts of TInteger n \<Rightarrow> POk (Some n) (tl ts)
      | _ \<Rightarrow> PErr (ParseError (''Expected integer after '' @ name)))"

definition parse_select :: "sql_lib \<Rightarrow> sql_stmt parser" where
  "parse_select X =
     pbind (expect X TSelect) (\<lambda>_.
     pbind (parse_select_columns X) (\<lambda>columns.
     pbind (expect X TFrom) (\<lambda>_.
     pbind (expect_identifier X) (\<lambda>from.
     pbind (parse_optional_alias X) (\<lambda>from_alias.
     pbind (parse_join_clauses X) (\<lambda>joins.
     pbind (parse_where X TWhere) (\<lambda>where_clause.
     pbind (clause TGroup [] (pbind (expect X TBy) (\<lambda>_. parse_identifier_list X))) (\<lambda>group_by.
     pbind (parse_where X THaving) (\<lambda>having.
     pbind (clause TOrder [] (pbind (expect X TBy) (\<lambda>_. parse_order_by_list X))) (\<lambda>order_by.
     pbind (clause TLimit None (parse_count ''LIMIT'')) (\<lambda>limit.
     pbind (clause TOffset None (parse_count ''OFFSET'')) (\<lambda>offset.
     pret (Select \<lparr>sel_columns = columns, sel_from = from, sel_from_alias = from_alias, sel_joins = joins,
                    sel_where = where_clause, sel_group_by = group_by, sel_having = having,
                    sel_order_by = order_by, sel_limit = limit, sel_offset = offset\<rparr>)))))))))))))"

definition parse_value_row :: "sql_lib \<Rightarrow> sql_expr list parser" where
  "parse_value_row X =
     pbind (expect X TLeftParen) (\<lambda>_. pbind (parse_expression_list X) (\<lambda>row.
     pbind (expect X TRightParen) (\<lambda>_. pret row)))"

definition parse_insert :: "sql_lib \<Rightarrow> sql_stmt parser" where
  "parse_insert X =
     pbind (expect X TInsert) (\<lambda>_.
     pbind (expect X TInto) (\<lambda>_.
     pbind (expect_identifier X) (\<lambda>table.
     pbind (clause TLeftParen None (pbind (parse_identifier_list X) (\<lambda>cols.
              pbind (expect X TRightParen) (\<lambda>_. pret (Some cols))))) (\<lambda>columns.
     pbind (expect X TValues) (\<lambda>_.
     pbind (comma_list (parse_value_row X)) (\<lambda>values.
     pret (Insert \<lparr>ins_table = table, ins_columns = columns, ins_values = values\<rparr>)))))))"

definition parse_assignment :: "sql_lib \<Rightarrow> (ustr \<times> sql_expr) parser" where
  "parse_assignment X =
     pbind (expect_identifier X) (\<lambda>column. pbind (expect X TEqual) (\<lambda>_.
     pbind (parse_expression X) (\<lambda>val. pret (column, val))))"

definition parse_update :: "sql_lib \<Rightarrow> sql_stmt parser" where
  "parse_update X =
     pbind (expect X TUpdate) (\<lambda>_.
     pbind (expect_identifier X) (\<lambda>table.
     pbind (expect X TSet) (\<lambda>_.
     pbind (comma_list (parse_assignment X)) (\<lambda>assignments.
     pbind (parse_where X TWhere) (\<lambda>where_clause.
     pret (Update \<lparr>upd_table = table, upd_assignments = assignments, upd_where = where_clause\<rparr>))))))"

definition parse_delete :: "sql_lib \<Rightarrow> sql_stmt parser" where
  "parse_delete X =
     pbind (expect X TDelete) (\<lambda>_.
     pbind (expect X TFrom) (\<lambda>_.
     pbind (expect_identifier X) (\<lambda>table.
     pbind (parse_where X TWhere) (\<lambda>where_clause.
     pret (Delete \<lparr>del_table = table, del_where = where_clause\<rparr>)))))"

definition parse_statement :: "sql_lib \<Rightarrow> sql_stmt parser" where
  "parse_statement X ts =
     (case current ts of
        TSelect \<Rightarrow> parse_select X ts
      | TInsert \<Rightarrow> parse_insert X ts
      | TUpdate \<Rightarrow> parse_update X ts
      | TDelete \<Rightarrow> parse_delete X ts
      | t \<Rightarrow> PErr (ParseError (''Unexpected token at start of statement: '' @ debug_token X t)))"

definition parse :: "sql_lib \<Rightarrow> sql_stmt parser" where
  "parse X = pbind (parse_statement X) (\<lambda>stmt. pbind (skip_if TSemicolon) (\<lambda>_. pret stmt))"

text \<open>\<^verbatim>\<open>SqlParser::new(sql)?.parse()?\<close>: the statement, and \<open>None\<close> for a bound that was reached.\<close>

definition parse_sql :: "sql_lib \<Rightarrow> ustr \<Rightarrow> sql_stmt db_result option" where
  "parse_sql X cs =
     (case sql_tokenize X cs of
        Inl e \<Rightarrow> Some (Inl e)
      | Inr ts \<Rightarrow> (case parse X ts of POk s _ \<Rightarrow> Some (Inr s) | PErr e \<Rightarrow> Some (Inl e) | PBound \<Rightarrow> None))"

end
