(* ===== verification/SqlTranslator.thy ===== *)
theory SqlTranslator
  imports SqlParser "HOL-Library.AList"
begin

text \<open>
  The translator of the SQL front end, \<^verbatim>\<open>src/sql/translator.rs\<close>: a statement becomes the text of an SDBQL
  query. The map of aliases is an association list with distinct keys; the order in which a hash map is
  iterated is the argument \<open>ho\<close>. The function \<^verbatim>\<open>translate_having_expr\<close> of the source has no caller.
\<close>

section \<open>Text\<close>

fun ujoin :: "string \<Rightarrow> ustr list \<Rightarrow> ustr" where
  "ujoin sep [] = []"
| "ujoin sep [x] = x"
| "ujoin sep (x # y # ys) = x @ u sep @ ujoin sep (y # ys)"

definition show_i64 :: "int \<Rightarrow> ustr" where
  "show_i64 n = (if n < 0 then u ''-'' @ u (show_nat (nat (- n))) else u (show_nat (nat n)))"

definition lowercase :: "sql_lib \<Rightarrow> ustr \<Rightarrow> ustr" where
  "lowercase X s =
     (if list_all (\<lambda>c. c < 0x80) s then map (\<lambda>c. if 65 \<le> c \<and> c \<le> 90 then c + 32 else c) s else uni_lower X s)"

definition has_dot :: "ustr \<Rightarrow> bool" where
  "has_dot s = (46 \<in> set s)"

text \<open>\<^verbatim>\<open>s.split('.').next_back()\<close>\<close>

definition last_part :: "ustr \<Rightarrow> ustr" where
  "last_part s = rev (takeWhile (\<lambda>c. c \<noteq> 46) (rev s))"

section \<open>Expressions\<close>

definition op_str :: "binary_op \<Rightarrow> string" where
  "op_str op =
     (case op of BEq \<Rightarrow> ''=='' | BNotEq \<Rightarrow> ''!='' | BLt \<Rightarrow> ''<'' | BLtEq \<Rightarrow> ''<='' | BGt \<Rightarrow> ''>'' | BGtEq \<Rightarrow> ''>=''
      | BAnd \<Rightarrow> ''AND'' | BOr \<Rightarrow> ''OR'' | BPlus \<Rightarrow> ''+'' | BMinus \<Rightarrow> ''-'' | BMultiply \<Rightarrow> ''*'' | BDivide \<Rightarrow> ''/''
      | BModulo \<Rightarrow> ''%'' | BLike \<Rightarrow> ''LIKE'')"

text \<open>A string literal: a double quote is written with a backslash, nothing else is changed.\<close>

definition quote_char :: "nat \<Rightarrow> ustr" where
  "quote_char c = (if c = 34 then [92, 34] else [c])"

definition translate_string :: "ustr \<Rightarrow> ustr" where
  "translate_string s = [34] @ concat (map quote_char s) @ [34]"

fun translate_expr :: "sql_lib \<Rightarrow> ustr \<Rightarrow> sql_expr \<Rightarrow> ustr" where
  "translate_expr X d (EColumn name) = (if name = u ''*'' then d else d @ u ''.'' @ name)"
| "translate_expr X d (EQualified table column) = table @ u ''.'' @ column"
| "translate_expr X d (EInteger n) = show_i64 n"
| "translate_expr X d (EFloat n) = show_f64 X n"
| "translate_expr X d (EString s) = translate_string s"
| "translate_expr X d (EBoolean b) = u (if b then ''true'' else ''false'')"
| "translate_expr X d ENull = u ''null''"
| "translate_expr X d (EPlaceholder name) = u ''@'' @ name"
| "translate_expr X d (EBinary l op r) = translate_expr X d l @ u '' '' @ u (op_str op) @ u '' '' @ translate_expr X d r"
| "translate_expr X d (ENot e) = u ''NOT ('' @ translate_expr X d e @ u '')''"
| "translate_expr X d (EIsNull e) = translate_expr X d e @ u '' == null''"
| "translate_expr X d (EIsNotNull e) = translate_expr X d e @ u '' != null''"
| "translate_expr X d (EBetween e l h) =
     u ''('' @ translate_expr X d e @ u '' >= '' @ translate_expr X d l @ u '' AND '' @
     translate_expr X d e @ u '' <= '' @ translate_expr X d h @ u '')''"
| "translate_expr X d (EInList e es) =
     translate_expr X d e @ u '' IN ['' @ ujoin '', '' (map (translate_expr X d) es) @ u '']''"
| "translate_expr X d (EFunction name args) =
     to_uppercase X name @ u ''('' @ ujoin '', '' (map (translate_expr X d) args) @ u '')''"

fun translate_join_expr :: "sql_lib \<Rightarrow> ustr \<Rightarrow> sql_expr \<Rightarrow> ustr" where
  "translate_join_expr X d (EQualified table column) = table @ u ''.'' @ column"
| "translate_join_expr X d (EColumn name) = name"
| "translate_join_expr X d (EBinary l op r) =
     translate_join_expr X d l @ u '' '' @ u (op_str op) @ u '' '' @ translate_join_expr X d r"
| "translate_join_expr X d e = translate_expr X d e"

section \<open>Aggregates\<close>

definition group_column :: "ustr \<Rightarrow> ustr" where
  "group_column col = u ''group[*].'' @ col"

definition aggregate_arg :: "sql_lib \<Rightarrow> ustr \<Rightarrow> bool \<Rightarrow> sql_expr list \<Rightarrow> ustr" where
  "aggregate_arg X d grouped args =
     (case args of
        [EColumn col] \<Rightarrow>
          if col = u ''*'' then if grouped then u ''group'' else d
          else if grouped then group_column col else d @ u ''.'' @ col
      | _ \<Rightarrow> ujoin '', '' (map (translate_expr X d) args))"

definition translate_aggregate_function :: "sql_lib \<Rightarrow> ustr \<Rightarrow> sql_expr list \<Rightarrow> ustr \<Rightarrow> bool \<Rightarrow> ustr" where
  "translate_aggregate_function X name args d grouped =
     (let arg = aggregate_arg X d grouped args; f = to_uppercase X name in
      if f = u ''COUNT'' then if grouped then u ''LENGTH(group)'' else u ''LENGTH('' @ arg @ u '')''
      else f @ u ''('' @ arg @ u '')'')"

definition translate_having_expr_to_string :: "sql_lib \<Rightarrow> ustr \<Rightarrow> sql_expr list \<Rightarrow> ustr" where
  "translate_having_expr_to_string X name args =
     (let f = to_uppercase X name in
      if f = u ''COUNT'' then u ''LENGTH(group)''
      else if f \<in> u ` {''SUM'', ''AVG'', ''MIN'', ''MAX''} then
        f @ u ''('' @ (case args of
            EQualified _ column # _ \<Rightarrow> group_column column
          | EColumn col # _ \<Rightarrow> group_column col
          | _ \<Rightarrow> u ''group'') @ u '')''
      else f @ u ''(group)'')"

definition having_op_str :: "binary_op \<Rightarrow> string" where
  "having_op_str op = (if op \<in> {BEq, BNotEq, BLt, BLtEq, BGt, BGtEq, BAnd, BOr} then op_str op else ''>'')"

type_synonym alias_map = "(ustr \<times> ustr) list"

fun translate_having_with_let :: "sql_lib \<Rightarrow> (alias_map \<Rightarrow> alias_map) \<Rightarrow> alias_map \<Rightarrow> sql_expr \<Rightarrow> ustr" where
  "translate_having_with_let X ho am (EFunction name args) =
     (let agg = translate_having_expr_to_string X name args
      in case find (\<lambda>(_, expr). expr = agg) (ho am) of Some (alias, _) \<Rightarrow> alias | None \<Rightarrow> agg)"
| "translate_having_with_let X ho am (EBinary l op r) =
     translate_having_with_let X ho am l @ u '' '' @ u (having_op_str op) @ u '' '' @ translate_having_with_let X ho am r"
| "translate_having_with_let X ho am (EInteger n) = show_i64 n"
| "translate_having_with_let X ho am (EFloat n) = show_f64 X n"
| "translate_having_with_let X ho am _ = u ''true''"

section \<open>Columns\<close>

definition translate_select_column :: "sql_lib \<Rightarrow> ustr \<Rightarrow> bool \<Rightarrow> select_column \<Rightarrow> ustr" where
  "translate_select_column X d grouped col =
     (case col of
        SStar \<Rightarrow> d
      | SColumn name alias \<Rightarrow>
          (if has_dot name then (case alias of Some a \<Rightarrow> a | None \<Rightarrow> last_part name) @ u '': '' @ name
           else (case alias of Some a \<Rightarrow> a | None \<Rightarrow> name) @ u '': '' @ d @ u ''.'' @ name)
      | SFunction name args alias \<Rightarrow>
          lowercase X (case alias of Some a \<Rightarrow> a | None \<Rightarrow> name) @ u '': '' @ translate_aggregate_function X name args d grouped
      | SExpression e alias \<Rightarrow>
          (case alias of Some a \<Rightarrow> a @ u '': '' @ translate_expr X d e | None \<Rightarrow> translate_expr X d e))"

definition translate_select_column_with_let :: "sql_lib \<Rightarrow> ustr \<Rightarrow> bool \<Rightarrow> select_column \<Rightarrow> ustr" where
  "translate_select_column_with_let X d grouped col =
     (case col of
        SFunction _ _ (Some a) \<Rightarrow> if grouped then a @ u '': '' @ a else translate_select_column X d grouped col
      | _ \<Rightarrow> translate_select_column X d grouped col)"

definition join_var :: "nat \<times> join_clause \<Rightarrow> ustr" where
  "join_var ij = (case jc_alias (snd ij) of Some (c # cs) \<Rightarrow> c # cs | _ \<Rightarrow> u ''j'' @ u (show_nat (fst ij)))"

definition simple_columns :: "select_column list \<Rightarrow> ustr list" where
  "simple_columns cols = concat (map (\<lambda>c. case c of SColumn name None \<Rightarrow> [name] | _ \<Rightarrow> []) cols)"

definition all_simple :: "select_column list \<Rightarrow> bool" where
  "all_simple cols = (length (simple_columns cols) = length cols \<and> simple_columns cols \<noteq> [])"

definition braces :: "ustr list \<Rightarrow> ustr" where
  "braces fs = u ''{ '' @ ujoin '', '' fs @ u '' }''"

definition field_list :: "ustr list \<Rightarrow> ustr" where
  "field_list fs = (case fs of [f] \<Rightarrow> f | _ \<Rightarrow> braces fs)"

definition simple_field :: "ustr \<Rightarrow> ustr \<Rightarrow> ustr" where
  "simple_field d col = (if has_dot col then last_part col @ u '': '' @ col else col @ u '': '' @ d @ u ''.'' @ col)"

definition translate_columns :: "sql_lib \<Rightarrow> ustr \<Rightarrow> bool \<Rightarrow> join_clause list \<Rightarrow> select_column list \<Rightarrow> ustr" where
  "translate_columns X d grouped joins cols =
     (if cols = [SStar] then
        if joins = [] then d else u ''MERGE('' @ ujoin '', '' (d # map join_var (enumerate 0 joins)) @ u '')''
      else if all_simple cols then braces (map (simple_field d) (simple_columns cols))
      else field_list (map (translate_select_column X d grouped) cols))"

definition translate_columns_with_let :: "sql_lib \<Rightarrow> ustr \<Rightarrow> bool \<Rightarrow> join_clause list \<Rightarrow> select_column list \<Rightarrow> ustr" where
  "translate_columns_with_let X d grouped joins cols =
     (if cols = [SStar] \<or> all_simple cols then translate_columns X d grouped joins cols
      else field_list (map (translate_select_column_with_let X d grouped) cols))"

definition column_alias :: "sql_lib \<Rightarrow> ustr \<Rightarrow> bool \<Rightarrow> select_column \<Rightarrow> alias_map \<Rightarrow> alias_map" where
  "column_alias X d grouped col am =
     (case col of
        SFunction name args (Some a) \<Rightarrow> AList.update a (translate_aggregate_function X name args d grouped) am
      | SColumn name (Some a) \<Rightarrow> AList.update a (if has_dot name then name else d @ u ''.'' @ name) am
      | SExpression e (Some a) \<Rightarrow> AList.update a (translate_expr X d e) am
      | _ \<Rightarrow> am)"

definition build_alias_map :: "sql_lib \<Rightarrow> ustr \<Rightarrow> bool \<Rightarrow> select_column list \<Rightarrow> alias_map" where
  "build_alias_map X d grouped cols = fold (column_alias X d grouped) cols []"

definition direction :: "order_item \<Rightarrow> ustr" where
  "direction it = u (if oi_descending it then '' DESC'' else '' ASC'')"

definition translate_order_by_with_aliases :: "ustr \<Rightarrow> alias_map \<Rightarrow> order_item \<Rightarrow> ustr" where
  "translate_order_by_with_aliases d am it =
     (case map_of am (oi_column it) of
        Some expr \<Rightarrow> expr @ direction it
      | None \<Rightarrow>
          if has_dot (oi_column it) then oi_column it @ direction it else d @ u ''.'' @ oi_column it @ direction it)"

section \<open>Statements\<close>

definition join_parts :: "sql_lib \<Rightarrow> ustr \<Rightarrow> nat \<times> join_clause \<Rightarrow> ustr list" where
  "join_parts X d ij =
     [u ''  FOR '' @ join_var ij @ u '' IN '' @ jc_table (snd ij),
      u ''    FILTER '' @ translate_join_expr X d (jc_on (snd ij))]"

definition collect_var :: "ustr \<Rightarrow> ustr \<Rightarrow> ustr" where
  "collect_var d col =
     (if has_dot col then last_part col @ u '' = '' @ col else col @ u '' = '' @ d @ u ''.'' @ col)"

definition let_parts :: "ustr \<Rightarrow> alias_map \<Rightarrow> select_column \<Rightarrow> ustr list" where
  "let_parts indent am col =
     (case col of
        SFunction _ _ (Some a) \<Rightarrow>
          (case map_of am a of Some expr \<Rightarrow> [indent @ u ''LET '' @ a @ u '' = '' @ expr] | None \<Rightarrow> [])
      | _ \<Rightarrow> [])"

definition sort_item :: "ustr \<Rightarrow> bool \<Rightarrow> alias_map \<Rightarrow> order_item \<Rightarrow> ustr" where
  "sort_item d grouped am it =
     (if grouped \<and> map_of am (oi_column it) \<noteq> None then oi_column it @ direction it
      else translate_order_by_with_aliases d am it)"

definition limit_parts :: "ustr \<Rightarrow> int option \<Rightarrow> int option \<Rightarrow> ustr list" where
  "limit_parts indent limit offset =
     (case (limit, offset) of
        (Some l, Some n) \<Rightarrow> [indent @ u ''LIMIT '' @ show_i64 n @ u '', '' @ show_i64 l]
      | (Some l, None) \<Rightarrow> [indent @ u ''LIMIT '' @ show_i64 l]
      | (None, _) \<Rightarrow> [])"

definition filter_parts :: "ustr \<Rightarrow> (sql_expr \<Rightarrow> ustr) \<Rightarrow> sql_expr option \<Rightarrow> ustr list" where
  "filter_parts indent tr e = (case e of Some c \<Rightarrow> [indent @ u ''FILTER '' @ tr c] | None \<Rightarrow> [])"

definition select_parts :: "sql_lib \<Rightarrow> (alias_map \<Rightarrow> alias_map) \<Rightarrow> select_stmt \<Rightarrow> ustr list" where
  "select_parts X ho s =
     (let d = (case sel_from_alias s of Some a \<Rightarrow> a | None \<Rightarrow> u ''doc'');
          indent = concat (replicate (length (sel_joins s) + 1) (u ''  ''));
          grouped = (sel_group_by s \<noteq> []);
          am = build_alias_map X d grouped (sel_columns s)
      in [u ''FOR '' @ d @ u '' IN '' @ sel_from s] @
         concat (map (join_parts X d) (enumerate 0 (sel_joins s))) @
         filter_parts indent (translate_expr X d) (sel_where s) @
         (if grouped then [indent @ u ''COLLECT '' @ ujoin '', '' (map (collect_var d) (sel_group_by s)) @ u '' INTO group''] else []) @
         (if grouped then concat (map (let_parts indent am) (sel_columns s)) @
                          filter_parts indent (translate_having_with_let X ho am) (sel_having s) else []) @
         (if sel_order_by s = [] then []
          else [indent @ u ''SORT '' @ ujoin '', '' (map (sort_item d grouped am) (sel_order_by s))]) @
         limit_parts indent (sel_limit s) (sel_offset s) @
         [indent @ u ''RETURN '' @ translate_columns_with_let X d grouped (sel_joins s) (sel_columns s)])"

definition translate_select :: "sql_lib \<Rightarrow> (alias_map \<Rightarrow> alias_map) \<Rightarrow> select_stmt \<Rightarrow> ustr" where
  "translate_select X ho s = ujoin [CHR 0x0A] (select_parts X ho s)"

definition assignment_field :: "sql_lib \<Rightarrow> ustr \<times> sql_expr \<Rightarrow> ustr" where
  "assignment_field X cv = fst cv @ u '': '' @ translate_expr X (u ''doc'') (snd cv)"

definition row_object :: "sql_lib \<Rightarrow> ustr list \<Rightarrow> sql_expr list \<Rightarrow> ustr" where
  "row_object X columns row = braces (map (assignment_field X) (zip columns row))"

definition translate_insert :: "sql_lib \<Rightarrow> insert_stmt \<Rightarrow> ustr" where
  "translate_insert X s =
     (case ins_values s of
        [row] \<Rightarrow>
          u ''INSERT '' @
          (case ins_columns s of
             Some columns \<Rightarrow> row_object X columns row
           | None \<Rightarrow> u ''{ values: ['' @ ujoin '', '' (map (translate_expr X (u ''doc'')) row) @ u ''] }'') @
          u '' INTO '' @ ins_table s @ u [CHR 0x0A] @ u ''RETURN NEW''
      | rows \<Rightarrow>
          u ''FOR doc IN ['' @
          ujoin '', '' (map (\<lambda>(i, row). case ins_columns s of
                                         Some columns \<Rightarrow> row_object X columns row
                                       | None \<Rightarrow> u ''{ row: '' @ u (show_nat i) @ u '' }'') (enumerate 0 rows)) @
          u '']'' @ u [CHR 0x0A] @ u ''  INSERT doc INTO '' @ ins_table s @ u [CHR 0x0A] @ u ''  RETURN NEW'')"

definition translate_update :: "sql_lib \<Rightarrow> update_stmt \<Rightarrow> ustr" where
  "translate_update X s =
     ujoin [CHR 0x0A]
       ([u ''FOR doc IN '' @ upd_table s] @
        filter_parts (u ''  '') (translate_expr X (u ''doc'')) (upd_where s) @
        [u ''  UPDATE doc WITH '' @ braces (map (assignment_field X) (upd_assignments s)) @ u '' IN '' @ upd_table s,
         u ''  RETURN NEW''])"

definition translate_delete :: "sql_lib \<Rightarrow> delete_stmt \<Rightarrow> ustr" where
  "translate_delete X s =
     ujoin [CHR 0x0A]
       ([u ''FOR doc IN '' @ del_table s] @
        filter_parts (u ''  '') (translate_expr X (u ''doc'')) (del_where s) @
        [u ''  REMOVE doc IN '' @ del_table s, u ''  RETURN OLD''])"

definition translate_statement :: "sql_lib \<Rightarrow> (alias_map \<Rightarrow> alias_map) \<Rightarrow> sql_stmt \<Rightarrow> ustr" where
  "translate_statement X ho stmt =
     (case stmt of Select s \<Rightarrow> translate_select X ho s | Insert s \<Rightarrow> translate_insert X s
      | Update s \<Rightarrow> translate_update X s | Delete s \<Rightarrow> translate_delete X s)"

definition translate_sql_to_sdbql :: "sql_lib \<Rightarrow> (alias_map \<Rightarrow> alias_map) \<Rightarrow> ustr \<Rightarrow> ustr db_result option" where
  "translate_sql_to_sdbql X ho sql =
     map_option (\<lambda>r. case r of Inl e \<Rightarrow> Inl e | Inr stmt \<Rightarrow> Inr (translate_statement X ho stmt)) (parse_sql X sql)"

section \<open>String literals of SDBQL\<close>

text \<open>
  What \<^verbatim>\<open>src/sdbql/lexer.rs\<close> reads of a string literal, after the opening quote: the characters up to the
  closing quote, a backslash taken with the character after it.
\<close>

definition sdbql_escape :: "nat \<Rightarrow> nat" where
  "sdbql_escape c = (if c = 110 then 10 else if c = 116 then 9 else if c = 114 then 13 else c)"

fun sdbql_string :: "nat \<Rightarrow> ustr \<Rightarrow> (ustr \<times> ustr) option" where
  "sdbql_string q [] = None"
| "sdbql_string q [c] = (if c = q then Some ([], []) else None)"
| "sdbql_string q (c # d # cs) =
     (if c = q then Some ([], d # cs)
      else if c = 92 then map_option (apfst (Cons (sdbql_escape d))) (sdbql_string q cs)
      else map_option (apfst (Cons c)) (sdbql_string q (d # cs)))"

definition sdbql_read_string :: "ustr \<Rightarrow> (ustr \<times> ustr) db_result" where
  "sdbql_read_string cs =
     (case sdbql_string (hd cs) (tl cs) of Some r \<Rightarrow> Inr r | None \<Rightarrow> Inl (ParseError ''Unterminated string''))"

end
