(* ===== verification/SqlParserCorrect.thy ===== *)
theory SqlParserCorrect
  imports SqlParser
begin

text \<open>
  The parser of the SQL front end returns on every text. Every loop of the parser consumes a token each time
  round and every nested expression comes after a token of its own, so the bounds of \<open>SqlParser\<close> are never
  reached.
\<close>

text \<open>A library for the examples: no letters outside ASCII and no fractions.\<close>

definition ascii_lib :: sql_lib where
  "ascii_lib = \<lparr>uni_alphabetic = (\<lambda>_. False), uni_numeric = (\<lambda>_. False), uni_uppercase = id, uni_lower = id,
     parse_f64 = (\<lambda>_. None), show_f64 = (\<lambda>_. []), debug_token = (\<lambda>_. ''token''), show_ustr = map char_of\<rparr>"

section \<open>Progress\<close>

text \<open>\<open>advances c ts r\<close>: the run \<open>r\<close> on \<open>ts\<close> ended, and consumed at least \<open>c\<close> tokens if it succeeded.\<close>

definition advances :: "nat \<Rightarrow> token list \<Rightarrow> 'a presult \<Rightarrow> bool" where
  "advances c ts r = (case r of PBound \<Rightarrow> False | PErr _ \<Rightarrow> True | POk _ rest \<Rightarrow> length rest + c \<le> length ts)"

definition runs :: "nat \<Rightarrow> nat \<Rightarrow> 'a parser \<Rightarrow> bool" where
  "runs n c p = (\<forall>ts. length ts < n \<longrightarrow> advances c ts (p ts))"

named_theorems progress

lemma advances_simps [simp]:
  "advances c ts (PErr e)" "\<not> advances c ts PBound" "advances c ts (POk a r) \<longleftrightarrow> length r + c \<le> length ts"
  by (simp_all add: advances_def)

lemma runsD: "runs n c p \<Longrightarrow> length ts < n \<Longrightarrow> advances c ts (p ts)"
  by (simp add: runs_def)

lemma advances_mono: "advances c ts r \<Longrightarrow> c' \<le> c \<Longrightarrow> advances c' ts r"
  by (cases r) simp_all

lemma runs_mono: "runs n c p \<Longrightarrow> n' \<le> n \<Longrightarrow> c' \<le> c \<Longrightarrow> runs n' c' p"
  unfolding runs_def by (blast intro: advances_mono order.strict_trans2)

lemma tl_shorter: "current ts = t \<Longrightarrow> t \<noteq> TEof \<Longrightarrow> length (tl ts) < length ts"
  by (cases ts) (auto simp: current_def)

lemma advances_token [simp]: "current ts \<noteq> TEof \<Longrightarrow> advances (Suc 0) ts (POk a (tl ts))"
  by (cases ts) (auto simp: current_def)

text \<open>After \<open>c\<close> tokens, what is left is shorter by \<open>c\<close>.\<close>

lemma advances_pbind:
  assumes "advances c ts (p ts)" "\<And>a. runs (Suc (length ts) - c) d (f a)"
  shows "advances (c + d) ts (pbind p f ts)"
proof (cases "p ts")
  case (POk a r)
  then have "length r + c \<le> length ts" using assms(1) by simp
  then have "advances d r (f a r)" by (intro runsD [OF assms(2)]) simp
  then show ?thesis using POk \<open>length r + c \<le> length ts\<close> by (auto simp: pbind_def advances_def split: presult.splits)
qed (use assms(1) in \<open>simp_all add: pbind_def\<close>)

lemma runs_pbind:
  assumes "runs n c p" "\<And>a. runs (n - c) d (f a)" "e \<le> c + d"
  shows "runs n e (pbind p f)"
proof -
  have "advances (c + d) ts (pbind p f ts)" if "length ts < n" for ts
    using that by (intro advances_pbind runsD [OF assms(1)] runs_mono [OF assms(2)]) auto
  then have "runs n (c + d) (pbind p f)" by (simp add: runs_def)
  then show ?thesis by (rule runs_mono) (use assms(3) in simp_all)
qed

lemma runs_pbind0: "runs n 0 p \<Longrightarrow> (\<And>a. runs n d (f a)) \<Longrightarrow> runs n d (pbind p f)"
  using runs_pbind [of n 0 p d f d] by simp

lemma runs_pbind1: "runs n 1 p \<Longrightarrow> (\<And>a. runs (n - 1) 0 (f a)) \<Longrightarrow> runs n 1 (pbind p f)"
  using runs_pbind [of n 1 p 0 f 1] by simp

lemma advances_tl:
  assumes "current ts = t" "t \<noteq> TEof" "runs (length ts) 0 p"
  shows "advances (Suc 0) ts (p (tl ts))"
  using runsD [OF assms(3), of "tl ts"] tl_shorter [OF assms(1,2)]
  by (auto simp: advances_def split: presult.splits)

lemma advances_tl0: "current ts = t \<Longrightarrow> t \<noteq> TEof \<Longrightarrow> runs (length ts) 0 p \<Longrightarrow> advances 0 ts (p (tl ts))"
  by (rule advances_mono [OF advances_tl]) simp_all

lemma runs_pret [progress]: "runs n 0 (pret a)"
  by (simp add: runs_def pret_def)

lemma runs_expect [progress]: "t \<noteq> TEof \<Longrightarrow> runs n 1 (expect X t)"
  by (auto simp: runs_def expect_def simp del: advances_simps(3))

lemma runs_skip_if [progress]: "runs n 0 (skip_if t)"
  by (auto simp: runs_def skip_if_def)

lemma runs_expect_identifier [progress]: "runs n 1 (expect_identifier X)"
  by (auto simp: runs_def expect_identifier_def simp del: advances_simps(3) split: token.splits)

lemma runs_weaken: "runs n (Suc c) p \<Longrightarrow> runs n 0 p"
  using runs_mono [of n "Suc c" p n 0] by simp

lemma runs_expect0 [progress]: "t \<noteq> TEof \<Longrightarrow> runs n 0 (expect X t)"
  using runs_expect [of t n X] runs_weaken [of n 0] by simp

lemma runs_expect_identifier0 [progress]: "runs n 0 (expect_identifier X)"
  using runs_expect_identifier [of n X] runs_weaken [of n 0] by simp

section \<open>Loops\<close>

lemma comma_loop_advances:
  assumes "runs n 1 p"
  shows "length ts < n \<Longrightarrow> length ts < k \<Longrightarrow> advances 1 ts (comma_loop k p ts)"
proof (induction k arbitrary: ts)
  case (Suc k)
  have rest: "runs (length ts) 0 (comma_loop k p)"
    unfolding runs_def using Suc.prems by (auto intro!: advances_mono [OF Suc.IH])
  have "runs (length ts) 0 (\<lambda>r. pbind (skip_if TComma) (\<lambda>again.
      if again then pbind (comma_loop k p) (\<lambda>as. pret (a # as)) else pret [a]) r)" for a
    using rest by (intro runs_pbind0) (auto intro: runs_pbind0 progress)
  then have "advances (1 + 0) ts (comma_loop (Suc k) p ts)"
    unfolding comma_loop.simps using Suc.prems by (intro advances_pbind runsD [OF assms]) simp_all
  then show ?case by simp
qed simp

lemma runs_comma_list [progress]: "runs n 1 p \<Longrightarrow> runs n 1 (comma_list p)"
  by (subst runs_def, unfold comma_list_def, blast intro: comma_loop_advances)

lemma binary_loop_advances:
  assumes "runs n 0 p" "ops TEof = None"
  shows "length ts \<le> n \<Longrightarrow> length ts < k \<Longrightarrow> advances 0 ts (binary_loop k ops p left ts)"
proof (induction k arbitrary: ts left)
  case (Suc k)
  show ?case
  proof (cases "ops (current ts)")
    case (Some op)
    have "runs (length ts) 0 (pbind p (\<lambda>right. binary_loop k ops p (EBinary left op right)))"
      using Suc by (intro runs_pbind0 runs_mono [OF assms(1)]) (auto simp: runs_def)
    then have "advances (Suc 0) ts (pbind p (\<lambda>right. binary_loop k ops p (EBinary left op right)) (tl ts))"
      using Some assms(2) by (intro advances_tl) auto
    then show ?thesis using Some by (auto simp: advances_def split: presult.splits)
  qed simp
qed simp

lemma runs_left_assoc [progress]: "runs n 1 p \<Longrightarrow> ops TEof = None \<Longrightarrow> runs n 1 (left_assoc ops p)"
proof -
  assume p: "runs n 1 p" and ops: "ops TEof = None"
  have "runs (n - 1) 0 (\<lambda>ts. binary_loop (Suc (length ts)) ops p left ts)" for left
    unfolding runs_def using binary_loop_advances [of n p ops, OF runs_mono [OF p order.refl zero_le] ops]
    by (auto simp del: binary_loop.simps)
  then show "runs n 1 (left_assoc ops p)" unfolding left_assoc_def by (intro runs_pbind1 p)
qed

section \<open>Expressions\<close>

text \<open>What the levels of precedence need of the parser of nested expressions: it ends below \<open>n\<close> tokens.\<close>

locale nested_parser =
  fixes sub :: "sql_expr parser" and n :: nat
  assumes sub_runs: "runs n 1 sub"
begin

lemma sub_weak: "m \<le> n \<Longrightarrow> runs m 0 sub"
  by (rule runs_mono [OF sub_runs]) simp_all

lemma list_weak: "m \<le> n \<Longrightarrow> runs m 0 (comma_list sub)"
  by (rule runs_mono [OF runs_comma_list [OF sub_runs]]) simp_all

lemma closed: "runs m 0 p \<Longrightarrow> runs m 0 (pbind p (\<lambda>a. pbind (expect X TRightParen) (\<lambda>_. pret (f a))))"
  by (intro runs_pbind0 progress) simp_all

lemma aggregate_args: "m \<le> n \<Longrightarrow> runs m 0 (parse_aggregate_args sub)"
  using runsD [OF list_weak] by (auto simp: runs_def parse_aggregate_args_def)

lemma identifier_expr: "m \<le> Suc n \<Longrightarrow> runs m 0 (parse_identifier_expr X sub name)"
proof -
  assume m: "m \<le> Suc n"
  have "advances 0 ts (parse_identifier_expr X sub name ts)" if ts: "length ts < m" for ts
  proof -
    have args: "runs (length ts) 0 (\<lambda>ts. if current ts = TRightParen then POk [] ts else comma_list sub ts)"
      using runsD [OF list_weak [of "length ts"]] m ts by (auto simp: runs_def)
    have "current ts = TLeftParen \<Longrightarrow> advances (Suc 0) ts (pbind (\<lambda>ts. if current ts = TRightParen then POk [] ts else comma_list sub ts)
        (\<lambda>args. pbind (expect X TRightParen) (\<lambda>_. pret (EFunction name args))) (tl ts))"
      by (erule advances_tl [OF _ _ closed [OF args]]) simp_all
    moreover have "current ts = TDot \<Longrightarrow>
        advances (Suc 0) ts (pbind (expect_identifier X) (\<lambda>column. pret (EQualified name column)) (tl ts))"
      by (erule advances_tl) (auto intro!: runs_pbind0 progress)
    ultimately show ?thesis by (auto simp: parse_identifier_expr_def intro: advances_mono)
  qed
  then show ?thesis by (simp add: runs_def)
qed

lemma aggregate_call:
  "m \<le> Suc n \<Longrightarrow> runs m 0 (pbind (expect X TLeftParen) (\<lambda>_. pbind (parse_aggregate_args sub) (\<lambda>args.
     pbind (expect X TRightParen) (\<lambda>_. pret (f args)))))"
  by (rule runs_pbind [OF runs_expect closed [OF aggregate_args]]) simp_all

lemma primary: "runs (Suc n) 1 (parse_primary_expression X sub)"
proof -
  have "advances 1 ts (parse_primary_expression X sub ts)" if ts: "length ts < Suc n" for ts
  proof -
    have "current ts = TLeftParen \<Longrightarrow>
        advances (Suc 0) ts (pbind sub (\<lambda>e. pbind (expect X TRightParen) (\<lambda>_. pret e)) (tl ts))"
      by (erule advances_tl [OF _ _ closed [OF sub_weak]]) (use ts in simp_all)
    moreover have "current ts = TIdentifier name \<Longrightarrow> advances (Suc 0) ts (parse_identifier_expr X sub name (tl ts))" for name
      by (erule advances_tl [OF _ _ identifier_expr]) (use ts in simp_all)
    moreover have "aggregate_name (current ts) = Some name \<Longrightarrow> advances (Suc 0) ts (pbind (expect X TLeftParen) (\<lambda>_.
        pbind (parse_aggregate_args sub) (\<lambda>args. pbind (expect X TRightParen) (\<lambda>_. pret (EFunction (u name) args)))) (tl ts))" for name
      by (rule advances_tl [OF refl _ aggregate_call]) (use ts in \<open>auto simp: aggregate_name_def\<close>)
    ultimately show ?thesis
      by (cases "current ts") (auto simp: parse_primary_expression_def simp del: advances_simps(3) split: option.splits)
  qed
  then show ?thesis by (simp add: runs_def)
qed

lemma additive: "runs (Suc n) 1 (parse_additive_expression X sub)"
  unfolding parse_additive_expression_def parse_multiplicative_expression_def
  by (intro runs_left_assoc primary) (simp_all add: additive_op_def multiplicative_op_def)

lemma additive0: "m \<le> Suc n \<Longrightarrow> runs m 0 (parse_additive_expression X sub)"
  by (rule runs_mono [OF additive]) simp_all

lemma comparison_branches:
  assumes "m \<le> Suc n"
  shows "runs m 0 (pbind (skip_if TNot) (\<lambda>neg. pbind (expect X TNull) (\<lambda>_. pret (f neg))))"
    "runs m 0 (pbind (parse_additive_expression X sub) (\<lambda>low. pbind (expect X TAnd) (\<lambda>_.
       pbind (parse_additive_expression X sub) (\<lambda>high. pret (g low high)))))"
    "runs m 0 (pbind (expect X TLeftParen) (\<lambda>_. pbind (comma_list sub) (\<lambda>list.
       pbind (expect X TRightParen) (\<lambda>_. pret (h list)))))"
    "runs m 0 (pbind (parse_additive_expression X sub) (\<lambda>right. pret (k right)))"
proof -
  show "runs m 0 (pbind (skip_if TNot) (\<lambda>neg. pbind (expect X TNull) (\<lambda>_. pret (f neg))))"
    by (intro runs_pbind0 progress) simp
  show "runs m 0 (pbind (parse_additive_expression X sub) (\<lambda>low. pbind (expect X TAnd) (\<lambda>_.
       pbind (parse_additive_expression X sub) (\<lambda>high. pret (g low high)))))"
    using assms by (intro runs_pbind0 progress additive0) simp_all
  show "runs m 0 (pbind (expect X TLeftParen) (\<lambda>_. pbind (comma_list sub) (\<lambda>list.
       pbind (expect X TRightParen) (\<lambda>_. pret (h list)))))"
    by (rule runs_pbind [OF runs_expect closed [OF list_weak]]) (use assms in simp_all)
  show "runs m 0 (pbind (parse_additive_expression X sub) (\<lambda>right. pret (k right)))"
    using assms by (intro runs_pbind0 progress additive0) simp_all
qed

lemma comparison_rest: "m \<le> Suc n \<Longrightarrow> runs m 0 (comparison_rest X sub left)"
proof -
  assume m: "m \<le> Suc n"
  have "advances 0 ts (comparison_rest X sub left ts)" if "length ts < m" for ts
  proof -
    have le: "length ts \<le> Suc n" using that m by simp
    have op: "comparison_op (current ts) = Some op \<Longrightarrow> current ts \<noteq> TEof" for op
      by (auto simp: comparison_op_def)
    show ?thesis unfolding comparison_rest_def Let_def
      by (auto split: option.splits dest: op intro!: advances_tl0 [OF refl] comparison_branches [OF le])
  qed
  then show ?thesis by (simp add: runs_def)
qed

lemma comparison: "runs (Suc n) 1 (parse_comparison_expression X sub)"
  unfolding parse_comparison_expression_def by (intro runs_pbind1 additive comparison_rest) simp

lemma negation: "length ts < Suc n \<Longrightarrow> advances 1 ts (parse_not_expression X sub ts)"
proof (induction ts)
  case (Cons t ts)
  then have "advances 1 ts (parse_not_expression X sub ts)" by simp
  then show ?case using runsD [OF comparison Cons.prems, of X] by (auto split: presult.splits)
qed (use runsD [OF comparison, of "[]" X] in simp)

lemma expression: "runs (Suc n) 1 (parse_or_expression X sub)"
proof -
  have "runs (Suc n) 1 (parse_not_expression X sub)" by (simp add: runs_def negation del: One_nat_def)
  then show ?thesis unfolding parse_or_expression_def parse_and_expression_def by (intro runs_left_assoc) simp_all
qed

end

lemma expression_within_runs: "runs n 1 (expression_within X n)"
proof (induction n)
  case (Suc n)
  then show ?case using nested_parser.expression [OF nested_parser.intro] by (simp del: One_nat_def)
qed (simp add: runs_def)

interpretation nested: nested_parser "expression_within X n" n for X n
  by (rule nested_parser.intro, rule expression_within_runs)

lemma parse_expression_runs [progress]: "runs n 1 (parse_expression X)"
  unfolding runs_def parse_expression_def
  by (intro allI impI runsD [OF expression_within_runs]) simp

section \<open>Statements\<close>

lemma parse_expression_runs0 [progress]: "runs n 0 (parse_expression X)"
  using parse_expression_runs [of n X] runs_weaken [of n 0] by simp

lemma runs_comma_list0 [progress]: "runs n 1 p \<Longrightarrow> runs n 0 (comma_list p)"
  using runs_comma_list [of n p] runs_weaken [of n 0] by simp

lemma runs_clause [progress]: "runs n 0 p \<Longrightarrow> runs n 0 (clause t d p)"
proof -
  assume p: "runs n 0 p"
  have "advances 0 ts (p (tl ts))" if "length ts < n" for ts
    using runsD [OF p, of "tl ts"] that by (cases ts; cases "p (tl ts)") auto
  then show ?thesis by (simp add: runs_def clause_def)
qed

lemma runs_optional_alias [progress]: "runs n 0 (parse_optional_alias X)"
  by (auto simp: runs_def [of n] parse_optional_alias_def split: token.splits intro!: advances_tl0 [OF refl] runs_pbind0 progress)

lemma runs_names [progress]:
  "runs n 1 (parse_qualified_name X)" "runs n 1 (parse_order_by_item X)" "runs n 1 (parse_assignment X)"
  "runs n 1 (parse_value_row X)"
  unfolding parse_qualified_name_def parse_order_by_item_def parse_assignment_def parse_value_row_def
    parse_expression_list_def
  by (intro runs_pbind1 progress runs_pbind0; auto intro!: progress)+

lemma runs_select_column [progress]: "runs n 1 (parse_select_column X)"
proof -
  have args: "runs m 0 (\<lambda>ts. if current ts = TStar then POk [EColumn (u ''*'')] (tl ts) else parse_expression_list X ts)" for m
    using runsD [OF runs_comma_list0 [OF parse_expression_runs [of m X]]]
    by (auto simp: runs_def parse_expression_list_def)
  have "advances (Suc 0) ts (pbind (expect X TLeftParen) (\<lambda>_.
      pbind (\<lambda>ts. if current ts = TStar then POk [EColumn (u ''*'')] (tl ts) else parse_expression_list X ts) (\<lambda>args.
      pbind (expect X TRightParen) (\<lambda>_.
      pbind (parse_optional_alias X) (\<lambda>alias. pret (SFunction name args alias))))) (tl ts))"
    if "current ts \<noteq> TEof" for ts name
    using that by (intro advances_tl [OF refl] runs_pbind0 args progress) simp_all
  moreover have "runs m 1 (pbind (parse_qualified_name X) (\<lambda>name.
      pbind (parse_optional_alias X) (\<lambda>alias. pret (SColumn name alias))))" for m
    by (intro runs_pbind1 runs_pbind0 progress)
  from runsD [OF this] have "length ts < m \<Longrightarrow> advances (Suc 0) ts (pbind (parse_qualified_name X) (\<lambda>name.
      pbind (parse_optional_alias X) (\<lambda>alias. pret (SColumn name alias))) ts)" for ts m by simp
  ultimately show ?thesis
    by (auto simp: runs_def parse_select_column_def aggregate_name_def simp del: advances_simps(3) split: option.splits)
qed

lemma runs_join_type [progress]: "runs n 0 (parse_join_type X)"
  by (auto simp: runs_def [of n] parse_join_type_def split: token.splits intro!: advances_tl0 [OF refl] runs_pbind0 progress)

lemma join_loop_runs: "runs k 0 (join_loop k X)"
proof (induction k)
  case (Suc k)
  have rest: "runs k 0 (pbind (parse_optional_alias X) (\<lambda>alias. pbind (expect X TOn) (\<lambda>_.
      pbind (parse_expression X) (\<lambda>cond. pbind (join_loop k X) (\<lambda>joins. pret (f alias cond joins))))))"
    for f :: "_ \<Rightarrow> _ \<Rightarrow> _ \<Rightarrow> join_clause list"
    by (intro runs_pbind0 progress Suc) simp
  have "runs (Suc k) 0 (pbind (expect_identifier X) (\<lambda>table. pbind (parse_optional_alias X) (\<lambda>alias. pbind (expect X TOn) (\<lambda>_.
      pbind (parse_expression X) (\<lambda>cond. pbind (join_loop k X) (\<lambda>joins. pret (f table alias cond joins)))))))"
    for f :: "_ \<Rightarrow> _ \<Rightarrow> _ \<Rightarrow> _ \<Rightarrow> join_clause list"
    by (rule runs_pbind [OF runs_expect_identifier]) (auto intro: rest)
  then show ?case by (auto intro!: runs_pbind0 progress split: option.splits)
qed (simp add: runs_def)

lemma runs_join_clauses [progress]: "runs n 0 (parse_join_clauses X)"
  unfolding runs_def parse_join_clauses_def by (intro allI impI runsD [OF join_loop_runs]) simp

lemma runs_count [progress]: "runs n 0 (parse_count name)"
  by (auto simp: runs_def parse_count_def split: token.splits)

lemma runs_statements:
  "runs n 0 (parse_select X)" "runs n 0 (parse_insert X)" "runs n 0 (parse_update X)" "runs n 0 (parse_delete X)"
  unfolding parse_select_def parse_insert_def parse_update_def parse_delete_def parse_where_def parse_select_columns_def
    parse_identifier_list_def parse_order_by_list_def
  by (intro runs_pbind0 progress; simp)+

lemma runs_parse: "runs n 0 (parse X)"
proof -
  have "runs n 0 (parse_statement X)"
    using runsD [OF runs_statements(1)] runsD [OF runs_statements(2)] runsD [OF runs_statements(3)]
      runsD [OF runs_statements(4)]
    by (auto simp: runs_def parse_statement_def split: token.splits)
  then show ?thesis unfolding parse_def by (intro runs_pbind0 progress)
qed

text \<open>
  C21: the SQL front end returns on every text: the lexer and the parser end with a statement or an error,
  whatever the input, and the nesting of expressions is bounded by the number of tokens.
\<close>

theorem parse_sql_returns: "\<exists>r. parse_sql X cs = Some r"
proof (cases "sql_tokenize X cs")
  case (Inr ts)
  have "advances 0 ts (parse X ts)" by (rule runsD [OF runs_parse [of "Suc (length ts)"]]) simp
  then show ?thesis using Inr by (auto simp: parse_sql_def split: presult.splits)
qed (simp add: parse_sql_def)

end
