(* ===== verification/SqlRoundtrip.thy ===== *)
theory SqlRoundtrip
  imports SqlParserCorrect
begin

text \<open>
  The expressions of the SQL parser can be written back: a writer that puts parentheses around every operation,
  and the lemmas that say what each level of precedence does with an operand and with an operation of its own.
\<close>

section \<open>Writing expressions\<close>

fun commas :: "token list list \<Rightarrow> token list" where
  "commas [] = []"
| "commas [x] = x"
| "commas (x # y # ys) = x @ TComma # commas (y # ys)"

definition op_token :: "binary_op \<Rightarrow> token" where
  "op_token op =
     (case op of BEq \<Rightarrow> TEqual | BNotEq \<Rightarrow> TNotEqual | BLt \<Rightarrow> TLessThan | BLtEq \<Rightarrow> TLessThanEq | BGt \<Rightarrow> TGreaterThan
      | BGtEq \<Rightarrow> TGreaterThanEq | BAnd \<Rightarrow> TAnd | BOr \<Rightarrow> TOr | BPlus \<Rightarrow> TPlus | BMinus \<Rightarrow> TMinus
      | BMultiply \<Rightarrow> TStar | BDivide \<Rightarrow> TSlash | BModulo \<Rightarrow> TPercent | BLike \<Rightarrow> TLike)"

fun write_expr :: "sql_expr \<Rightarrow> token list" where
  "write_expr (EColumn n) = [TIdentifier n]"
| "write_expr (EQualified t c) = [TIdentifier t, TDot, TIdentifier c]"
| "write_expr (EInteger n) = [TInteger n]"
| "write_expr (EFloat n) = [TFloat n]"
| "write_expr (EString s) = [TString s]"
| "write_expr (EBoolean b) = [if b then TTrue else TFalse]"
| "write_expr ENull = [TNull]"
| "write_expr (EPlaceholder n) = [TPlaceholder n]"
| "write_expr (EBinary l op r) = TLeftParen # write_expr l @ op_token op # write_expr r @ [TRightParen]"
| "write_expr (ENot e) = TLeftParen # TNot # write_expr e @ [TRightParen]"
| "write_expr (EIsNull e) = TLeftParen # write_expr e @ [TIs, TNull, TRightParen]"
| "write_expr (EIsNotNull e) = TLeftParen # write_expr e @ [TIs, TNot, TNull, TRightParen]"
| "write_expr (EBetween e l h) =
     TLeftParen # write_expr e @ TBetween # write_expr l @ TAnd # write_expr h @ [TRightParen]"
| "write_expr (EInList e es) =
     TLeftParen # write_expr e @ TIn # TLeftParen # commas (map write_expr es) @ [TRightParen, TRightParen]"
| "write_expr (EFunction n es) = TIdentifier n # TLeftParen # commas (map write_expr es) @ [TRightParen]"

text \<open>\<open>IN\<close> has a list that is not empty: the parser has no other.\<close>

fun writable :: "sql_expr \<Rightarrow> bool" where
  "writable (EBinary l _ r) \<longleftrightarrow> writable l \<and> writable r"
| "writable (ENot e) \<longleftrightarrow> writable e"
| "writable (EIsNull e) \<longleftrightarrow> writable e"
| "writable (EIsNotNull e) \<longleftrightarrow> writable e"
| "writable (EBetween e l h) \<longleftrightarrow> writable e \<and> writable l \<and> writable h"
| "writable (EInList e es) \<longleftrightarrow> writable e \<and> es \<noteq> [] \<and> list_all writable es"
| "writable (EFunction _ es) \<longleftrightarrow> list_all writable es"
| "writable _ \<longleftrightarrow> True"

section \<open>Levels of precedence\<close>

text \<open>Tokens that do not continue an operand, and those that do not continue an expression either.\<close>

definition ends_operand :: "token \<Rightarrow> bool" where
  "ends_operand t = (t \<noteq> TLeftParen \<and> t \<noteq> TDot)"

definition ends_sum :: "token \<Rightarrow> bool" where
  "ends_sum t = (ends_operand t \<and> multiplicative_op t = None \<and> additive_op t = None)"

definition ends_expr :: "token \<Rightarrow> bool" where
  "ends_expr t = (ends_sum t \<and> comparison_op t = None \<and> t \<notin> {TIs, TBetween, TIn, TLike, TAnd, TOr})"

lemmas ends_defs = ends_operand_def ends_sum_def ends_expr_def multiplicative_op_def additive_op_def comparison_op_def

lemma left_assoc_stop: "p ts = POk e r \<Longrightarrow> ops (current r) = None \<Longrightarrow> left_assoc ops p ts = POk e r"
  by (simp add: left_assoc_def pbind_def)

lemma left_assoc_step:
  "p ts = POk l (t # r) \<Longrightarrow> ops t = Some op \<Longrightarrow> p r = POk e r' \<Longrightarrow> ops (current r') = None
   \<Longrightarrow> left_assoc ops p ts = POk (EBinary l op e) r'"
  by (simp add: left_assoc_def pbind_def current_def)

lemma primary_additive:
  assumes "parse_primary_expression X sub ts = POk e r" "multiplicative_op (current r) = None" "additive_op (current r) = None"
  shows "parse_additive_expression X sub ts = POk e r"
  unfolding parse_additive_expression_def parse_multiplicative_expression_def
  by (intro left_assoc_stop assms)

lemma additive_comparison:
  assumes "parse_additive_expression X sub ts = POk e r" "comparison_op (current r) = None"
    "current r \<notin> {TIs, TBetween, TIn, TLike}"
  shows "parse_comparison_expression X sub ts = POk e r"
  using assms by (simp add: parse_comparison_expression_def comparison_rest_def pbind_def)

lemma comparison_negation:
  "parse_comparison_expression X sub ts = POk e r \<Longrightarrow> current ts \<noteq> TNot \<Longrightarrow> parse_not_expression X sub ts = POk e r"
  by (cases ts) (auto simp: current_def)

lemma negation_expression:
  assumes "parse_not_expression X sub ts = POk e r" "current r \<noteq> TAnd" "current r \<noteq> TOr"
  shows "parse_or_expression X sub ts = POk e r"
  unfolding parse_or_expression_def parse_and_expression_def using assms by (intro left_assoc_stop) simp_all

lemma primary_expression:
  assumes "parse_primary_expression X sub ts = POk e r" "ends_expr (current r)" "current ts \<noteq> TNot"
  shows "parse_or_expression X sub ts = POk e r"
  using assms by (intro negation_expression comparison_negation additive_comparison primary_additive)
    (simp_all add: ends_expr_def ends_sum_def)

text \<open>\<open>reads X sub w e\<close>: with \<open>sub\<close> for nested expressions, the tokens \<open>w\<close> are the operand \<open>e\<close>.\<close>

definition reads :: "sql_lib \<Rightarrow> sql_expr parser \<Rightarrow> token list \<Rightarrow> sql_expr \<Rightarrow> bool" where
  "reads X sub w e =
     (w \<noteq> [] \<and> hd w \<noteq> TNot \<and>
      (\<forall>rest. ends_operand (current rest) \<longrightarrow> parse_primary_expression X sub (w @ rest) = POk e rest))"

lemma current_simps [simp]: "current (t # ts) = t" "w \<noteq> [] \<Longrightarrow> current (w @ ts) = hd w"
  by (simp add: current_def, cases w) (simp_all add: current_def)

lemma reads_primary: "reads X sub w e \<Longrightarrow> ends_operand (current r) \<Longrightarrow> parse_primary_expression X sub (w @ r) = POk e r"
  by (simp add: reads_def)

lemma reads_additive: "reads X sub w e \<Longrightarrow> ends_sum (current r) \<Longrightarrow> parse_additive_expression X sub (w @ r) = POk e r"
  by (rule primary_additive [OF reads_primary]) (simp_all add: ends_sum_def)

lemma reads_negation:
  "reads X sub w e \<Longrightarrow> ends_sum (current r) \<Longrightarrow> comparison_op (current r) = None \<Longrightarrow> current r \<notin> {TIs, TBetween, TIn, TLike}
   \<Longrightarrow> parse_not_expression X sub (w @ r) = POk e r"
  by (intro comparison_negation additive_comparison reads_additive) (simp_all add: reads_def)

lemma reads_expression: "reads X sub w e \<Longrightarrow> ends_expr (current r) \<Longrightarrow> parse_or_expression X sub (w @ r) = POk e r"
  by (rule primary_expression [OF reads_primary]) (simp_all add: ends_expr_def ends_sum_def reads_def)

lemma comparison_expression:
  assumes "reads X sub w l" "ends_sum t" "ends_expr (current r')" "comparison_rest X sub l (t # r) = POk e r'"
  shows "parse_or_expression X sub (w @ t # r) = POk e r'"
proof -
  have "parse_additive_expression X sub (w @ t # r) = POk l (t # r)" using assms by (intro reads_additive) simp_all
  then have "parse_comparison_expression X sub (w @ t # r) = POk e r'"
    using assms(4) by (simp add: parse_comparison_expression_def pbind_def)
  then show ?thesis
    using assms by (intro negation_expression comparison_negation) (auto simp: reads_def ends_expr_def)
qed

lemma arithmetic_expression:
  assumes l: "reads X sub w l" and r: "reads X sub v r" and rest: "ends_expr (current rest)"
    and op: "multiplicative_op t = Some op \<or> additive_op t = Some op"
  shows "parse_or_expression X sub (w @ t # v @ rest) = POk (EBinary l op r) rest"
proof -
  have t: "ends_operand t" "multiplicative_op t = None \<or> additive_op t = None"
    using op by (auto simp: ends_defs split: if_splits)
  have ends: "ends_operand (current rest)" "multiplicative_op (current rest) = None" "additive_op (current rest) = None"
    using rest by (simp_all add: ends_expr_def ends_sum_def)
  note prim = reads_primary [OF l, of "t # v @ rest"] reads_primary [OF r, of rest]
  have "parse_additive_expression X sub (w @ t # v @ rest) = POk (EBinary l op r) rest"
  proof (cases "multiplicative_op t")
    case (Some op')
    then have "left_assoc multiplicative_op (parse_primary_expression X sub) (w @ t # v @ rest) = POk (EBinary l op r) rest"
      using prim op t ends by (intro left_assoc_step) auto
    then show ?thesis using ends unfolding parse_additive_expression_def parse_multiplicative_expression_def
      by (simp add: left_assoc_stop)
  next
    case None
    then have "left_assoc multiplicative_op (parse_primary_expression X sub) (w @ t # v @ rest) = POk l (t # v @ rest)"
      "left_assoc multiplicative_op (parse_primary_expression X sub) (v @ rest) = POk r rest"
      using prim t ends by (simp_all add: left_assoc_stop)
    then show ?thesis using None op ends unfolding parse_additive_expression_def parse_multiplicative_expression_def
      by (auto intro: left_assoc_step)
  qed
  then show ?thesis using l rest
    by (intro negation_expression comparison_negation additive_comparison) (auto simp: reads_def ends_expr_def)
qed

lemma logical_expression:
  assumes l: "reads X sub w l" and r: "reads X sub v r" and rest: "ends_expr (current rest)"
  shows "parse_or_expression X sub (w @ TAnd # v @ rest) = POk (EBinary l BAnd r) rest"
    "parse_or_expression X sub (w @ TOr # v @ rest) = POk (EBinary l BOr r) rest"
proof -
  have stop: "ends_sum (current rest)" "comparison_op (current rest) = None" "current rest \<notin> {TIs, TBetween, TIn, TLike}"
    "current rest \<noteq> TAnd" "current rest \<noteq> TOr" using rest by (simp_all add: ends_expr_def)
  have n: "parse_not_expression X sub (w @ TAnd # v @ rest) = POk l (TAnd # v @ rest)"
    "parse_not_expression X sub (w @ TOr # v @ rest) = POk l (TOr # v @ rest)"
    "parse_not_expression X sub (v @ rest) = POk r rest"
    using stop by (auto intro!: reads_negation [OF l] reads_negation [OF r] simp: ends_defs)
  have "parse_and_expression X sub (w @ TAnd # v @ rest) = POk (EBinary l BAnd r) rest"
    unfolding parse_and_expression_def using n stop by (intro left_assoc_step) auto
  then show "parse_or_expression X sub (w @ TAnd # v @ rest) = POk (EBinary l BAnd r) rest"
    unfolding parse_or_expression_def using stop by (auto intro: left_assoc_stop)
  have "parse_and_expression X sub (w @ TOr # v @ rest) = POk l (TOr # v @ rest)"
    "parse_and_expression X sub (v @ rest) = POk r rest"
    unfolding parse_and_expression_def using n stop by (simp_all add: left_assoc_stop)
  then show "parse_or_expression X sub (w @ TOr # v @ rest) = POk (EBinary l BOr r) rest"
    unfolding parse_or_expression_def using stop by (auto intro: left_assoc_step)
qed

section \<open>Round trip\<close>

lemma write_nonempty [simp]: "write_expr e \<noteq> []"
  by (cases e) auto

lemma commas_Cons: "ws \<noteq> [] \<Longrightarrow> commas (w # ws) = w @ TComma # commas ws"
  by (cases ws) auto

lemma length_commas: "[] \<notin> set ws \<Longrightarrow> length ws \<le> length (commas ws)"
  by (induction ws rule: commas.induct) (auto simp: Suc_le_eq add_strict_increasing)

lemma length_commas_mem: "w \<in> set ws \<Longrightarrow> length w \<le> length (commas ws)"
  by (induction ws rule: commas.induct) auto

lemma comma_loop_commas:
  assumes "\<And>e r. e \<in> set es \<Longrightarrow> current r = TComma \<or> current r = TRightParen \<Longrightarrow> p (w e @ r) = POk e r"
    and "es \<noteq> []" "length es \<le> k" "current rest = TRightParen"
  shows "comma_loop k p (commas (map w es) @ rest) = POk es rest"
  using assms
proof (induction es arbitrary: k)
  case (Cons e es)
  then obtain j where k: "k = Suc j" "length es \<le> j" by (cases k) auto
  show ?case
  proof (cases "es = []")
    case True
    then show ?thesis using Cons.prems(1) [of e rest] Cons.prems(4) by (simp add: k pbind_def skip_if_def pret_def)
  next
    case False
    then have "comma_loop j p (commas (map w es) @ rest) = POk es rest" using Cons k by simp
    then show ?thesis using False Cons.prems(1) [of e "TComma # commas (map w es) @ rest"]
      by (simp add: k commas_Cons pbind_def skip_if_def pret_def)
  qed
qed simp

lemma comma_list_commas:
  assumes "\<And>e r. e \<in> set es \<Longrightarrow> current r = TComma \<or> current r = TRightParen \<Longrightarrow> p (write_expr e @ r) = POk e r"
    and "es \<noteq> []" "current rest = TRightParen"
  shows "comma_list p (commas (map write_expr es) @ rest) = POk es rest"
proof -
  have "[] \<notin> set (map write_expr es)" by (metis (no_types) imageE image_set write_nonempty)
  then have "length es \<le> Suc (length (commas (map write_expr es) @ rest))" using length_commas by fastforce
  then show ?thesis unfolding comma_list_def using assms by (intro comma_loop_commas)
qed

lemma reads_parens:
  assumes "\<And>rest. parse_or_expression X (expression_within X m) (w @ TRightParen # rest) = POk e (TRightParen # rest)"
  shows "reads X (expression_within X (Suc m)) (TLeftParen # w @ [TRightParen]) e"
  using assms by (simp add: reads_def parse_primary_expression_def pbind_def expect_def pret_def)

text \<open>An expression is read with any bound above the length of its text.\<close>

definition reads_back :: "sql_lib \<Rightarrow> sql_expr \<Rightarrow> bool" where
  "reads_back X e = (\<forall>n. length (write_expr e) \<le> n \<longrightarrow> reads X (expression_within X n) (write_expr e) e)"

lemma reads_backD: "reads_back X e \<Longrightarrow> length (write_expr e) \<le> n \<Longrightarrow> reads X (expression_within X n) (write_expr e) e"
  by (simp add: reads_back_def)

lemma reads_back_parens:
  assumes "write_expr e = TLeftParen # w @ [TRightParen]"
    and "\<And>m rest. length w \<le> m \<Longrightarrow>
      parse_or_expression X (expression_within X m) (w @ TRightParen # rest) = POk e (TRightParen # rest)"
  shows "reads_back X e"
  unfolding reads_back_def
proof (intro allI impI)
  fix n assume n: "length (write_expr e) \<le> n"
  then obtain m where "n = Suc m" "length w \<le> m" by (cases n) (auto simp: assms(1))
  then show "reads X (expression_within X n) (write_expr e) e"
    unfolding assms(1) using reads_parens [OF assms(2)] by simp
qed

lemma reads_back_expression:
  "reads_back X e \<Longrightarrow> length (write_expr e) \<le> m \<Longrightarrow> ends_expr (current r)
   \<Longrightarrow> expression_within X (Suc m) (write_expr e @ r) = POk e r"
  by (simp add: reads_expression reads_backD)

lemma reads_back_list:
  assumes "\<And>e. e \<in> set es \<Longrightarrow> reads_back X e" "es \<noteq> []" "length (commas (map write_expr es)) \<le> m"
  shows "comma_list (expression_within X (Suc m)) (commas (map write_expr es) @ TRightParen # rest) = POk es (TRightParen # rest)"
proof (rule comma_list_commas)
  fix e r assume e: "e \<in> set es" and "current r = TComma \<or> current r = TRightParen"
  then have "ends_expr (current r)" by (auto simp: ends_defs)
  moreover have "length (write_expr e) \<le> m" using length_commas_mem [of "write_expr e" "map write_expr es"] e assms(3) by simp
  ultimately show "expression_within X (Suc m) (write_expr e @ r) = POk e r"
    using reads_back_expression [OF assms(1) [OF e]] by blast
qed (use assms in simp_all)

lemma hd_write: "hd (write_expr e) \<noteq> TRightParen"
  by (cases e) auto

lemma hd_commas: "es \<noteq> [] \<Longrightarrow> current (commas (map write_expr es) @ r) \<noteq> TRightParen"
  by (cases es; cases "tl es") (auto simp: hd_write)

lemma op_token_cases:
  "multiplicative_op (op_token op) = Some op \<or> additive_op (op_token op) = Some op \<or> op = BAnd \<or> op = BOr \<or>
   ends_sum (op_token op) \<and> op_token op \<notin> {TIs, TBetween, TIn} \<and>
   (op_token op = TLike \<and> op = BLike \<or> op_token op \<noteq> TLike \<and> comparison_op (op_token op) = Some op)"
  by (cases op) (auto simp: op_token_def ends_defs)

lemma binary_expression:
  assumes "reads X sub w l" "reads X sub v r" "ends_expr (current rest)"
  shows "parse_or_expression X sub (w @ op_token op # v @ rest) = POk (EBinary l op r) rest"
proof -
  note op = op_token_cases [of op]
  have add: "parse_additive_expression X sub (v @ rest) = POk r rest"
    using assms by (intro reads_additive) (simp_all add: ends_expr_def)
  consider "multiplicative_op (op_token op) = Some op \<or> additive_op (op_token op) = Some op" | "op = BAnd \<or> op = BOr"
    | "ends_sum (op_token op)" "op_token op \<notin> {TIs, TBetween, TIn}"
      "op_token op = TLike \<and> op = BLike \<or> op_token op \<noteq> TLike \<and> comparison_op (op_token op) = Some op"
    using op by blast
  then show ?thesis
  proof cases
    case 1
    then show ?thesis by (rule arithmetic_expression [OF assms])
  next
    case 2
    then show ?thesis using logical_expression [OF assms] by (auto simp: op_token_def)
  next
    case 3
    then have "comparison_rest X sub l (op_token op # v @ rest) = POk (EBinary l op r) rest"
      using add by (auto simp: comparison_rest_def pbind_def pret_def)
    then show ?thesis using assms 3 by (intro comparison_expression)
  qed
qed

lemma reads_back_binary: "reads_back X l \<Longrightarrow> reads_back X r \<Longrightarrow> reads_back X (EBinary l op r)"
  by (rule reads_back_parens [where w = "write_expr l @ op_token op # write_expr r"])
    (auto intro!: binary_expression reads_backD simp: ends_defs)

lemma reads_back_not: "reads_back X e \<Longrightarrow> reads_back X (ENot e)"
proof (rule reads_back_parens [where w = "TNot # write_expr e"])
  fix m rest assume e: "reads_back X e" and m: "length (TNot # write_expr e) \<le> m"
  have "parse_not_expression X (expression_within X m) (write_expr e @ TRightParen # rest) = POk e (TRightParen # rest)"
    by (rule reads_negation [OF reads_backD [OF e]]) (use m in \<open>simp_all add: ends_defs\<close>)
  then show "parse_or_expression X (expression_within X m) ((TNot # write_expr e) @ TRightParen # rest) = POk (ENot e) (TRightParen # rest)"
    by (intro negation_expression) simp_all
qed simp

lemma reads_back_null: "reads_back X e \<Longrightarrow> reads_back X (EIsNull e)" "reads_back X e \<Longrightarrow> reads_back X (EIsNotNull e)"
  by (rule reads_back_parens [where w = "write_expr e @ [TIs, TNull]"]; auto intro!: comparison_expression reads_backD
      simp: ends_defs comparison_rest_def pbind_def skip_if_def expect_def pret_def)
    (rule reads_back_parens [where w = "write_expr e @ [TIs, TNot, TNull]"]; auto intro!: comparison_expression reads_backD
      simp: ends_defs comparison_rest_def pbind_def skip_if_def expect_def pret_def)

lemma reads_back_between:
  assumes "reads_back X e" "reads_back X l" "reads_back X h"
  shows "reads_back X (EBetween e l h)"
proof (rule reads_back_parens [where w = "write_expr e @ TBetween # write_expr l @ TAnd # write_expr h"])
  fix m rest assume m: "length (write_expr e @ TBetween # write_expr l @ TAnd # write_expr h) \<le> m"
  let ?sub = "expression_within X m"
  have "parse_additive_expression X ?sub (write_expr l @ TAnd # r) = POk l (TAnd # r)"
    "parse_additive_expression X ?sub (write_expr h @ TRightParen # r) = POk h (TRightParen # r)" for r
    using m by (auto intro!: reads_additive reads_backD assms simp: ends_defs)
  then have "comparison_rest X ?sub e (TBetween # write_expr l @ TAnd # write_expr h @ TRightParen # rest)
      = POk (EBetween e l h) (TRightParen # rest)"
    by (simp add: comparison_rest_def pbind_def expect_def pret_def)
  then show "parse_or_expression X ?sub ((write_expr e @ TBetween # write_expr l @ TAnd # write_expr h) @ TRightParen # rest)
      = POk (EBetween e l h) (TRightParen # rest)"
    using m by (auto intro!: comparison_expression reads_backD assms simp: ends_defs)
qed simp

lemma reads_back_in:
  assumes "reads_back X e" "\<And>a. a \<in> set es \<Longrightarrow> reads_back X a" "es \<noteq> []"
  shows "reads_back X (EInList e es)"
proof (rule reads_back_parens [where w = "write_expr e @ TIn # TLeftParen # commas (map write_expr es) @ [TRightParen]"])
  fix m rest assume m: "length (write_expr e @ TIn # TLeftParen # commas (map write_expr es) @ [TRightParen]) \<le> m"
  then obtain k where k: "m = Suc k" "length (commas (map write_expr es)) \<le> k" by (cases m) auto
  have "comparison_rest X (expression_within X m) e (TIn # TLeftParen # commas (map write_expr es) @ TRightParen # TRightParen # rest)
      = POk (EInList e es) (TRightParen # rest)"
    using reads_back_list [OF assms(2,3) k(2), of "TRightParen # rest"]
    by (simp add: k(1) comparison_rest_def pbind_def expect_def pret_def del: expression_within.simps)
  then show "parse_or_expression X (expression_within X m)
      ((write_expr e @ TIn # TLeftParen # commas (map write_expr es) @ [TRightParen]) @ TRightParen # rest)
      = POk (EInList e es) (TRightParen # rest)"
    using m by (auto intro!: comparison_expression reads_backD assms simp: ends_defs)
qed simp

lemma reads_back_function:
  assumes "\<And>a. a \<in> set es \<Longrightarrow> reads_back X a"
  shows "reads_back X (EFunction f es)"
  unfolding reads_back_def
proof (intro allI impI)
  fix n assume n: "length (write_expr (EFunction f es)) \<le> n"
  then obtain k where k: "n = Suc k" "length (commas (map write_expr es)) \<le> k" by (cases n) auto
  show "reads X (expression_within X n) (write_expr (EFunction f es)) (EFunction f es)"
  proof (cases "es = []")
    case True
    then show ?thesis
      by (simp add: reads_def parse_primary_expression_def parse_identifier_expr_def pbind_def expect_def pret_def)
  next
    case False
    then show ?thesis
      using reads_back_list [OF assms False k(2)] hd_commas [OF False]
      by (simp add: k(1) reads_def parse_primary_expression_def parse_identifier_expr_def pbind_def expect_def pret_def
          del: expression_within.simps)
  qed
qed

lemma write_reads_back: "writable e \<Longrightarrow> reads_back X e"
proof (induction e)
  case (EBinary l op r) then show ?case by (simp add: reads_back_binary)
next
  case (ENot e) then show ?case by (simp add: reads_back_not)
next
  case (EIsNull e) then show ?case by (simp add: reads_back_null)
next
  case (EIsNotNull e) then show ?case by (simp add: reads_back_null)
next
  case (EBetween e l h) then show ?case by (simp add: reads_back_between)
next
  case (EInList e es) then show ?case by (auto intro!: reads_back_in simp: list_all_iff)
next
  case (EFunction f es) then show ?case by (auto intro!: reads_back_function simp: list_all_iff)
qed (auto simp: reads_back_def reads_def parse_primary_expression_def parse_identifier_expr_def pbind_def
    expect_identifier_def pret_def ends_operand_def)

text \<open>
  C22: the parser reads every expression back from its text with parentheses around each operation, whatever
  operators, nesting, lists and calls it holds, and leaves what follows.
\<close>

theorem parse_write_expr:
  assumes "writable e" "ends_expr (current rest)"
  shows "parse_expression X (write_expr e @ rest) = POk e rest"
  unfolding parse_expression_def
  by (rule reads_back_expression [OF write_reads_back [OF assms(1)] _ assms(2)]) simp

theorem parse_write_expr_witness:
  "parse_expression ascii_lib (write_expr (EBinary (ENot (EInList (EColumn (u ''a'')) [EInteger 1, ENull])) BOr
       (EBetween (EQualified (u ''t'') (u ''b'')) (EInteger 2) (EFunction (u ''f'') []))) @ [TEof])
   = POk (EBinary (ENot (EInList (EColumn (u ''a'')) [EInteger 1, ENull])) BOr
       (EBetween (EQualified (u ''t'') (u ''b'')) (EInteger 2) (EFunction (u ''f'') []))) [TEof]"
  by (rule parse_write_expr) (simp_all add: ends_defs)

end
