(* ===== verification/SqlTranslatorCorrect.thy ===== *)
theory SqlTranslatorCorrect
  imports SqlTranslator SqlRoundtrip
begin

text \<open>
  What the translation to SDBQL keeps of a statement: string literals without a backslash reach the SDBQL
  lexer unchanged; a backslash before a quote, the grouping of operators, tokens after a statement and the
  values of rows without columns do not survive it.
\<close>

section \<open>String literals\<close>

lemma sdbql_string_Cons:
  "c \<noteq> q \<Longrightarrow> c \<noteq> 92 \<Longrightarrow> sdbql_string q (c # cs) = map_option (apfst (Cons c)) (sdbql_string q cs)"
  by (cases cs) auto

lemma sdbql_string_close: "sdbql_string q (q # cs) = Some ([], cs)"
  by (cases cs) auto

lemma sdbql_string_quoted:
  "92 \<notin> set s \<Longrightarrow> sdbql_string 34 (concat (map quote_char s) @ 34 # rest) = Some (s, rest)"
  by (induction s) (auto simp: quote_char_def sdbql_string_Cons sdbql_string_close sdbql_escape_def)

text \<open>
  C23: a string without a backslash is written as a literal that the SDBQL lexer reads back as that string,
  whatever quotes it contains, and the text after the literal is left as it was.
\<close>

theorem translate_string_roundtrip:
  assumes "92 \<notin> set s"
  shows "sdbql_read_string (translate_string s @ rest) = Inr (s, rest)"
  using sdbql_string_quoted [OF assms] by (simp add: sdbql_read_string_def translate_string_def)

theorem translate_string_roundtrip_witness:
  "sdbql_read_string (translate_string (u [CHR ''a'', CHR 0x22, CHR ''b'']) @ u '' AND'')
   = Inr (u [CHR ''a'', CHR 0x22, CHR ''b''], u '' AND'')"
  by (rule translate_string_roundtrip) (simp add: u_def)

text \<open>
  C33: the translation does not escape a backslash. A string that holds a backslash and then a double quote is
  written as a literal that ends at that quote: the SDBQL lexer reads the rest of the string as query text.
\<close>

theorem translate_string_escapes_literal:
  assumes "92 \<notin> set s"
  shows "sdbql_read_string (translate_string (s @ [92, 34] @ more_text) @ rest)
       = Inr (s @ [92], concat (map quote_char more_text) @ [34] @ rest)"
proof -
  have "sdbql_string 34 (concat (map quote_char s) @ 92 # 92 # 34 # r) = Some (s @ [92], r)" for r
    using assms
    by (induction s) (auto simp: quote_char_def sdbql_string_Cons sdbql_string_close sdbql_escape_def)
  then show ?thesis by (simp add: sdbql_read_string_def translate_string_def quote_char_def)
qed

theorem translate_string_escapes_literal_witness:
  "sdbql_read_string (translate_string (u ''x'' @ [92, 34] @ u '' OR true'') @ [])
   = Inr (u ''x'' @ [92], concat (map quote_char (u '' OR true'')) @ [34] @ [])"
  by (rule translate_string_escapes_literal) (simp add: u_def)

section \<open>Statements\<close>

text \<open>
  C35: the parser does not look at what follows a statement. A \<open>DELETE FROM t\<close> whose next token is not
  \<open>WHERE\<close>, a misspelt one for instance, is the statement without a condition, and its translation removes
  every document of the table.
\<close>

theorem delete_ignores_trailing_tokens:
  assumes "current ts \<noteq> TWhere"
  shows "parse X (TDelete # TFrom # TIdentifier t # ts)
       = POk (Delete \<lparr>del_table = t, del_where = None\<rparr>) (if current ts = TSemicolon then tl ts else ts)
     \<and> translate_statement X ho (Delete \<lparr>del_table = t, del_where = None\<rparr>)
       = u ''FOR doc IN '' @ t @ u [CHR 0x0A] @ u ''  REMOVE doc IN '' @ t @ u [CHR 0x0A] @ u ''  RETURN OLD''"
  using assms
  by (simp add: parse_def parse_statement_def parse_delete_def parse_where_def pbind_def expect_def current_def
      expect_identifier_def clause_def skip_if_def pret_def translate_statement_def translate_delete_def
      filter_parts_def split: list.splits)

theorem delete_ignores_trailing_tokens_witness:
  "parse ascii_lib (TDelete # TFrom # TIdentifier (u ''users'') # [TIdentifier (u ''WERE''), TIdentifier (u ''id''), TEqual, TInteger 1, TEof])
   = POk (Delete \<lparr>del_table = u ''users'', del_where = None\<rparr>) [TIdentifier (u ''WERE''), TIdentifier (u ''id''), TEqual, TInteger 1, TEof]"
  using delete_ignores_trailing_tokens [of "[TIdentifier (u ''WERE''), TIdentifier (u ''id''), TEqual, TInteger 1, TEof]" ascii_lib "u ''users''" id]
  by (simp add: current_def)

text \<open>
  C34: the translation of a binary operation writes no parentheses: \<open>(a OR b) AND c\<close> and \<open>a OR b AND c\<close> are
  different expressions for the SQL parser and the same SDBQL text.
\<close>

theorem translation_loses_grouping:
  "\<exists>e1 e2. parse_expression X [TLeftParen, TIdentifier a, TOr, TIdentifier b, TRightParen, TAnd, TIdentifier c, TEof] = POk e1 [TEof]
      \<and> parse_expression X [TIdentifier a, TOr, TIdentifier b, TAnd, TIdentifier c, TEof] = POk e2 [TEof]
      \<and> e1 \<noteq> e2 \<and> translate_expr X d e1 = translate_expr X d e2"
proof (intro exI conjI)
  let ?r = "\<lambda>n. reads X (expression_within X n)"
  have col: "?r n [TIdentifier x] (EColumn x)" for n x
    by (simp add: reads_def parse_primary_expression_def parse_identifier_expr_def ends_operand_def)
  have eof: "ends_expr (current [TEof])" "ends_expr (current (TRightParen # ts))" for ts by (simp_all add: ends_defs)
  have or: "?r (Suc n) (TLeftParen # ([TIdentifier a] @ TOr # [TIdentifier b]) @ [TRightParen]) (EBinary (EColumn a) BOr (EColumn b))" for n
    using logical_expression(2) [OF col col eof(2)] by (intro reads_parens) simp
  have step: "parse_expression X (t # ts) = parse_or_expression X (expression_within X (Suc (length ts))) (t # ts)" for t ts
    by (simp add: parse_expression_def)
  show "parse_expression X [TLeftParen, TIdentifier a, TOr, TIdentifier b, TRightParen, TAnd, TIdentifier c, TEof]
      = POk (EBinary (EBinary (EColumn a) BOr (EColumn b)) BAnd (EColumn c)) [TEof]"
    unfolding step using logical_expression(1) [OF or col eof(1)] by (simp only: append_Cons append_Nil)
  have neg: "parse_not_expression X (expression_within X n) (TIdentifier x # r) = POk (EColumn x) r"
    if "ends_sum (current r)" "comparison_op (current r) = None" "current r \<notin> {TIs, TBetween, TIn, TLike}" for n x r
    using reads_negation [OF col that] by simp
  have "parse_and_expression X (expression_within X n) [TIdentifier b, TAnd, TIdentifier c, TEof]
      = POk (EBinary (EColumn b) BAnd (EColumn c)) [TEof]" for n
    unfolding parse_and_expression_def using neg [of "TAnd # [TIdentifier c, TEof]" n b] neg [of "[TEof]" n c]
    by (auto intro: left_assoc_step simp: ends_defs)
  moreover have "parse_and_expression X (expression_within X n) (TIdentifier a # TOr # ts) = POk (EColumn a) (TOr # ts)" for n ts
    unfolding parse_and_expression_def using neg [of "TOr # ts" n a] by (auto intro: left_assoc_stop simp: ends_defs)
  ultimately have "parse_or_expression X (expression_within X n) [TIdentifier a, TOr, TIdentifier b, TAnd, TIdentifier c, TEof]
      = POk (EBinary (EColumn a) BOr (EBinary (EColumn b) BAnd (EColumn c))) [TEof]" for n
    unfolding parse_or_expression_def by (auto intro: left_assoc_step)
  then show "parse_expression X [TIdentifier a, TOr, TIdentifier b, TAnd, TIdentifier c, TEof]
      = POk (EBinary (EColumn a) BOr (EBinary (EColumn b) BAnd (EColumn c))) [TEof]" by (simp only: step)
qed simp_all

text \<open>
  \<open>INSERT INTO t VALUES (..), (..)\<close> without a list of columns writes the number of each row and none of its
  values: two such statements with as many rows have the same translation.
\<close>

theorem insert_rows_drop_values:
  assumes "length rows = length rows'" "2 \<le> length rows"
  shows "translate_insert X \<lparr>ins_table = t, ins_columns = None, ins_values = rows\<rparr>
       = translate_insert X \<lparr>ins_table = t, ins_columns = None, ins_values = rows'\<rparr>"
proof -
  obtain r1 r2 rs where rows: "rows = r1 # r2 # rs" using assms(2) by (cases rows; cases "tl rows") auto
  obtain q1 q2 qs where rows': "rows' = q1 # q2 # qs"
    using assms by (cases rows'; cases "tl rows'") auto
  have "map (\<lambda>(i, row). f i) (enumerate n xs) = map f [n..<n + length xs]" for f :: "nat \<Rightarrow> ustr" and n and xs :: "sql_expr list list"
  proof -
    have "map (\<lambda>(i, row). f i) (enumerate n xs) = map f (map fst (enumerate n xs))" by (simp only: map_map o_def split_def)
    then show ?thesis by (simp only: map_fst_enumerate)
  qed
  then show ?thesis using assms(1) by (simp add: translate_insert_def rows rows' del: enumerate_simps)
qed

theorem insert_rows_drop_values_witness:
  "translate_insert ascii_lib \<lparr>ins_table = u ''t'', ins_columns = None, ins_values = [[EInteger 1], [EInteger 2]]\<rparr>
   = translate_insert ascii_lib \<lparr>ins_table = u ''t'', ins_columns = None, ins_values = [[EInteger 3], [EInteger 4]]\<rparr>"
  by (rule insert_rows_drop_values) simp_all

end
