(* ===== verification/Authorization.thy ===== *)
theory Authorization
  imports Engine SyncLog
begin

text \<open>
  Role-based access control, \<^verbatim>\<open>src/server/authorization.rs\<close> and \<^verbatim>\<open>src/server/permission_cache.rs\<close>: permissions,
  roles and their JSON form, the check of a permission, and the cache of roles and resolved permissions in
  front of the collection of roles. Instants are numbers; what a handler draws from the clock and the
  random generator is an argument.
\<close>

section \<open>Permissions and roles\<close>

datatype permission_action = PRead | PWrite | PAdmin

fun implies :: "permission_action \<Rightarrow> permission_action \<Rightarrow> bool" where
  "implies PAdmin other = True"
| "implies PWrite other = (other = PWrite \<or> other = PRead)"
| "implies PRead other = (other = PRead)"

datatype permission_scope = PGlobal | PDatabase

record permission =
  pm_action :: permission_action
  pm_scope :: permission_scope
  pm_database :: "string option"

definition global_permission :: "permission_action \<Rightarrow> permission" where
  "global_permission a = \<lparr> pm_action = a, pm_scope = PGlobal, pm_database = None \<rparr>"

definition global_admin :: permission where
  "global_admin = global_permission PAdmin"

definition database_permission :: "permission_action \<Rightarrow> string \<Rightarrow> permission" where
  "database_permission a db = \<lparr> pm_action = a, pm_scope = PDatabase, pm_database = Some db \<rparr>"

record role =
  ro_name :: string
  ro_description :: "string option"
  ro_permissions :: "permission list"
  ro_is_builtin :: bool
  ro_created_at :: string
  ro_updated_at :: "string option"

definition builtin_role :: "string \<Rightarrow> string \<Rightarrow> string \<Rightarrow> permission list \<Rightarrow> role" where
  "builtin_role now name desc ps =
     \<lparr> ro_name = name, ro_description = Some desc, ro_permissions = ps, ro_is_builtin = True,
       ro_created_at = now, ro_updated_at = None \<rparr>"

definition builtin_roles :: "string \<Rightarrow> role list" where
  "builtin_roles now =
     [builtin_role now ''admin'' ''Full system access'' [global_admin],
      builtin_role now ''editor'' ''Read and write access to all databases'' [global_permission PWrite, global_permission PRead],
      builtin_role now ''viewer'' ''Read-only access to all databases'' [global_permission PRead]]"

record user_role =
  ur_id :: string
  ur_username :: string
  ur_role :: string
  ur_database :: "string option"
  ur_assigned_at :: string
  ur_assigned_by :: string

text \<open>The claims of a caller that the checks read; the expiry of a token and the flag for live queries are not
  among them.\<close>

record claims =
  cl_sub :: string
  cl_roles :: "string list option"
  cl_scoped_databases :: "string list option"

section \<open>JSON form\<close>

text \<open>The derived readers of serde: a struct is an object, or an array with one element for each field; an
  optional field may be missing or null; a variant without data is its name, or an object with its name.\<close>

definition as_struct :: "string list \<Rightarrow> json \<Rightarrow> json_obj option" where
  "as_struct names v =
     (case v of
        JObject m \<Rightarrow> Some m
      | JArray vs \<Rightarrow> if length vs = length names then Some (zip names vs) else None
      | _ \<Rightarrow> None)"

definition req_str :: "json_obj \<Rightarrow> string \<Rightarrow> string option" where
  "req_str m k = Option.bind (map_of m k) as_str"

definition opt_str :: "json_obj \<Rightarrow> string \<Rightarrow> string option option" where
  "opt_str m k =
     (case map_of m k of None \<Rightarrow> Some None | Some JNull \<Rightarrow> Some None | Some (JString s) \<Rightarrow> Some (Some s) | _ \<Rightarrow> None)"

definition variant :: "(string \<times> 'a) list \<Rightarrow> json \<Rightarrow> 'a option" where
  "variant vs v = (case v of JString s \<Rightarrow> map_of vs s | JObject [(s, JNull)] \<Rightarrow> map_of vs s | _ \<Rightarrow> None)"

fun collect_some :: "('a \<Rightarrow> 'b option) \<Rightarrow> 'a list \<Rightarrow> 'b list option" where
  "collect_some f [] = Some []"
| "collect_some f (x # xs) = Option.bind (f x) (\<lambda>y. map_option (Cons y) (collect_some f xs))"

definition action_names :: "(string \<times> permission_action) list" where
  "action_names = [(''admin'', PAdmin), (''write'', PWrite), (''read'', PRead)]"

definition scope_names :: "(string \<times> permission_scope) list" where
  "scope_names = [(''global'', PGlobal), (''database'', PDatabase)]"

definition permission_of_json :: "json \<Rightarrow> permission option" where
  "permission_of_json v =
     Option.bind (as_struct [''action'', ''scope'', ''database''] v) (\<lambda>m.
     Option.bind (Option.bind (map_of m ''action'') (variant action_names)) (\<lambda>a.
     Option.bind (Option.bind (map_of m ''scope'') (variant scope_names)) (\<lambda>sc.
     Option.bind (opt_str m ''database'') (\<lambda>db.
     Some \<lparr> pm_action = a, pm_scope = sc, pm_database = db \<rparr>))))"

definition role_of_json :: "json \<Rightarrow> role option" where
  "role_of_json v =
     Option.bind (as_struct [''_key'', ''description'', ''permissions'', ''is_builtin'', ''created_at'', ''updated_at''] v) (\<lambda>m.
     Option.bind (req_str m ''_key'') (\<lambda>name.
     Option.bind (opt_str m ''description'') (\<lambda>desc.
     Option.bind (Option.bind (Option.bind (map_of m ''permissions'') as_array) (collect_some permission_of_json)) (\<lambda>ps.
     Option.bind (case map_of m ''is_builtin'' of None \<Rightarrow> Some False | Some (JBool b) \<Rightarrow> Some b | _ \<Rightarrow> None) (\<lambda>b.
     Option.bind (req_str m ''created_at'') (\<lambda>created.
     Option.bind (opt_str m ''updated_at'') (\<lambda>updated.
     Some \<lparr> ro_name = name, ro_description = desc, ro_permissions = ps, ro_is_builtin = b, ro_created_at = created,
            ro_updated_at = updated \<rparr>)))))))"

definition user_role_of_json :: "json \<Rightarrow> user_role option" where
  "user_role_of_json v =
     Option.bind (as_struct [''_key'', ''username'', ''role'', ''database'', ''assigned_at'', ''assigned_by''] v) (\<lambda>m.
     Option.bind (req_str m ''_key'') (\<lambda>id.
     Option.bind (req_str m ''username'') (\<lambda>name.
     Option.bind (req_str m ''role'') (\<lambda>r.
     Option.bind (opt_str m ''database'') (\<lambda>db.
     Option.bind (req_str m ''assigned_at'') (\<lambda>ass_at.
     Option.bind (req_str m ''assigned_by'') (\<lambda>ass_by.
     Some \<lparr> ur_id = id, ur_username = name, ur_role = r, ur_database = db, ur_assigned_at = ass_at,
            ur_assigned_by = ass_by \<rparr>)))))))"

text \<open>The derived writers; an absent option is left out.\<close>

definition json_of_fields :: "(string \<times> json option) list \<Rightarrow> json" where
  "json_of_fields fs = JObject (foldl (\<lambda>m (k, v). case v of Some w \<Rightarrow> smap_put k w m | None \<Rightarrow> m) [] fs)"

definition name_in :: "(string \<times> 'a) list \<Rightarrow> 'a \<Rightarrow> string" where
  "name_in vs a = (case find (\<lambda>(_, b). b = a) vs of Some (s, _) \<Rightarrow> s | None \<Rightarrow> [])"

definition permission_to_json :: "permission \<Rightarrow> json" where
  "permission_to_json p =
     json_of_fields [(''action'', Some (JString (name_in action_names (pm_action p)))),
                     (''scope'', Some (JString (name_in scope_names (pm_scope p)))),
                     (''database'', map_option JString (pm_database p))]"

definition role_to_json :: "role \<Rightarrow> json" where
  "role_to_json r =
     json_of_fields [(''_key'', Some (JString (ro_name r))),
                     (''description'', map_option JString (ro_description r)),
                     (''permissions'', Some (JArray (map permission_to_json (ro_permissions r)))),
                     (''is_builtin'', Some (JBool (ro_is_builtin r))),
                     (''created_at'', Some (JString (ro_created_at r))),
                     (''updated_at'', map_option JString (ro_updated_at r))]"

definition user_role_to_json :: "user_role \<Rightarrow> json" where
  "user_role_to_json r =
     json_of_fields [(''_key'', Some (JString (ur_id r))), (''username'', Some (JString (ur_username r))),
                     (''role'', Some (JString (ur_role r))), (''database'', map_option JString (ur_database r)),
                     (''assigned_at'', Some (JString (ur_assigned_at r))),
                     (''assigned_by'', Some (JString (ur_assigned_by r)))]"

section \<open>Checking a permission\<close>

definition satisfies :: "permission \<Rightarrow> permission \<Rightarrow> bool" where
  "satisfies perm required =
     (if perm = required then True
      else if \<not> implies (pm_action perm) (pm_action required) then False
      else if pm_scope perm = PGlobal then True
      else pm_scope perm = PDatabase \<and> pm_scope required = PDatabase \<and> pm_database perm = pm_database required)"

definition has_permission :: "permission set \<Rightarrow> permission \<Rightarrow> bool" where
  "has_permission permissions required = (\<exists>perm \<in> permissions. satisfies perm required)"

definition resolve_permissions :: "role list \<Rightarrow> permission set" where
  "resolve_permissions roles = set (concat (map ro_permissions roles))"

definition debug_action :: "permission_action \<Rightarrow> string" where
  "debug_action a = (case a of PAdmin \<Rightarrow> ''Admin'' | PWrite \<Rightarrow> ''Write'' | PRead \<Rightarrow> ''Read'')"

definition check_unscoped :: "permission set \<Rightarrow> permission_action \<Rightarrow> string option \<Rightarrow> unit db_result" where
  "check_unscoped permissions required_action database =
     (let required = \<lparr> pm_action = required_action,
                       pm_scope = (if database \<noteq> None then PDatabase else PGlobal), pm_database = database \<rparr>
      in if global_admin \<in> permissions then Inr ()
         else if has_permission permissions required then Inr ()
         else Inl (Forbidden (''Access denied: insufficient permissions for '' @ debug_action required_action @ '' on '' @
                              (case database of Some db \<Rightarrow> db | None \<Rightarrow> ''global''))))"

definition check_permission_raw ::
    "permission set \<Rightarrow> permission_action \<Rightarrow> string option \<Rightarrow> string list option \<Rightarrow> unit db_result" where
  "check_permission_raw permissions required_action database scoped_databases =
     (case (scoped_databases, database) of
        (Some dbs, Some db) \<Rightarrow>
          if db \<notin> set dbs
          then Inl (Forbidden (''Access denied: API key not authorized for database '' @ quoted db))
          else check_unscoped permissions required_action database
      | _ \<Rightarrow> check_unscoped permissions required_action database)"

section \<open>The permission cache\<close>

record cached_permissions =
  cp_permissions :: "permission set"
  cp_roles :: "string list"
  cp_scoped_databases :: "string list option"
  cp_cached_at :: nat

definition cp_is_expired :: "nat \<Rightarrow> nat \<Rightarrow> cached_permissions \<Rightarrow> bool" where
  "cp_is_expired now ttl e = (now - cp_cached_at e > ttl)"

record permission_cache =
  pc_entries :: "(string, cached_permissions) smap"
  pc_roles :: "(string, role) smap"
  pc_ttl :: nat

text \<open>Sixty seconds, in nanoseconds.\<close>

definition pc_new :: permission_cache where
  "pc_new = \<lparr> pc_entries = [], pc_roles = [], pc_ttl = 60 * 10 ^ 9 \<rparr>"

definition pc_with_ttl :: "nat \<Rightarrow> permission_cache" where
  "pc_with_ttl ttl = \<lparr> pc_entries = [], pc_roles = [], pc_ttl = ttl \<rparr>"

definition pc_get :: "nat \<Rightarrow> string \<Rightarrow> permission_cache \<Rightarrow> cached_permissions option" where
  "pc_get now subject pc =
     (case map_of (pc_entries pc) subject of
        Some e \<Rightarrow> if cp_is_expired now (pc_ttl pc) e then None else Some e
      | None \<Rightarrow> None)"

definition cleanup_expired_internal :: "nat \<Rightarrow> permission_cache \<Rightarrow> permission_cache" where
  "cleanup_expired_internal now pc =
     pc\<lparr> pc_entries := filter (\<lambda>(_, e). \<not> cp_is_expired now (pc_ttl pc) e) (pc_entries pc) \<rparr>"

definition pc_set :: "nat \<Rightarrow> string \<Rightarrow> cached_permissions \<Rightarrow> permission_cache \<Rightarrow> permission_cache" where
  "pc_set now subject e pc =
     (let pc = pc\<lparr> pc_entries := smap_put subject e (pc_entries pc) \<rparr>
      in if length (pc_entries pc) mod 100 = 0 then cleanup_expired_internal now pc else pc)"

definition pc_invalidate :: "string \<Rightarrow> permission_cache \<Rightarrow> permission_cache" where
  "pc_invalidate subject pc = pc\<lparr> pc_entries := smap_del subject (pc_entries pc) \<rparr>"

definition pc_invalidate_role :: "string \<Rightarrow> permission_cache \<Rightarrow> permission_cache" where
  "pc_invalidate_role r pc = pc\<lparr> pc_entries := filter (\<lambda>(_, e). r \<notin> set (cp_roles e)) (pc_entries pc) \<rparr>"

definition pc_clear :: "permission_cache \<Rightarrow> permission_cache" where
  "pc_clear pc = pc\<lparr> pc_entries := [] \<rparr>"

definition pc_get_role :: "string \<Rightarrow> permission_cache \<Rightarrow> role option" where
  "pc_get_role name pc = map_of (pc_roles pc) name"

definition pc_set_role :: "role \<Rightarrow> permission_cache \<Rightarrow> permission_cache" where
  "pc_set_role r pc = pc\<lparr> pc_roles := smap_put (ro_name r) r (pc_roles pc) \<rparr>"

definition pc_remove_role :: "string \<Rightarrow> permission_cache \<Rightarrow> permission_cache" where
  "pc_remove_role name pc = pc\<lparr> pc_roles := smap_del name (pc_roles pc) \<rparr>"

definition initialize_builtin_roles :: "string \<Rightarrow> permission_cache \<Rightarrow> permission_cache" where
  "initialize_builtin_roles now pc = foldl (\<lambda>pc r. pc_set_role r pc) pc (builtin_roles now)"

section \<open>Effective permissions\<close>

text \<open>The part of the server state that authorisation and the role handlers use.\<close>

record ('db, 'v, 's, 'f, 'l) app_state =
  st_engine :: "('db, 'v, 's, 'f) engine"
  st_cache :: permission_cache
  st_log :: "'l sync_log option"

type_synonym ('db, 'v, 's, 'f, 'l, 'a) sact =
  "('db, 'v, 's, 'f, 'l) app_state \<Rightarrow> 'a outcome \<times> ('db, 'v, 's, 'f, 'l) app_state"

definition sret :: "'a \<Rightarrow> ('db, 'v, 's, 'f, 'l, 'a) sact" where
  "sret a st = (Done a, st)"

definition sfail :: "db_error \<Rightarrow> ('db, 'v, 's, 'f, 'l, 'a) sact" where
  "sfail e st = (Err e, st)"

definition on_engine :: "('db, 'v, 's, 'f, 'a) eact \<Rightarrow> ('db, 'v, 's, 'f, 'l, 'a) sact" where
  "on_engine m st = (case m (st_engine st) of (r, e) \<Rightarrow> (r, st\<lparr> st_engine := e \<rparr>))"

definition on_cache :: "(permission_cache \<Rightarrow> permission_cache) \<Rightarrow> ('db, 'v, 's, 'f, 'l, unit) sact" where
  "on_cache f st = (Done (), st\<lparr> st_cache := f (st_cache st) \<rparr>)"

text \<open>\<^verbatim>\<open>if let Ok(x) = ..\<close>: an error is a value.\<close>

definition stry :: "('db, 'v, 's, 'f, 'l, 'a) sact \<Rightarrow> ('db, 'v, 's, 'f, 'l, db_error + 'a) sact" where
  "stry m st = (case m st of (Done a, st) \<Rightarrow> (Done (Inr a), st) | (Err e, st) \<Rightarrow> (Done (Inl e), st) | (Panic, st) \<Rightarrow> (Panic, st))"

definition system_collection :: "('db, 'v, 's, 'f) env \<Rightarrow> string \<Rightarrow> ('db, 'v, 's, 'f, 'l, nat) sact" where
  "system_collection E name = on_engine (ebind (get_database E ''_system'') (\<lambda>db. db_get_collection E db name))"

definition get_document :: "('db, 'v, 's, 'f) env \<Rightarrow> nat \<Rightarrow> string \<Rightarrow> ('db, 'v, 's, 'f, 'l, document) sact" where
  "get_document E h key = on_engine (with_handle h (\<lambda>c. (coll_get E key c, c)))"

definition ROLES_COLLECTION :: string where "ROLES_COLLECTION = ''_roles''"
definition USER_ROLES_COLLECTION :: string where "USER_ROLES_COLLECTION = ''_user_roles''"

definition load_role :: "('db, 'v, 's, 'f) env \<Rightarrow> nat \<Rightarrow> string \<Rightarrow> ('db, 'v, 's, 'f, 'l, role option) sact" where
  "load_role E h name st =
     (case pc_get_role name (st_cache st) of
        Some r \<Rightarrow> (Done (Some r), st)
      | None \<Rightarrow>
          ebind (stry (get_document E h name)) (\<lambda>res.
            case res of
              Inl _ \<Rightarrow> sret None
            | Inr doc \<Rightarrow>
                (case role_of_json (doc_data doc) of
                   None \<Rightarrow> sret None
                 | Some r \<Rightarrow> ebind (on_cache (pc_set_role r)) (\<lambda>_. sret (Some r)))) st)"

fun load_roles :: "('db, 'v, 's, 'f) env \<Rightarrow> nat \<Rightarrow> string list \<Rightarrow> ('db, 'v, 's, 'f, 'l, role list) sact" where
  "load_roles E h [] = sret []"
| "load_roles E h (name # names) =
     ebind (load_role E h name) (\<lambda>r. ebind (load_roles E h names) (\<lambda>rs.
       sret (case r of Some x \<Rightarrow> x # rs | None \<Rightarrow> rs)))"

text \<open>\<open>now\<close> is the instant of the lookup and \<open>later\<close> that of the new entry.\<close>

definition get_effective_permissions ::
    "('db, 'v, 's, 'f) env \<Rightarrow> nat \<Rightarrow> nat \<Rightarrow> claims \<Rightarrow> ('db, 'v, 's, 'f, 'l, permission set) sact" where
  "get_effective_permissions E now later cl st =
     (case pc_get now (cl_sub cl) (st_cache st) of
        Some e \<Rightarrow> (Done (cp_permissions e), st)
      | None \<Rightarrow>
          (let role_names = (case cl_roles cl of Some rs \<Rightarrow> rs | None \<Rightarrow> [])
           in if role_names = [] then (Done {global_admin}, st)
              else ebind (system_collection E ROLES_COLLECTION) (\<lambda>h.
                   ebind (load_roles E h role_names) (\<lambda>roles.
                   ebind (on_cache (pc_set later (cl_sub cl)
                     \<lparr> cp_permissions = resolve_permissions roles, cp_roles = role_names,
                       cp_scoped_databases = cl_scoped_databases cl, cp_cached_at = later \<rparr>)) (\<lambda>_.
                   sret (resolve_permissions roles)))) st))"

definition check_permission ::
    "('db, 'v, 's, 'f) env \<Rightarrow> nat \<Rightarrow> nat \<Rightarrow> claims \<Rightarrow> permission_action \<Rightarrow> string option \<Rightarrow> ('db, 'v, 's, 'f, 'l, unit) sact" where
  "check_permission E now later cl required_action database =
     ebind (get_effective_permissions E now later cl) (\<lambda>permissions st.
       (outcome_of (check_permission_raw permissions required_action database (cl_scoped_databases cl)), st))"

end
