(* ===== verification/RoleHandlers.thy ===== *)
theory RoleHandlers
  imports Authorization
begin

text \<open>
  The handlers of \<^verbatim>\<open>src/server/role_handlers.rs\<close> that manage roles, assignments and users: each checks for the
  global permission \<open>Admin\<close>, works on the collections of the system database, records its writes in the
  replication log and invalidates the permission cache. The hash of a password, the lower case of a text
  and the messages of serde are parameters.
\<close>

section \<open>Requests\<close>

record 'l auth_lib =
  lb_log :: "'l rocks"
  lb_codec :: log_codec
  lb_lower :: "string \<Rightarrow> string"
  lb_hash_password :: "string \<Rightarrow> string db_result"
  lb_de_error :: "json \<Rightarrow> string"

text \<open>What a handler draws: instants for the cache, the time as text and in milliseconds, a random
  identifier and the values of a write.\<close>

record tick =
  tk_now :: nat
  tk_later :: nat
  tk_rfc3339 :: string
  tk_millis :: u64
  tk_uuid :: string
  tk_fresh :: fresh

record permission_input =
  pi_action :: string
  pi_scope :: string
  pi_database :: "string option"

definition to_permission :: "'l auth_lib \<Rightarrow> permission_input \<Rightarrow> permission db_result" where
  "to_permission L p =
     (let a = lb_lower L (pi_action p); sc = lb_lower L (pi_scope p)
      in case map_of action_names a of
           None \<Rightarrow> Inl (BadRequest (''Invalid action: '' @ a))
         | Some act \<Rightarrow>
             (case map_of scope_names sc of
                None \<Rightarrow> Inl (BadRequest (''Invalid scope: '' @ sc))
              | Some scp \<Rightarrow>
                  if scp = PDatabase \<and> pi_database p = None
                  then Inl (BadRequest ''database field is required for database-scoped permissions'')
                  else Inr \<lparr> pm_action = act, pm_scope = scp, pm_database = pi_database p \<rparr>))"

fun to_permissions :: "'l auth_lib \<Rightarrow> permission_input list \<Rightarrow> permission list db_result" where
  "to_permissions L [] = Inr []"
| "to_permissions L (p # ps) = res_bind (to_permission L p) (\<lambda>x. res_bind (to_permissions L ps) (\<lambda>xs. Inr (x # xs)))"

section \<open>Steps shared by the handlers\<close>

definition ADMIN_COLL :: string where "ADMIN_COLL = ''_admins''"

definition slift :: "'a db_result \<Rightarrow> ('db, 'v, 's, 'f, 'l, 'a) sact" where
  "slift r st = (outcome_of r, st)"

definition on_error :: "(db_error \<Rightarrow> db_error) \<Rightarrow> ('db, 'v, 's, 'f, 'l, 'a) sact \<Rightarrow> ('db, 'v, 's, 'f, 'l, 'a) sact" where
  "on_error f m st = (case m st of (Err e, st) \<Rightarrow> (Err (f e), st) | r \<Rightarrow> r)"

definition admin_check :: "('db, 'v, 's, 'f) env \<Rightarrow> tick \<Rightarrow> claims \<Rightarrow> ('db, 'v, 's, 'f, 'l, unit) sact" where
  "admin_check E tk cl = check_permission E (tk_now tk) (tk_later tk) cl PAdmin None"

definition system_db :: "('db, 'v, 's, 'f) env \<Rightarrow> ('db, 'v, 's, 'f, 'l, nat) sact" where
  "system_db E = on_engine (get_database E ''_system'')"

definition open_coll :: "('db, 'v, 's, 'f) env \<Rightarrow> nat \<Rightarrow> string \<Rightarrow> ('db, 'v, 's, 'f, 'l, nat) sact" where
  "open_coll E db name = on_engine (db_get_collection E db name)"

definition scan_documents :: "('db, 'v, 's, 'f) env \<Rightarrow> nat \<Rightarrow> ('db, 'v, 's, 'f, 'l, document list) sact" where
  "scan_documents E h = on_engine (with_handle h (\<lambda>c. (Inr (coll_scan E None c), c)))"

definition insert_document :: "('db, 'v, 's, 'f) env \<Rightarrow> tick \<Rightarrow> nat \<Rightarrow> json \<Rightarrow> ('db, 'v, 's, 'f, 'l, document) sact" where
  "insert_document E tk h v = on_engine (with_handle h (coll_insert E (tk_fresh tk) v))"

definition delete_document :: "('db, 'v, 's, 'f) env \<Rightarrow> nat \<Rightarrow> string \<Rightarrow> ('db, 'v, 's, 'f, 'l, unit) sact" where
  "delete_document E h key = on_engine (with_handle h (coll_delete E key))"

definition exists_document :: "('db, 'v, 's, 'f) env \<Rightarrow> nat \<Rightarrow> string \<Rightarrow> ('db, 'v, 's, 'f, 'l, bool) sact" where
  "exists_document E h key =
     ebind (stry (get_document E h key)) (\<lambda>r. sret (case r of Inr _ \<Rightarrow> True | Inl _ \<Rightarrow> False))"

definition record_write ::
    "'l auth_lib \<Rightarrow> tick \<Rightarrow> string \<Rightarrow> sync_operation \<Rightarrow> string \<Rightarrow> bytes option \<Rightarrow> ('db, 'v, 's, 'f, 'l, unit) sact" where
  "record_write L tk coll op key data st =
     (Done (), st\<lparr> st_log := map_option (\<lambda>l. snd (log_append (lb_log L) (lb_codec L)
        \<lparr> le_sequence = 0, le_node_id = [], le_database = ''_system'', le_collection = coll, le_operation = op,
          le_key = key, le_data = data, le_timestamp = tk_millis tk, le_origin_sequence = None \<rparr> l)) (st_log st) \<rparr>)"

definition json_bytes :: "('db, 'v, 's, 'f) env \<Rightarrow> json \<Rightarrow> bytes option" where
  "json_bytes E v = Some (value_to_string (env_json E) v)"

text \<open>The data of a document with its key put back.\<close>

definition keyed_data :: "document \<Rightarrow> json" where
  "keyed_data d =
     (case doc_data d of JObject m \<Rightarrow> JObject (smap_put ''_key'' (JString (doc_key_of d)) m) | v \<Rightarrow> v)"

section \<open>Roles\<close>

definition list_roles :: "('db, 'v, 's, 'f) env \<Rightarrow> tick \<Rightarrow> claims \<Rightarrow> ('db, 'v, 's, 'f, 'l, role list) sact" where
  "list_roles E tk cl =
     ebind (admin_check E tk cl) (\<lambda>_.
     ebind (system_db E) (\<lambda>db.
     ebind (open_coll E db ROLES_COLLECTION) (\<lambda>h.
     ebind (scan_documents E h) (\<lambda>docs.
     sret (List.map_filter (role_of_json \<circ> keyed_data) docs)))))"

definition reserved_name :: "string \<Rightarrow> bool" where
  "reserved_name name \<longleftrightarrow> starts_with name ''admin'' \<or> starts_with name ''editor'' \<or> starts_with name ''viewer''"

definition create_role ::
    "'l auth_lib \<Rightarrow> ('db, 'v, 's, 'f) env \<Rightarrow> tick \<Rightarrow> claims \<Rightarrow> string \<Rightarrow> string option \<Rightarrow> permission_input list \<Rightarrow>
     ('db, 'v, 's, 'f, 'l, role) sact" where
  "create_role L E tk cl name desc perms =
     ebind (admin_check E tk cl) (\<lambda>_.
     if reserved_name name
     then sfail (BadRequest ''Cannot create role with reserved name prefix (admin, editor, viewer)'')
     else
     ebind (slift (to_permissions L perms)) (\<lambda>ps.
     let r = \<lparr> ro_name = name, ro_description = desc, ro_permissions = ps, ro_is_builtin = False,
               ro_created_at = tk_rfc3339 tk, ro_updated_at = Some (tk_rfc3339 tk) \<rparr>
     in ebind (system_db E) (\<lambda>db.
        ebind (open_coll E db ROLES_COLLECTION) (\<lambda>h.
        ebind (exists_document E h name) (\<lambda>found.
        if found then sfail (ConflictError (''Role '' @ quoted name @ '' already exists''))
        else
        ebind (insert_document E tk h (role_to_json r)) (\<lambda>_.
        ebind (record_write L tk ROLES_COLLECTION SyncInsert name (json_bytes E (role_to_json r))) (\<lambda>_.
        ebind (on_cache pc_clear) (\<lambda>_.
        sret r))))))))"

definition stored_role :: "'l auth_lib \<Rightarrow> ('db, 'v, 's, 'f) env \<Rightarrow> nat \<Rightarrow> string \<Rightarrow> ('db, 'v, 's, 'f, 'l, role) sact" where
  "stored_role L E h name =
     ebind (on_error (\<lambda>_. RoleNotFound name) (get_document E h name)) (\<lambda>doc.
       case role_of_json (doc_data doc) of
         Some r \<Rightarrow> sret r
       | None \<Rightarrow> sfail (JsonError (lb_de_error L (doc_data doc))))"

definition get_role :: "'l auth_lib \<Rightarrow> ('db, 'v, 's, 'f) env \<Rightarrow> tick \<Rightarrow> claims \<Rightarrow> string \<Rightarrow> ('db, 'v, 's, 'f, 'l, role) sact" where
  "get_role L E tk cl name =
     ebind (admin_check E tk cl) (\<lambda>_.
     ebind (system_db E) (\<lambda>db.
     ebind (open_coll E db ROLES_COLLECTION) (\<lambda>h.
     stored_role L E h name)))"

definition update_role ::
    "'l auth_lib \<Rightarrow> ('db, 'v, 's, 'f) env \<Rightarrow> tick \<Rightarrow> claims \<Rightarrow> string \<Rightarrow> string option \<Rightarrow> permission_input list option \<Rightarrow>
     ('db, 'v, 's, 'f, 'l, role) sact" where
  "update_role L E tk cl name desc perms =
     ebind (admin_check E tk cl) (\<lambda>_.
     ebind (system_db E) (\<lambda>db.
     ebind (open_coll E db ROLES_COLLECTION) (\<lambda>h.
     ebind (stored_role L E h name) (\<lambda>r.
     if ro_is_builtin r then sfail (Forbidden ''Cannot modify builtin roles'')
     else
     let r1 = (case desc of Some d \<Rightarrow> r\<lparr> ro_description := Some d \<rparr> | None \<Rightarrow> r)
     in ebind (case perms of Some ps \<Rightarrow> slift (to_permissions L ps) | None \<Rightarrow> sret (ro_permissions r1)) (\<lambda>ps.
        let r2 = r1\<lparr> ro_permissions := ps, ro_updated_at := Some (tk_rfc3339 tk) \<rparr>
        in ebind (on_engine (with_handle h (coll_update E (tk_fresh tk) name (role_to_json r2)))) (\<lambda>_.
           ebind (record_write L tk ROLES_COLLECTION SyncUpdate name (json_bytes E (role_to_json r2))) (\<lambda>_.
           ebind (on_cache (pc_invalidate_role name)) (\<lambda>_.
           sret r2))))))))"

definition delete_role :: "'l auth_lib \<Rightarrow> ('db, 'v, 's, 'f) env \<Rightarrow> tick \<Rightarrow> claims \<Rightarrow> string \<Rightarrow> ('db, 'v, 's, 'f, 'l, unit) sact" where
  "delete_role L E tk cl name =
     ebind (admin_check E tk cl) (\<lambda>_.
     ebind (system_db E) (\<lambda>db.
     ebind (open_coll E db ROLES_COLLECTION) (\<lambda>h.
     ebind (stored_role L E h name) (\<lambda>r.
     if ro_is_builtin r then sfail (Forbidden ''Cannot delete builtin roles'')
     else
     ebind (delete_document E h name) (\<lambda>_.
     ebind (record_write L tk ROLES_COLLECTION SyncDelete name None) (\<lambda>_.
     on_cache (pc_invalidate_role name)))))))"

section \<open>Assignments\<close>

definition stored_assignments :: "document list \<Rightarrow> user_role list" where
  "stored_assignments docs = List.map_filter (user_role_of_json \<circ> keyed_data) docs"

definition get_user_roles :: "('db, 'v, 's, 'f) env \<Rightarrow> tick \<Rightarrow> claims \<Rightarrow> string \<Rightarrow> ('db, 'v, 's, 'f, 'l, user_role list) sact" where
  "get_user_roles E tk cl username =
     ebind (admin_check E tk cl) (\<lambda>_.
     ebind (system_db E) (\<lambda>db.
     ebind (open_coll E db USER_ROLES_COLLECTION) (\<lambda>h.
     ebind (scan_documents E h) (\<lambda>docs.
     sret (filter (\<lambda>ur. ur_username ur = username) (stored_assignments docs))))))"

definition same_assignment :: "string \<Rightarrow> string \<Rightarrow> string option \<Rightarrow> user_role \<Rightarrow> bool" where
  "same_assignment username r database ur \<longleftrightarrow>
     ur_username ur = username \<and> ur_role ur = r \<and> ur_database ur = database"

definition user_not_found :: "string \<Rightarrow> db_error" where
  "user_not_found username = DocumentNotFound (''User '' @ quoted username @ '' not found'')"

definition assign_role ::
    "'l auth_lib \<Rightarrow> ('db, 'v, 's, 'f) env \<Rightarrow> tick \<Rightarrow> claims \<Rightarrow> string \<Rightarrow> string \<Rightarrow> string option \<Rightarrow>
     ('db, 'v, 's, 'f, 'l, user_role) sact" where
  "assign_role L E tk cl username r database =
     ebind (admin_check E tk cl) (\<lambda>_.
     ebind (system_db E) (\<lambda>db.
     ebind (open_coll E db ROLES_COLLECTION) (\<lambda>roles.
     ebind (exists_document E roles r) (\<lambda>role_found.
     if \<not> role_found then sfail (RoleNotFound r)
     else
     ebind (open_coll E db ADMIN_COLL) (\<lambda>admins.
     ebind (exists_document E admins username) (\<lambda>user_found.
     if \<not> user_found then sfail (user_not_found username)
     else
     ebind (open_coll E db USER_ROLES_COLLECTION) (\<lambda>h.
     ebind (scan_documents E h) (\<lambda>docs.
     if filter (same_assignment username r database) (stored_assignments docs) \<noteq> []
     then sfail (ConflictError (''Role '' @ quoted r @ '' already assigned to user '' @ quoted username))
     else
     let ur = \<lparr> ur_id = tk_uuid tk, ur_username = username, ur_role = r, ur_database = database,
                ur_assigned_at = tk_rfc3339 tk, ur_assigned_by = cl_sub cl \<rparr>
     in ebind (insert_document E tk h (user_role_to_json ur)) (\<lambda>_.
        ebind (record_write L tk USER_ROLES_COLLECTION SyncInsert (tk_uuid tk) (json_bytes E (user_role_to_json ur))) (\<lambda>_.
        ebind (on_cache (pc_invalidate username)) (\<lambda>_.
        sret ur)))))))))))"

definition revoke_role ::
    "'l auth_lib \<Rightarrow> ('db, 'v, 's, 'f) env \<Rightarrow> tick \<Rightarrow> claims \<Rightarrow> string \<Rightarrow> string \<Rightarrow> string option \<Rightarrow>
     ('db, 'v, 's, 'f, 'l, unit) sact" where
  "revoke_role L E tk cl username r database =
     ebind (admin_check E tk cl) (\<lambda>_.
     ebind (system_db E) (\<lambda>db.
     ebind (open_coll E db USER_ROLES_COLLECTION) (\<lambda>h.
     ebind (scan_documents E h) (\<lambda>docs.
     case find (same_assignment username r database) (stored_assignments docs) of
       None \<Rightarrow> sfail (DocumentNotFound (''Role '' @ quoted r @ '' not assigned to user '' @ quoted username))
     | Some ur \<Rightarrow>
         ebind (delete_document E h (ur_id ur)) (\<lambda>_.
         ebind (record_write L tk USER_ROLES_COLLECTION SyncDelete (ur_id ur) None) (\<lambda>_.
         on_cache (pc_invalidate username)))))))"

section \<open>Users\<close>

definition user_to_json :: "string \<Rightarrow> string \<Rightarrow> json" where
  "user_to_json username password_hash =
     json_of_fields [(''_key'', Some (JString username)), (''password_hash'', Some (JString password_hash))]"

definition initial_assignment ::
    "'l auth_lib \<Rightarrow> ('db, 'v, 's, 'f) env \<Rightarrow> tick \<Rightarrow> claims \<Rightarrow> nat \<Rightarrow> string \<Rightarrow> string \<Rightarrow>
     ('db, 'v, 's, 'f, 'l, string list) sact" where
  "initial_assignment L E tk cl db username r =
     ebind (open_coll E db ROLES_COLLECTION) (\<lambda>roles.
     ebind (exists_document E roles r) (\<lambda>found.
     if \<not> found then sret []
     else
     let ur = \<lparr> ur_id = tk_uuid tk, ur_username = username, ur_role = r, ur_database = None,
                ur_assigned_at = tk_rfc3339 tk, ur_assigned_by = cl_sub cl \<rparr>
     in ebind (open_coll E db USER_ROLES_COLLECTION) (\<lambda>h.
        ebind (insert_document E tk h (user_role_to_json ur)) (\<lambda>_.
        ebind (record_write L tk USER_ROLES_COLLECTION SyncInsert (tk_uuid tk) (json_bytes E (user_role_to_json ur))) (\<lambda>_.
        sret [r])))))"

text \<open>\<open>tk\<close> and \<open>tk'\<close> are the draws for the user and for the initial role.\<close>

definition create_user ::
    "'l auth_lib \<Rightarrow> ('db, 'v, 's, 'f) env \<Rightarrow> tick \<Rightarrow> tick \<Rightarrow> claims \<Rightarrow> string \<Rightarrow> string \<Rightarrow> string option \<Rightarrow>
     ('db, 'v, 's, 'f, 'l, string list) sact" where
  "create_user L E tk tk' cl username password initial_role =
     ebind (admin_check E tk cl) (\<lambda>_.
     if username = [] \<or> length username > 64 then sfail (BadRequest ''Username must be 1-64 characters'')
     else if length password < 6 then sfail (BadRequest ''Password must be at least 6 characters'')
     else
     ebind (system_db E) (\<lambda>db.
     ebind (open_coll E db ADMIN_COLL) (\<lambda>h.
     ebind (exists_document E h username) (\<lambda>found.
     if found then sfail (ConflictError (''User '' @ quoted username @ '' already exists''))
     else
     ebind (slift (lb_hash_password L password)) (\<lambda>hash.
     ebind (insert_document E tk h (user_to_json username hash)) (\<lambda>_.
     ebind (record_write L tk ADMIN_COLL SyncInsert username (json_bytes E (user_to_json username hash))) (\<lambda>_.
     case initial_role of Some r \<Rightarrow> initial_assignment L E tk' cl db username r | None \<Rightarrow> sret [])))))))"

fun delete_assignments ::
    "'l auth_lib \<Rightarrow> ('db, 'v, 's, 'f) env \<Rightarrow> (nat \<Rightarrow> tick) \<Rightarrow> nat \<Rightarrow> nat \<Rightarrow> user_role list \<Rightarrow> ('db, 'v, 's, 'f, 'l, unit) sact" where
  "delete_assignments L E tks i h [] = sret ()"
| "delete_assignments L E tks i h (ur # urs) =
     ebind (delete_document E h (ur_id ur)) (\<lambda>_.
     ebind (record_write L (tks i) USER_ROLES_COLLECTION SyncDelete (ur_id ur) None) (\<lambda>_.
     delete_assignments L E tks (Suc i) h urs))"

text \<open>The draws are those of the user and of each assignment. Unlike the other handlers, this one reads the assignments from the data without the key.\<close>

definition delete_user :: "'l auth_lib \<Rightarrow> ('db, 'v, 's, 'f) env \<Rightarrow> (nat \<Rightarrow> tick) \<Rightarrow> claims \<Rightarrow> string \<Rightarrow> ('db, 'v, 's, 'f, 'l, unit) sact" where
  "delete_user L E tks cl username =
     ebind (admin_check E (tks 0) cl) (\<lambda>_.
     if cl_sub cl = username then sfail (BadRequest ''Cannot delete your own account'')
     else if username = ''admin'' then sfail (BadRequest ''Cannot delete the default admin user'')
     else
     ebind (system_db E) (\<lambda>db.
     ebind (open_coll E db ADMIN_COLL) (\<lambda>h.
     ebind (exists_document E h username) (\<lambda>found.
     if \<not> found then sfail (user_not_found username)
     else
     ebind (delete_document E h username) (\<lambda>_.
     ebind (record_write L (tks 0) ADMIN_COLL SyncDelete username None) (\<lambda>_.
     ebind (open_coll E db USER_ROLES_COLLECTION) (\<lambda>urs.
     ebind (scan_documents E urs) (\<lambda>docs.
     ebind (delete_assignments L E tks 1 urs
       (filter (\<lambda>ur. ur_username ur = username) (List.map_filter (user_role_of_json \<circ> doc_data) docs))) (\<lambda>_.
     on_cache (pc_invalidate username))))))))))"

end
