(* ===== verification/ApiKeys.thy ===== *)
theory ApiKeys
  imports RoleHandlers "HOL-Library.Word"
begin

unbundle bit_operations_syntax

text \<open>
  API keys and the roles of users in \<^verbatim>\<open>src/server/auth.rs\<close>: the comparison of hashes, the search for a key, and
  the claims it gives. The hash function and the parser of timestamps are parameters.
\<close>

section \<open>Keys\<close>

record api_key =
  ak_id :: string
  ak_name :: string
  ak_key_hash :: string
  ak_created_at :: string
  ak_roles :: "string list"
  ak_scoped_databases :: "string list option"
  ak_expires_at :: "string option"

record key_lib =
  kl_sha256_hex :: "string \<Rightarrow> string"
  kl_parse_rfc3339 :: "string \<Rightarrow> int option"

definition str_list :: "json \<Rightarrow> string list option" where
  "str_list v = Option.bind (as_array v) (collect_some as_str)"

definition api_key_of_json :: "json \<Rightarrow> api_key option" where
  "api_key_of_json v =
     Option.bind (as_struct [''_key'', ''name'', ''key_hash'', ''created_at'', ''roles'', ''scoped_databases'', ''expires_at''] v) (\<lambda>m.
     Option.bind (req_str m ''_key'') (\<lambda>id.
     Option.bind (req_str m ''name'') (\<lambda>name.
     Option.bind (req_str m ''key_hash'') (\<lambda>hash.
     Option.bind (req_str m ''created_at'') (\<lambda>created.
     Option.bind (case map_of m ''roles'' of None \<Rightarrow> Some [] | Some w \<Rightarrow> str_list w) (\<lambda>rs.
     Option.bind (case map_of m ''scoped_databases'' of
                    None \<Rightarrow> Some None | Some JNull \<Rightarrow> Some None | Some w \<Rightarrow> map_option Some (str_list w)) (\<lambda>dbs.
     Option.bind (opt_str m ''expires_at'') (\<lambda>ex.
     Some \<lparr> ak_id = id, ak_name = name, ak_key_hash = hash, ak_created_at = created, ak_roles = rs,
            ak_scoped_databases = dbs, ak_expires_at = ex \<rparr>))))))))"

definition byte :: "char \<Rightarrow> 8 word" where
  "byte c = of_char c"

definition constant_time_eq :: "string \<Rightarrow> string \<Rightarrow> bool" where
  "constant_time_eq a b =
     (length a = length b \<and> foldl (\<lambda>acc (x, y). acc OR (byte x XOR byte y)) 0 (zip a b) = 0)"

definition claims_of_key :: "api_key \<Rightarrow> claims" where
  "claims_of_key k =
     \<lparr> cl_sub = ''api-key:'' @ ak_name k, cl_roles = (if ak_roles k = [] then None else Some (ak_roles k)),
       cl_scoped_databases = ak_scoped_databases k \<rparr>"

definition key_expired :: "key_lib \<Rightarrow> int \<Rightarrow> api_key \<Rightarrow> bool" where
  "key_expired K now k =
     (case Option.bind (ak_expires_at k) (kl_parse_rfc3339 K) of Some t \<Rightarrow> t < now | None \<Rightarrow> False)"

fun find_api_key :: "key_lib \<Rightarrow> int \<Rightarrow> string \<Rightarrow> json list \<Rightarrow> claims db_result" where
  "find_api_key K now incoming_hash [] = Inl (BadRequest ''Invalid API key'')"
| "find_api_key K now incoming_hash (v # vs) =
     (case api_key_of_json v of
        None \<Rightarrow> Inl (InternalError ''Corrupted API key data'')
      | Some k \<Rightarrow>
          if constant_time_eq incoming_hash (ak_key_hash k)
          then if key_expired K now k then Inl (BadRequest ''API key has expired'') else Inr (claims_of_key k)
          else find_api_key K now incoming_hash vs)"

definition validate_api_key ::
    "key_lib \<Rightarrow> ('db, 'v, 's, 'f) env \<Rightarrow> int \<Rightarrow> string \<Rightarrow> ('db, 'v, 's, 'f, 'l, claims) sact" where
  "validate_api_key K E now raw_key =
     ebind (system_db E) (\<lambda>db.
     ebind (open_coll E db ''_api_keys'') (\<lambda>h.
     ebind (scan_documents E h) (\<lambda>docs.
     slift (find_api_key K now (kl_sha256_hex K raw_key) (map (to_value (env_doc E)) docs)))))"

section \<open>The comparison of hashes\<close>

lemma byte_inject: "byte a = byte b \<longleftrightarrow> a = b"
proof
  assume "byte a = byte b"
  then have "unat (of_char a :: 8 word) = unat (of_char b :: 8 word)" by (simp add: byte_def)
  moreover have "unat (of_char c :: 8 word) = of_char c" for c
  proof -
    have "(of_char c :: 8 word) = of_nat (of_char c)" by (simp add: of_char_def)
    moreover have "of_char c < (256 :: nat)" by simp
    ultimately show ?thesis by (simp add: unsigned_of_nat take_bit_nat_eq_self)
  qed
  ultimately show "a = b" by simp
qed simp

lemma xor_zero_iff: "(x :: 8 word) XOR y = 0 \<longleftrightarrow> x = y"
proof
  assume "x XOR y = 0"
  then have "(x XOR y) XOR y = y" by simp
  then show "x = y" by (simp add: xor.assoc)
qed simp

lemma fold_diff:
  "foldl (\<lambda>acc (x, y). acc OR (byte x XOR byte y)) acc xs = 0 \<longleftrightarrow> acc = 0 \<and> (\<forall>(x, y) \<in> set xs. x = y)"
proof (induction xs arbitrary: acc)
  case (Cons p xs)
  obtain x y where p: "p = (x, y)" by (cases p)
  have "acc OR (byte x XOR byte y) = 0 \<longleftrightarrow> acc = 0 \<and> x = y"
    by (simp add: or_eq_0_iff xor_zero_iff byte_inject)
  then show ?case using Cons.IH by (auto simp: p)
qed simp

lemma constant_time_eq_iff: "constant_time_eq a b \<longleftrightarrow> a = b"
proof -
  have "length a = length b \<Longrightarrow> (\<forall>(x, y) \<in> set (zip a b). x = y) \<longleftrightarrow> a = b"
    by (induction a b rule: list_induct2) auto
  then show ?thesis by (auto simp: constant_time_eq_def fold_diff)
qed

end
