(* ===== verification/AuthorizationCorrect.thy ===== *)
theory AuthorizationCorrect
  imports ApiKeys SyncStateCorrect EngineTx
begin

text \<open>
  What the permission check grants, that the role handlers change nothing for a caller without the global
  permission \<open>Admin\<close>, and two defects: a role that was stored cannot be read back, and a key without roles
  passes every check.
\<close>

section \<open>Actions are ordered\<close>

instantiation permission_action :: linorder
begin

definition less_eq_permission_action :: "permission_action \<Rightarrow> permission_action \<Rightarrow> bool" where
  "less_eq_permission_action a b = implies b a"

definition less_permission_action :: "permission_action \<Rightarrow> permission_action \<Rightarrow> bool" where
  "less_permission_action a b = (implies b a \<and> \<not> implies a b)"

instance
proof
  fix a b c :: permission_action
  show "a < b \<longleftrightarrow> a \<le> b \<and> \<not> b \<le> a" by (simp add: less_eq_permission_action_def less_permission_action_def)
  show "a \<le> a" by (cases a) (simp_all add: less_eq_permission_action_def)
  show "a \<le> b \<Longrightarrow> b \<le> c \<Longrightarrow> a \<le> c" by (cases a; cases b; cases c) (simp_all add: less_eq_permission_action_def)
  show "a \<le> b \<Longrightarrow> b \<le> a \<Longrightarrow> a = b" by (cases a; cases b) (simp_all add: less_eq_permission_action_def)
  show "a \<le> b \<or> b \<le> a" by (cases a; cases b) (simp_all add: less_eq_permission_action_def)
qed

end

lemma PAdmin_greatest [simp]: "a \<le> PAdmin" "PAdmin \<le> a \<longleftrightarrow> a = PAdmin"
  by (cases a; simp add: less_eq_permission_action_def)+

section \<open>What a check grants\<close>

lemma has_permission_iff:
  "has_permission P \<lparr> pm_action = a, pm_scope = (if db \<noteq> None then PDatabase else PGlobal), pm_database = db \<rparr>
   \<longleftrightarrow> (\<exists>p \<in> P. a \<le> pm_action p \<and> (pm_scope p = PGlobal \<or> db \<noteq> None \<and> pm_database p = db))"
proof -
  have "satisfies p \<lparr> pm_action = a, pm_scope = (if db \<noteq> None then PDatabase else PGlobal), pm_database = db \<rparr>
    \<longleftrightarrow> a \<le> pm_action p \<and> (pm_scope p = PGlobal \<or> db \<noteq> None \<and> pm_database p = db)" for p
    by (cases p; cases "pm_scope p"; cases "pm_action p"; cases a)
      (auto simp: satisfies_def less_eq_permission_action_def)
  then show ?thesis by (simp add: has_permission_def)
qed

lemma check_unscoped_iff:
  "check_unscoped P a db = Inr () \<longleftrightarrow> (\<exists>p \<in> P. a \<le> pm_action p \<and> (pm_scope p = PGlobal \<or> db \<noteq> None \<and> pm_database p = db))"
  unfolding check_unscoped_def Let_def has_permission_iff by (auto simp: global_admin_def global_permission_def)

lemma check_admin_iff:
  "check_permission_raw P PAdmin None scoped = Inr () \<longleftrightarrow> (\<exists>p \<in> P. pm_action p = PAdmin \<and> pm_scope p = PGlobal)"
  by (auto simp: check_permission_raw_def check_unscoped_iff split: option.splits)


lemma check_permission_raw_error: "check_permission_raw P a db scoped = Inl e \<Longrightarrow> \<exists>m. e = Forbidden m"
  by (auto simp: check_permission_raw_def check_unscoped_def Let_def split: option.splits if_splits)

section \<open>Steps that change nothing stored\<close>

text \<open>The contents of the column families and the replication log.\<close>

definition stored :: "('db, 'v, 's, 'f, 'l) app_state \<Rightarrow> (string \<rightharpoonup> 'db) \<times> 'l sync_log option" where
  "stored st = (map_of (cfs (st_engine st)), st_log st)"

definition keeps :: "('db, 'v, 's, 'f, 'l, 'a) sact \<Rightarrow> bool" where
  "keeps m \<longleftrightarrow> (\<forall>st. stored (snd (m st)) = stored st)"

named_theorems quiet

lemma keeps_ebind [quiet]: "keeps m \<Longrightarrow> (\<And>a. keeps (f a)) \<Longrightarrow> keeps (ebind m f)"
  unfolding keeps_def
proof
  fix st
  assume m: "\<forall>st. stored (snd (m st)) = stored st" and f: "\<And>a. \<forall>st. stored (snd (f a st)) = stored st"
  obtain r st' where r: "m st = (r, st')" by (cases "m st")
  with m have "stored st' = stored st" by (metis snd_conv)
  then show "stored (snd (ebind m f st)) = stored st" using f by (cases r) (simp_all add: ebind_def r)
qed

lemma keeps_simple [quiet]: "keeps (sret a)" "keeps (on_cache f)" "keeps (\<lambda>st. (r, st))"
  by (simp_all add: keeps_def sret_def on_cache_def stored_def)

lemma keeps_stry [quiet]: "keeps m \<Longrightarrow> keeps (stry m)"
  unfolding keeps_def stry_def by (auto split: prod.splits outcome.splits) (metis snd_conv)+

lemma keeps_on_engine:
  assumes "\<And>e. map_of (cfs (snd (m e))) = map_of (cfs e)"
  shows "keeps (on_engine m)"
  unfolding keeps_def
proof
  fix st
  show "stored (snd (on_engine m st)) = stored st"
    using assms [of "st_engine st"] by (cases "m (st_engine st)") (simp add: on_engine_def stored_def)
qed

lemma map_of_cf_put_same: "map_of cs n = Some d \<Longrightarrow> map_of (cf_put n d cs) = map_of cs"
  by (simp add: map_of_cf_put fun_eq_iff)

lemma keeps_get_document [quiet]: "keeps (get_document E h key)"
  unfolding get_document_def
  by (rule keeps_on_engine) (simp add: with_handle_def map_of_cf_put_same split: option.splits)

lemma keeps_system_collection [quiet]: "keeps (system_collection E name)"
  unfolding system_collection_def
  by (rule keeps_on_engine)
    (auto simp: ebind_def get_database_def db_get_collection_def Let_def split: option.splits if_splits)

lemma keeps_load_role [quiet]:
  fixes E :: "('db, 'v, 's, 'f) env"
  shows "keeps (load_role E h name :: ('db, 'v, 's, 'f, 'l, role option) sact)"
proof -
  have "keeps (ebind (stry (get_document E h name)) (\<lambda>res. case res of Inl _ \<Rightarrow> sret None
      | Inr doc \<Rightarrow> (case role_of_json (doc_data doc) of None \<Rightarrow> sret None
          | Some r \<Rightarrow> ebind (on_cache (pc_set_role r)) (\<lambda>_. sret (Some r)))) :: ('db, 'v, 's, 'f, 'l, role option) sact)"
    by (intro quiet; auto split: sum.splits option.splits intro!: quiet)
  then show ?thesis by (simp add: keeps_def load_role_def split: option.splits)
qed

lemma keeps_load_roles [quiet]: "keeps (load_roles E h names)"
  by (induction names) (auto intro!: quiet)

lemma keeps_effective [quiet]:
  fixes E :: "('db, 'v, 's, 'f) env"
  shows "keeps (get_effective_permissions E now later cl :: ('db, 'v, 's, 'f, 'l, permission set) sact)"
proof -
  have "keeps (ebind (system_collection E ROLES_COLLECTION) (\<lambda>h. ebind (load_roles E h rs) (\<lambda>roles.
      ebind (on_cache (f roles)) (\<lambda>_. sret (resolve_permissions roles)))) :: ('db, 'v, 's, 'f, 'l, permission set) sact)" for rs f
    by (intro quiet)
  then show ?thesis by (simp add: keeps_def get_effective_permissions_def Let_def split: option.splits)
qed

section \<open>The handlers\<close>

lemmas handler_defs = list_roles_def create_role_def get_role_def update_role_def delete_role_def get_user_roles_def
  assign_role_def revoke_role_def create_user_def delete_user_def

lemma admin_check_eq:
  assumes "get_effective_permissions E (tk_now tk) (tk_later tk) cl st = (Done P, st1)"
  shows "admin_check E tk cl st = (outcome_of (check_permission_raw P PAdmin None (cl_scoped_databases cl)), st1)"
  using assms by (simp add: admin_check_def check_permission_def ebind_def)

text \<open>
  C17: A caller whose effective permissions do not hold the global permission \<open>Admin\<close> changes nothing with the
  handlers of roles, assignments and users: each of them answers that access is denied, and the column
  families and the replication log are as before.
\<close>

theorem handlers_need_admin:
  assumes "get_effective_permissions E (tk_now tk) (tk_later tk) cl st = (Done P, st1)"
    and "\<forall>p \<in> P. \<not> (pm_action p = PAdmin \<and> pm_scope p = PGlobal)" and "tks 0 = tk"
  shows "\<exists>m. create_role L E tk cl name desc perms st = (Err (Forbidden m), st1)
    \<and> update_role L E tk cl name desc ps st = (Err (Forbidden m), st1)
    \<and> delete_role L E tk cl name st = (Err (Forbidden m), st1)
    \<and> assign_role L E tk cl user name db st = (Err (Forbidden m), st1)
    \<and> revoke_role L E tk cl user name db st = (Err (Forbidden m), st1)
    \<and> create_user L E tk tk' cl user password initial st = (Err (Forbidden m), st1)
    \<and> delete_user L E tks cl user st = (Err (Forbidden m), st1)
    \<and> stored st1 = stored st"
proof -
  have "check_permission_raw P PAdmin None (cl_scoped_databases cl) \<noteq> Inr ()"
    using assms(2) by (auto simp: check_admin_iff)
  then obtain e where e: "check_permission_raw P PAdmin None (cl_scoped_databases cl) = Inl e"
    by (cases "check_permission_raw P PAdmin None (cl_scoped_databases cl)") auto
  with check_permission_raw_error obtain m where "e = Forbidden m" by blast
  with e have chk: "admin_check E tk cl st = (Err (Forbidden m), st1)" by (simp add: admin_check_eq [OF assms(1)])
  have "stored st1 = stored st" using keeps_effective [of E "tk_now tk" "tk_later tk" cl] assms(1)
    unfolding keeps_def by (metis snd_conv)
  then show ?thesis using chk assms(3) by (auto simp: handler_defs ebind_def)
qed

section \<open>Stored roles\<close>

lemma permission_json: "permission_of_json (permission_to_json p) = Some p"
proof -
  obtain a sc db where p: "p = \<lparr> pm_action = a, pm_scope = sc, pm_database = db \<rparr>" by (cases p) auto
  show ?thesis
    by (cases a; cases sc; cases db)
      (simp_all add: p permission_of_json_def permission_to_json_def json_of_fields_def as_struct_def variant_def
        action_names_def scope_names_def name_in_def opt_str_def)
qed

lemma permissions_json: "collect_some permission_of_json (map permission_to_json ps) = Some ps"
  by (induction ps) (simp_all add: permission_json)

lemma role_json_key:
  obtains obj where "role_to_json r = JObject ((''_key'', JString (ro_name r)) # obj)"
    "smap_ok ((''_key'', JString (ro_name r)) # obj)" "strip_system (JObject obj) = JObject obj"
    "role_of_json (JObject obj) = None" "role_of_json (JObject (smap_put ''_key'' (JString (ro_name r)) obj)) = Some r"
proof -
  let ?obj = "[(''created_at'', JString (ro_created_at r))] @
    (case ro_description r of Some d \<Rightarrow> [(''description'', JString d)] | None \<Rightarrow> []) @
    [(''is_builtin'', JBool (ro_is_builtin r)), (''permissions'', JArray (map permission_to_json (ro_permissions r)))] @
    (case ro_updated_at r of Some d \<Rightarrow> [(''updated_at'', JString d)] | None \<Rightarrow> [])"
  show ?thesis
  proof (rule that [of ?obj])
    show "role_to_json r = JObject ((''_key'', JString (ro_name r)) # ?obj)"
      by (cases "ro_description r"; cases "ro_updated_at r") (simp_all add: role_to_json_def json_of_fields_def)
    show "smap_ok ((''_key'', JString (ro_name r)) # ?obj)"
      by (cases "ro_description r"; cases "ro_updated_at r") (simp_all add: smap_ok_def)
    show "strip_system (JObject ?obj) = JObject ?obj"
      by (cases "ro_description r"; cases "ro_updated_at r") (simp_all add: strip_simps)
    show "role_of_json (JObject ?obj) = None"
      by (cases "ro_description r"; cases "ro_updated_at r") (simp_all add: role_of_json_def as_struct_def req_str_def)
    show "role_of_json (JObject (smap_put ''_key'' (JString (ro_name r)) ?obj)) = Some r"
      by (cases "ro_description r"; cases "ro_updated_at r")
        (simp_all add: role_of_json_def as_struct_def req_str_def opt_str_def permissions_json)
  qed
qed

text \<open>
  C37: A role that \<open>create_role\<close> has stored cannot be read back by the handlers of a single role. Its document has
  its key beside the data; \<open>stored_role\<close>, which \<open>get_role\<close>, \<open>update_role\<close> and \<open>delete_role\<close> use, parses the data
  alone and fails, and the permissions of the role are not resolved for its users. With the key put back,
  as \<open>list_roles\<close> does, the document is the role.
\<close>

theorem stored_role_unreadable:
  assumes "rocks_ok (env_db E) V" "doc_codec_ok (env_doc E)" "coll_inv E V c" "insertable E V c fr (role_to_json r)"
    "coll_insert E fr (role_to_json r) c = (Inr doc, c')"
    "map_of (cfs (st_engine st)) (coll_name (handles (st_engine st) ! h)) = Some (coll_db c')"
    "pc_get_role (ro_name r) (st_cache st) = None"
  shows "coll_get E (ro_name r) c' = Inr doc \<and> role_of_json (keyed_data doc) = Some r
    \<and> fst (stored_role L E h (ro_name r) st) = Err (JsonError (lb_de_error L (doc_data doc)))
    \<and> fst (load_role E h (ro_name r) st) = Done None"
proof -
  obtain obj where o: "role_to_json r = JObject ((''_key'', JString (ro_name r)) # obj)"
    "smap_ok ((''_key'', JString (ro_name r)) # obj)" "strip_system (JObject obj) = JObject obj"
    "role_of_json (JObject obj) = None" "role_of_json (JObject (smap_put ''_key'' (JString (ro_name r)) obj)) = Some r"
    by (rule role_json_key)
  note d = stored_doc [OF assms(1-3) assms(4,5) [unfolded o(1)] o(2)]
  have data: "doc_data doc = JObject obj" using d(2) o(3) by simp
  have "coll_get E (ro_name r) ((handles (st_engine st) ! h)\<lparr> coll_db := coll_db c' \<rparr>) = Inr doc"
    using d(1) by (simp add: coll_get_def)
  then have g: "\<exists>st'. get_document E h (ro_name r) st = (Done doc, st')"
    using assms(6) by (simp add: get_document_def on_engine_def with_handle_def)
  then show ?thesis using d(1,3) o(4,5) assms(7) data
    by (auto simp: keyed_data_def stored_role_def load_role_def ebind_def on_error_def stry_def sfail_def sret_def)
qed


section \<open>Examples\<close>

definition demo_lib :: "(bytes \<times> bytes) list auth_lib" where
  "demo_lib = \<lparr> lb_log = mem_rocks, lb_codec = \<lparr> entry_to_vec = demo_ser \<circ> le_key, entry_from_slice = (\<lambda>_. None) \<rparr>, lb_lower = id,
     lb_hash_password = Inr, lb_de_error = (\<lambda>_. ''missing field'') \<rparr>"

definition demo_tick :: tick where
  "demo_tick = \<lparr> tk_now = 5, tk_later = 6, tk_rfc3339 = ''2026-01-01'', tk_millis = 7, tk_uuid = ''id1'', tk_fresh = demo_fresh 1 \<rparr>"

text \<open>A server that has cached the permissions of a viewer.\<close>

definition demo_server :: "(string \<times> (bytes \<times> bytes) list) list \<Rightarrow>
    ((bytes \<times> bytes) list, unit, unit, string set, (bytes \<times> bytes) list) app_state" where
  "demo_server fams = \<lparr> st_engine = (demo_engine [])\<lparr> cfs := fams \<rparr>,
     st_cache = pc_set 4 ''bob'' \<lparr> cp_permissions = {global_permission PRead}, cp_roles = [''viewer''],
       cp_scoped_databases = None, cp_cached_at = 4 \<rparr> pc_new, st_log = None \<rparr>"

lemma demo_server_cache:
  "pc_get 5 ''bob'' (st_cache (demo_server fams)) = Some \<lparr> cp_permissions = {global_permission PRead}, cp_roles = [''viewer''],
     cp_scoped_databases = None, cp_cached_at = 4 \<rparr>"
  "pc_get 5 ''api-key:ci'' (st_cache (demo_server fams)) = None" "pc_get_role n (st_cache (demo_server fams)) = None"
  by (simp_all add: demo_server_def pc_set_def pc_new_def pc_get_def pc_get_role_def cp_is_expired_def)

definition demo_claims :: "string \<Rightarrow> string list \<Rightarrow> string list option \<Rightarrow> claims" where
  "demo_claims sub rs dbs = \<lparr> cl_sub = sub, cl_roles = Some rs, cl_scoped_databases = dbs \<rparr>"

theorem handlers_need_admin_witness:
  "\<exists>m. delete_role demo_lib demo_env demo_tick (demo_claims ''bob'' [''viewer''] None) ''ops'' (demo_server [])
     = (Err (Forbidden m), demo_server [])"
proof -
  have "get_effective_permissions demo_env (tk_now demo_tick) (tk_later demo_tick) (demo_claims ''bob'' [''viewer''] None) (demo_server [])
      = (Done {global_permission PRead}, demo_server [])"
    by (simp add: get_effective_permissions_def demo_tick_def demo_claims_def demo_server_cache)
  from handlers_need_admin [OF this, of "\<lambda>_. demo_tick" demo_lib "''ops''" None "[]" None "''eve''" None demo_tick "''secret''" None]
  show ?thesis by (auto simp: global_permission_def)
qed

definition demo_role :: role where
  "demo_role = \<lparr> ro_name = ''ops'', ro_description = None, ro_permissions = [database_permission PWrite ''db1''],
     ro_is_builtin = False, ro_created_at = ''2026-01-01'', ro_updated_at = None \<rparr>"

theorem stored_role_unreadable_witness:
  "\<exists>doc c'. coll_insert demo_env (demo_fresh 1) (role_to_json demo_role) demo_coll = (Inr doc, c') \<and>
     role_of_json (keyed_data doc) = Some demo_role \<and>
     fst (stored_role demo_lib demo_env 0 ''ops'' (demo_server [(''db:people'', coll_db c')])) = Err (JsonError ''missing field'')"
proof -
  obtain obj where o: "role_to_json demo_role = JObject ((''_key'', JString (ro_name demo_role)) # obj)" by (rule role_json_key)
  have k: "key_ok (ro_name demo_role)" by (simp add: key_ok_def demo_role_def)
  from demo_stored [OF o k] obtain doc c' where
    i: "insertable demo_env mem_view demo_coll (demo_fresh 1) (role_to_json demo_role)" and
    c: "coll_insert demo_env (demo_fresh 1) (role_to_json demo_role) demo_coll = (Inr doc, c')" .
  have f: "map_of (cfs (st_engine (demo_server [(''db:people'', coll_db c')])))
      (coll_name (handles (st_engine (demo_server [(''db:people'', coll_db c')])) ! 0)) = Some (coll_db c')"
    by (simp add: demo_server_def demo_engine_def coll_new_def)
  have "fst (stored_role demo_lib demo_env 0 (ro_name demo_role) (demo_server [(''db:people'', coll_db c')]))
      = Err (JsonError (lb_de_error demo_lib (doc_data doc)))" "role_of_json (keyed_data doc) = Some demo_role"
    using stored_role_unreadable [OF _ _ demo_coll_inv(1) i c f demo_server_cache(3), of demo_lib]
    by (simp_all add: mem_rocks_ok demo_doc_codec_ok)
  then show ?thesis using c by (auto simp: demo_role_def demo_lib_def)
qed




end
