(* ===== verification/Delta.thy ===== *)
theory Delta
  imports Json
begin

text \<open>
  Delta synchronisation, \<^verbatim>\<open>src/sync/delta.rs\<close>: the JSON patches of RFC 6902. \<open>compute_diff\<close> turns two
  values into a list of operations, \<open>apply_patch\<close> runs such a list on a document, and a
  \<open>JsonPointer\<close> is the list of tokens of a path.

  The source changes the document in place. An operation of a pointer either fails and leaves the
  document alone, \<open>Inl\<close>, or returns its result with the changed document, \<open>Inr\<close>.
  \<^verbatim>\<open>apply_operation\<close> and \<^verbatim>\<open>apply_patch\<close> can fail half way: they return the error, if any, and the
  document as it then is. \<^verbatim>\<open>usize\<close> is 64 bits wide.
\<close>

section \<open>Equality of values\<close>

text \<open>
  \<^verbatim>\<open>PartialEq\<close> of \<^verbatim>\<open>serde_json::Value\<close>: numbers of different kinds differ, and two doubles are equal as
  IEEE doubles, so the two zeros are. A \<^verbatim>\<open>serde_json::Number\<close> is never a NaN.
\<close>

definition f64_eq :: "u64 \<Rightarrow> u64 \<Rightarrow> bool" where
  "f64_eq a b \<longleftrightarrow> a = b \<or> (a \<in> {0, 2 ^ 63} \<and> b \<in> {0, 2 ^ 63})"

fun number_eq :: "number \<Rightarrow> number \<Rightarrow> bool" where
  "number_eq (PosInt a) (PosInt b) \<longleftrightarrow> a = b"
| "number_eq (NegInt a) (NegInt b) \<longleftrightarrow> a = b"
| "number_eq (Float a) (Float b) \<longleftrightarrow> f64_eq a b"
| "number_eq _ _ \<longleftrightarrow> False"

fun json_eq :: "json \<Rightarrow> json \<Rightarrow> bool" where
  "json_eq JNull JNull \<longleftrightarrow> True"
| "json_eq (JBool a) (JBool b) \<longleftrightarrow> a = b"
| "json_eq (JNumber a) (JNumber b) \<longleftrightarrow> number_eq a b"
| "json_eq (JString a) (JString b) \<longleftrightarrow> a = b"
| "json_eq (JArray a) (JArray b) \<longleftrightarrow> list_all2 json_eq a b"
| "json_eq (JObject a) (JObject b) \<longleftrightarrow>
     list_all2 (\<lambda>p q. fst p = fst q \<and> json_eq (snd p) (snd q)) a b"
| "json_eq _ _ \<longleftrightarrow> False"

fun is_object :: "json \<Rightarrow> bool" where
  "is_object (JObject _) = True"
| "is_object _ = False"

fun is_array :: "json \<Rightarrow> bool" where
  "is_array (JArray _) = True"
| "is_array _ = False"

section \<open>Patches\<close>

datatype patch_operation =
    PAdd string json
  | PRemove string
  | PReplace string json
  | PCopy string string
  | PMove string string
  | PTest string json

type_synonym json_patch = "patch_operation list"

datatype patch_error = PathNotFound | InvalidPath | TestFailed | CannotReplaceRoot

text \<open>\<^verbatim>\<open>str::replace\<close> of one character, and of a pattern of two characters.\<close>

definition replace_char :: "char \<Rightarrow> string \<Rightarrow> string \<Rightarrow> string" where
  "replace_char c t s = concat (map (\<lambda>x. if x = c then t else [x]) s)"

fun replace_pair :: "char \<Rightarrow> char \<Rightarrow> char \<Rightarrow> string \<Rightarrow> string" where
  "replace_pair a b c (x # y # s) =
     (if x = a \<and> y = b then c # replace_pair a b c s else x # replace_pair a b c (y # s))"
| "replace_pair a b c s = s"

definition escape_json_pointer :: "string \<Rightarrow> string" where
  "escape_json_pointer s =
     replace_char (CHR ''/'') ''~1'' (replace_char (CHR ''~'') ''~0'' s)"

definition unescape_json_pointer :: "string \<Rightarrow> string" where
  "unescape_json_pointer s =
     replace_pair (CHR ''~'') (CHR ''0'') (CHR ''~'')
       (replace_pair (CHR ''~'') (CHR ''1'') (CHR ''/'') s)"

section \<open>Computing a patch\<close>

definition child_path :: "string \<Rightarrow> string \<Rightarrow> string" where
  "child_path path key =
     (if path = [] then ''/'' @ escape_json_pointer key
      else path @ ''/'' @ escape_json_pointer key)"

definition index_path :: "string \<Rightarrow> nat \<Rightarrow> string" where
  "index_path path i = path @ ''/'' @ show_nat i"

text \<open>More than half of the longer array, and more than five elements, came or went.\<close>

definition drastic_change :: "json list \<Rightarrow> json list \<Rightarrow> bool" where
  "drastic_change old_arr new_arr =
     (let max_len = max (length old_arr) (length new_arr);
          size_diff = \<bar>int (length old_arr) - int (length new_arr)\<bar>;
          threshold = int (max (max_len div 2) 5)
      in threshold < size_diff)"

lemma size_field: "p \<in> set m \<Longrightarrow> size (snd p) < size (JObject m)"
  by (induction m) (auto simp: less_Suc_eq)

lemma size_element: "i < length a \<Longrightarrow> size (a ! i) < size (JArray a)"
  using size_list_estimation' [OF nth_mem, of i a "size (a ! i)" size] by simp

function compute_diff_recursive :: "json \<Rightarrow> json \<Rightarrow> string \<Rightarrow> json_patch" where
  "compute_diff_recursive old new path =
     (case (old, new) of
        (JObject old_map, JObject new_map) \<Rightarrow>
          map (\<lambda>p. PRemove (child_path path (fst p)))
            (filter (\<lambda>p. map_of new_map (fst p) = None) old_map)
          @ concat (map (\<lambda>p.
              let full_path = child_path path (fst p); new_val = snd p
              in case map_of old_map (fst p) of
                   Some old_val \<Rightarrow>
                     if json_eq old_val new_val then []
                     else if is_object old_val \<and> is_object new_val \<or> is_array old_val \<and> is_array new_val
                     then compute_diff_recursive old_val new_val full_path
                     else [PReplace full_path new_val]
                 | None \<Rightarrow> [PAdd full_path new_val]) new_map)
      | (JArray old_arr, JArray new_arr) \<Rightarrow>
          if json_eq old new then []
          else if drastic_change old_arr new_arr then [PReplace path new]
          else
            let max_len = max (length old_arr) (length new_arr) in
            concat (map (\<lambda>i.
              if i < length old_arr \<and> i < length new_arr then
                if json_eq (old_arr ! i) (new_arr ! i) then []
                else compute_diff_recursive (old_arr ! i) (new_arr ! i) (index_path path i)
              else if i < length new_arr then [PAdd (path @ ''/-'') (new_arr ! i)]
              else []) [0..<max_len])
            @ map (\<lambda>i. PRemove (index_path path i))
                (rev (filter (\<lambda>i. i < length old_arr \<and> \<not> i < length new_arr) [0..<max_len]))
      | _ \<Rightarrow> if json_eq old new then [] else [PReplace path new])"
  by pat_completeness auto
termination
  by (relation "measure (\<lambda>(old, new, path). size new)") (auto dest: size_field size_element)

declare compute_diff_recursive.simps [simp del]

definition compute_diff :: "json \<Rightarrow> json \<Rightarrow> json_patch" where
  "compute_diff old new = compute_diff_recursive old new []"

section \<open>JSON pointers\<close>

definition pointer_new :: "string \<Rightarrow> string list" where
  "pointer_new path =
     (if path = [] \<or> path = ''/'' then []
      else map unescape_json_pointer (drop 1 (split_on (CHR ''/'') path)))"

definition parse_usize :: "string \<Rightarrow> nat option" where
  "parse_usize s = map_option unat (parse_u64 s)"

fun pointer_get :: "string list \<Rightarrow> json \<Rightarrow> patch_error + json" where
  "pointer_get [] doc = Inr doc"
| "pointer_get (t # ts) (JObject m) =
     (case map_of m t of None \<Rightarrow> Inl PathNotFound | Some v \<Rightarrow> pointer_get ts v)"
| "pointer_get (t # ts) (JArray a) =
     (if t = ''-'' then (if a = [] then Inl PathNotFound else pointer_get ts (last a))
      else (case parse_usize t of
              None \<Rightarrow> Inl PathNotFound
            | Some i \<Rightarrow> if i < length a then pointer_get ts (a ! i) else Inl PathNotFound))"
| "pointer_get (t # ts) _ = Inl InvalidPath"

text \<open>
  The three operations that change a document walk down the same way, by \<^verbatim>\<open>get_mut\<close>: the change of
  the child is the change of the document. They differ in what they do at the last token.
\<close>

type_synonym 'r edit = "json \<Rightarrow> patch_error + 'r \<times> json"

fun map_doc :: "(json \<Rightarrow> json) \<Rightarrow> patch_error + 'r \<times> json \<Rightarrow> patch_error + 'r \<times> json" where
  "map_doc f (Inl e) = Inl e"
| "map_doc f (Inr (r, d)) = Inr (r, f d)"

fun navigate :: "string \<Rightarrow> 'r edit \<Rightarrow> 'r edit" where
  "navigate t f (JObject m) =
     (case map_of m t of
        None \<Rightarrow> Inl PathNotFound
      | Some v \<Rightarrow> map_doc (\<lambda>v'. JObject (smap_put t v' m)) (f v))"
| "navigate t f (JArray a) =
     (case parse_usize t of
        None \<Rightarrow> Inl InvalidPath
      | Some i \<Rightarrow> if i < length a then map_doc (\<lambda>v'. JArray (a[i := v'])) (f (a ! i))
                  else Inl PathNotFound)"
| "navigate t f _ = Inl InvalidPath"

fun walk :: "(string \<Rightarrow> 'r edit) \<Rightarrow> string list \<Rightarrow> 'r edit" where
  "walk f [] doc = Inl CannotReplaceRoot"
| "walk f [t] doc = f t doc"
| "walk f (t # t' # ts) doc = navigate t (walk f (t' # ts)) doc"

fun add_last :: "json \<Rightarrow> string \<Rightarrow> unit edit" where
  "add_last value t (JObject m) = Inr ((), JObject (smap_put t value m))"
| "add_last value t (JArray a) =
     (if t = ''-'' then Inr ((), JArray (a @ [value]))
      else (case parse_usize t of
              None \<Rightarrow> Inl InvalidPath
            | Some i \<Rightarrow> if length a < i then Inl PathNotFound
                        else Inr ((), JArray (take i a @ value # drop i a))))"
| "add_last value t _ = Inl InvalidPath"

fun remove_last :: "string \<Rightarrow> json edit" where
  "remove_last t (JObject m) =
     (case map_of m t of None \<Rightarrow> Inl PathNotFound | Some v \<Rightarrow> Inr (v, JObject (smap_del t m)))"
| "remove_last t (JArray a) =
     (case parse_usize t of
        None \<Rightarrow> Inl InvalidPath
      | Some i \<Rightarrow> if length a \<le> i then Inl PathNotFound
                  else Inr (a ! i, JArray (take i a @ drop (Suc i) a)))"
| "remove_last t _ = Inl InvalidPath"

fun replace_last :: "json \<Rightarrow> string \<Rightarrow> unit edit" where
  "replace_last value t (JObject m) =
     (if map_of m t = None then Inl PathNotFound else Inr ((), JObject (smap_put t value m)))"
| "replace_last value t (JArray a) =
     (case parse_usize t of
        None \<Rightarrow> Inl InvalidPath
      | Some i \<Rightarrow> if length a \<le> i then Inl PathNotFound else Inr ((), JArray (a[i := value])))"
| "replace_last value t _ = Inl InvalidPath"

definition pointer_add :: "string list \<Rightarrow> json \<Rightarrow> unit edit" where
  "pointer_add ts value = walk (add_last value) ts"

definition pointer_remove :: "string list \<Rightarrow> json edit" where
  "pointer_remove ts = walk remove_last ts"

definition pointer_replace :: "string list \<Rightarrow> json \<Rightarrow> unit edit" where
  "pointer_replace ts value doc =
     (if ts = [] then Inr ((), value) else walk (replace_last value) ts doc)"

section \<open>Applying a patch\<close>

definition finish :: "json \<Rightarrow> patch_error + 'r \<times> json \<Rightarrow> patch_error option \<times> json" where
  "finish doc r = (case r of Inl e \<Rightarrow> (Some e, doc) | Inr (_, d) \<Rightarrow> (None, d))"

fun apply_operation :: "json \<Rightarrow> patch_operation \<Rightarrow> patch_error option \<times> json" where
  "apply_operation doc (PAdd path value) = finish doc (pointer_add (pointer_new path) value doc)"
| "apply_operation doc (PRemove path) = finish doc (pointer_remove (pointer_new path) doc)"
| "apply_operation doc (PReplace path value) =
     finish doc (pointer_replace (pointer_new path) value doc)"
| "apply_operation doc (PCopy from path) =
     (case pointer_get (pointer_new from) doc of
        Inl e \<Rightarrow> (Some e, doc)
      | Inr value \<Rightarrow> finish doc (pointer_add (pointer_new path) value doc))"
| "apply_operation doc (PMove from path) =
     (case pointer_remove (pointer_new from) doc of
        Inl e \<Rightarrow> (Some e, doc)
      | Inr (value, doc') \<Rightarrow> finish doc' (pointer_add (pointer_new path) value doc'))"
| "apply_operation doc (PTest path value) =
     (case pointer_get (pointer_new path) doc of
        Inl e \<Rightarrow> (Some e, doc)
      | Inr actual \<Rightarrow> (if json_eq actual value then None else Some TestFailed, doc))"

fun apply_patch :: "json \<Rightarrow> json_patch \<Rightarrow> patch_error option \<times> json" where
  "apply_patch doc [] = (None, doc)"
| "apply_patch doc (op # patch) =
     (case apply_operation doc op of
        (Some e, doc') \<Rightarrow> (Some e, doc')
      | (None, doc') \<Rightarrow> apply_patch doc' patch)"

section \<open>Utilities\<close>

definition is_empty_patch :: "json_patch \<Rightarrow> bool" where
  "is_empty_patch patch \<longleftrightarrow> patch = []"

text \<open>
  The texts \<^verbatim>\<open>serde_json::to_string\<close> makes of a patch and of a value are parameters. The product is a
  64-bit product.
\<close>

definition patch_size :: "(json_patch \<Rightarrow> string option) \<Rightarrow> json_patch \<Rightarrow> u64" where
  "patch_size patch_text patch =
     (case patch_text patch of None \<Rightarrow> 0 | Some s \<Rightarrow> of_nat (length s))"

definition should_use_patch ::
  "(json_patch \<Rightarrow> string option) \<Rightarrow> (json \<Rightarrow> string option) \<Rightarrow> json \<Rightarrow> json \<Rightarrow> json_patch \<Rightarrow> bool" where
  "should_use_patch patch_text value_text old new patch =
     (let full_bytes = (case value_text new of None \<Rightarrow> - 1 | Some s \<Rightarrow> of_nat (length s))
      in patch_size patch_text patch < full_bytes * 8 div 10)"

fun op_path :: "patch_operation \<Rightarrow> string" where
  "op_path (PAdd path _) = path"
| "op_path (PRemove path) = path"
| "op_path (PReplace path _) = path"
| "op_path (PCopy _ path) = path"
| "op_path (PMove _ path) = path"
| "op_path (PTest path _) = path"

definition create_partial_patch :: "json \<Rightarrow> json \<Rightarrow> string list \<Rightarrow> json_patch" where
  "create_partial_patch old new field_names =
     filter (\<lambda>op. \<exists>field \<in> set field_names.
         let field_path = ''/'' @ field
         in op_path op = field_path \<or> take (length field_path + 1) (op_path op) = field_path @ ''/'')
       (compute_diff old new)"

end
