(* ===== verification/DeltaCorrect.thy ===== *)
theory DeltaCorrect
  imports Delta
begin

text \<open>
  Correctness of the JSON patches of \<^verbatim>\<open>src/sync/delta.rs\<close>. A patch is read relative to a position: the
  patch computed for a child, with the path of the child in front of every path, edits that child
  and nothing else (\<open>edit_ops_field\<close>, \<open>edit_ops_element\<close>). With this the fields of an object and the
  elements of an array are handled one by one, and the patch between two values turns the first
  into the second. The one path that a pointer does not read as it was written is \<^verbatim>\<open>/\<close>, the path of
  the field with the empty name at the root.
\<close>

section \<open>Equality of values\<close>

lemma number_eq_refl [simp]: "number_eq n n"
  by (cases n) (simp_all add: f64_eq_def)

lemma json_eq_refl [simp]: "json_eq v v"
  by (induction v) (auto simp: list_all2_same)

text \<open>Objects with the same keys and equal fields are equal.\<close>

lemma json_eq_objectI:
  assumes m: "smap_ok m" and n: "smap_ok n"
    and dom: "\<And>k. map_of m k = None \<longleftrightarrow> map_of n k = None"
    and val: "\<And>k v w. map_of m k = Some v \<Longrightarrow> map_of n k = Some w \<Longrightarrow> json_eq v w"
  shows "json_eq (JObject m) (JObject n)"
proof -
  have "set (map fst m) = set (map fst n)"
    using dom by (auto simp: map_of_eq_None_iff)
  then have keys: "map fst m = map fst n"
    using m n by (metis smap_ok_def strict_sorted_equal)
  have len: "length m = length n"
    using keys by (metis length_map)
  have "fst (m ! i) = fst (n ! i) \<and> json_eq (snd (m ! i)) (snd (n ! i))" if "i < length m" for i
  proof -
    have k: "fst (m ! i) = fst (n ! i)"
      using that len keys by (metis nth_map)
    have "map_of m (fst (m ! i)) = Some (snd (m ! i))" "map_of n (fst (n ! i)) = Some (snd (n ! i))"
      using that len m n by (simp_all flip: smap_in_iff)
    then show ?thesis
      using val k by auto
  qed
  then show ?thesis
    using len by (simp add: list_all2_conv_all_nth)
qed

section \<open>Paths\<close>

lemma child_path_eq: "child_path path k = path @ ''/'' @ escape_json_pointer k"
  by (simp add: child_path_def)

lemma replace_pair_skip: "x \<noteq> a \<Longrightarrow> replace_pair a b c (x # s) = x # replace_pair a b c s"
  by (cases s) auto

lemma escape_json_pointer_eq:
  "escape_json_pointer s =
     concat (map (\<lambda>x. if x = CHR ''~'' then ''~0'' else if x = CHR ''/'' then ''~1'' else [x]) s)"
  by (induction s) (auto simp: escape_json_pointer_def replace_char_def)

lemma unescape_first:
  "replace_pair (CHR ''~'') (CHR ''1'') (CHR ''/'') (escape_json_pointer s) =
     concat (map (\<lambda>x. if x = CHR ''~'' then ''~0'' else [x]) s)"
  by (induction s) (auto simp: escape_json_pointer_eq replace_pair_skip)

lemma unescape_second:
  "replace_pair (CHR ''~'') (CHR ''0'') (CHR ''~'')
     (concat (map (\<lambda>x. if x = CHR ''~'' then ''~0'' else [x]) s)) = s"
  by (induction s) (auto simp: replace_pair_skip)

lemma unescape_escape [simp]: "unescape_json_pointer (escape_json_pointer s) = s"
  by (simp add: unescape_json_pointer_def unescape_first unescape_second)

lemma escape_no_slash [simp]: "CHR ''/'' \<notin> set (escape_json_pointer s)"
  by (auto simp: escape_json_pointer_eq)

lemma escape_plain: "CHR ''~'' \<notin> set s \<Longrightarrow> CHR ''/'' \<notin> set s \<Longrightarrow> escape_json_pointer s = s"
  by (induction s) (auto simp: escape_json_pointer_eq)

lemma escape_show_nat [simp]: "escape_json_pointer (show_nat i) = show_nat i"
  by (rule escape_plain) (rule show_nat_no_sep, simp)+

lemma escape_empty_iff [simp]: "escape_json_pointer s = [] \<longleftrightarrow> s = []"
  by (cases s) (simp_all add: escape_json_pointer_eq)

lemma split_on_sep: "c \<notin> set s \<Longrightarrow> split_on c (s @ c # t) = s # split_on c t"
  by (induction s) auto

text \<open>The tokens of a path, with no exception for the path \<^verbatim>\<open>/\<close>.\<close>

definition tokens_of :: "string \<Rightarrow> string list" where
  "tokens_of path = map unescape_json_pointer (drop 1 (split_on (CHR ''/'') path))"

definition rooted :: "string \<Rightarrow> bool" where
  "rooted path \<longleftrightarrow> path = [] \<or> hd path = CHR ''/''"

lemma rooted_simps [simp]: "rooted []" "rooted (c # s) \<longleftrightarrow> c = CHR ''/''"
  by (simp_all add: rooted_def)

lemma tokens_of_Nil [simp]: "tokens_of [] = []"
  by (simp add: tokens_of_def)

lemma tokens_of_eq_Nil: "rooted path \<Longrightarrow> tokens_of path = [] \<longleftrightarrow> path = []"
  by (cases path) (auto simp: tokens_of_def)

lemma pointer_new_eq: "path \<noteq> ''/'' \<Longrightarrow> pointer_new path = tokens_of path"
  by (simp add: pointer_new_def tokens_of_def)

lemma tokens_of_child:
  assumes "rooted path"
  shows "tokens_of (CHR ''/'' # escape_json_pointer k @ path) = k # tokens_of path"
proof (cases path)
  case Nil
  then show ?thesis by (simp add: tokens_of_def split_on_no_sep)
next
  case (Cons c r)
  then show ?thesis using assms by (simp add: tokens_of_def split_on_sep)
qed

lemma parse_usize_show_nat [simp]:
  assumes "i < 2 ^ 64"
  shows "parse_usize (show_nat i) = Some i"
proof -
  have "unat (of_nat i :: u64) = i"
    using assms by (simp add: unat_of_nat)
  then show ?thesis
    using parse_show_u64 [of "of_nat i"] by (simp add: parse_usize_def show_u64_def)
qed

section \<open>Patches relative to a position\<close>

definition edited :: "patch_error + 'r \<times> json \<Rightarrow> json option" where
  "edited r = (case r of Inl _ \<Rightarrow> None | Inr (_, d) \<Rightarrow> Some d)"

lemma edited_simps [simp]: "edited (Inl e) = None" "edited (Inr (x, d)) = Some d"
  by (simp_all add: edited_def)

lemma edited_map_doc [simp]: "edited (map_doc f r) = map_option f (edited r)"
  by (cases "(f, r)" rule: map_doc.cases) auto

text \<open>The operations that \<^verbatim>\<open>compute_diff\<close> makes, on the tokens of their paths.\<close>

fun edit_op :: "patch_operation \<Rightarrow> json \<Rightarrow> json option" where
  "edit_op (PAdd path v) d = edited (pointer_add (tokens_of path) v d)"
| "edit_op (PRemove path) d = edited (pointer_remove (tokens_of path) d)"
| "edit_op (PReplace path v) d = edited (pointer_replace (tokens_of path) v d)"
| "edit_op _ d = None"

primrec edit_ops :: "json_patch \<Rightarrow> json \<Rightarrow> json option" where
  "edit_ops [] d = Some d"
| "edit_ops (op # ops) d = Option.bind (edit_op op d) (edit_ops ops)"

lemma edit_ops_append: "edit_ops (ps @ qs) d = Option.bind (edit_ops ps d) (edit_ops qs)"
  by (induction ps arbitrary: d) (auto simp: bind_eq_Some_conv split: Option.bind_split)

lemma apply_operation_edit:
  "edit_op op d = Some d' \<Longrightarrow> op_path op \<noteq> ''/'' \<Longrightarrow> apply_operation d op = (None, d')"
  by (cases op) (auto simp: pointer_new_eq finish_def edited_def split: sum.splits)

lemma apply_patch_edit:
  "edit_ops ops d = Some d' \<Longrightarrow> \<forall>op \<in> set ops. op_path op \<noteq> ''/'' \<Longrightarrow>
   apply_patch d ops = (None, d')"
  by (induction ops arbitrary: d) (auto simp: bind_eq_Some_conv apply_operation_edit)

fun shift :: "string \<Rightarrow> patch_operation \<Rightarrow> patch_operation" where
  "shift p (PAdd path v) = PAdd (p @ path) v"
| "shift p (PRemove path) = PRemove (p @ path)"
| "shift p (PReplace path v) = PReplace (p @ path) v"
| "shift p (PCopy from path) = PCopy (p @ from) (p @ path)"
| "shift p (PMove from path) = PMove (p @ from) (p @ path)"
| "shift p (PTest path v) = PTest (p @ path) v"

fun relative_op :: "patch_operation \<Rightarrow> bool" where
  "relative_op (PAdd path _) \<longleftrightarrow> rooted path \<and> path \<noteq> []"
| "relative_op (PRemove path) \<longleftrightarrow> rooted path \<and> path \<noteq> []"
| "relative_op (PReplace path _) \<longleftrightarrow> rooted path"
| "relative_op _ \<longleftrightarrow> False"

lemma walk_Cons: "ts \<noteq> [] \<Longrightarrow> walk f (t # ts) = navigate t (walk f ts)"
  by (cases ts) auto

lemma edit_op_field:
  assumes "relative_op op" and "map_of m k = Some v"
  shows "edit_op (shift (CHR ''/'' # escape_json_pointer k) op) (JObject m) =
    map_option (\<lambda>v'. JObject (smap_put k v' m)) (edit_op op v)"
  using assms
  by (cases op) (auto simp: tokens_of_child tokens_of_eq_Nil walk_Cons pointer_add_def
      pointer_remove_def pointer_replace_def)

lemma edit_op_element:
  assumes "relative_op op" and "i < length a" and "length a < 2 ^ 64"
  shows "edit_op (shift (CHR ''/'' # show_nat i) op) (JArray a) =
    map_option (\<lambda>v'. JArray (a[i := v'])) (edit_op op (a ! i))"
  using assms tokens_of_child [of _ "show_nat i"]
  by (cases op) (auto simp: tokens_of_eq_Nil walk_Cons pointer_add_def
      pointer_remove_def pointer_replace_def)

lemma smap_put_same: "smap_ok m \<Longrightarrow> map_of m k = Some v \<Longrightarrow> smap_put k v m = m"
  by (rule smap_eqI) (auto simp: fun_upd_idem)

lemma smap_put_again: "smap_ok m \<Longrightarrow> smap_put k w (smap_put k v m) = smap_put k w m"
  by (rule smap_eqI) auto

lemma edit_ops_field:
  assumes "list_all relative_op ops" and "smap_ok m" and "map_of m k = Some v"
    and "edit_ops ops v = Some v'"
  shows "edit_ops (map (shift (CHR ''/'' # escape_json_pointer k)) ops) (JObject m) =
    Some (JObject (smap_put k v' m))"
  using assms
proof (induction ops arbitrary: m v)
  case Nil
  then show ?case by (simp add: smap_put_same)
next
  case (Cons op ops)
  then obtain w where "edit_op op v = Some w" "edit_ops ops w = Some v'"
    by (auto simp: bind_eq_Some_conv)
  then show ?case
    using Cons by (simp add: edit_op_field smap_put_again)
qed

lemma edit_ops_element:
  assumes "list_all relative_op ops" and "i < length a" and "length a < 2 ^ 64"
    and "edit_ops ops (a ! i) = Some v'"
  shows "edit_ops (map (shift (CHR ''/'' # show_nat i)) ops) (JArray a) = Some (JArray (a[i := v']))"
  using assms
proof (induction ops arbitrary: a)
  case (Cons op ops)
  then obtain w where "edit_op op (a ! i) = Some w" "edit_ops ops w = Some v'"
    by (auto simp: bind_eq_Some_conv)
  then show ?case
    using Cons by (simp add: edit_op_element)
qed auto

section \<open>The patch of a child\<close>

definition field_diff :: "json_obj \<Rightarrow> string \<Rightarrow> string \<times> json \<Rightarrow> json_patch" where
  "field_diff om path p =
     (case map_of om (fst p) of
        Some v \<Rightarrow>
          if json_eq v (snd p) then []
          else if is_object v \<and> is_object (snd p) \<or> is_array v \<and> is_array (snd p)
          then compute_diff_recursive v (snd p) (child_path path (fst p))
          else [PReplace (child_path path (fst p)) (snd p)]
      | None \<Rightarrow> [PAdd (child_path path (fst p)) (snd p)])"

definition element_diff :: "json list \<Rightarrow> json list \<Rightarrow> string \<Rightarrow> nat \<Rightarrow> json_patch" where
  "element_diff oa na path i =
     (if i < length oa \<and> i < length na then
        if json_eq (oa ! i) (na ! i) then []
        else compute_diff_recursive (oa ! i) (na ! i) (index_path path i)
      else if i < length na then [PAdd (path @ ''/-'') (na ! i)]
      else [])"

lemma diff_object:
  "compute_diff_recursive (JObject om) (JObject nm) path =
     map (\<lambda>p. PRemove (child_path path (fst p))) (filter (\<lambda>p. map_of nm (fst p) = None) om)
     @ concat (map (field_diff om path) nm)"
  by (subst compute_diff_recursive.simps) (simp add: field_diff_def [abs_def] Let_def)

lemma filter_tail: "filter (\<lambda>i. i < a \<and> \<not> i < b) [0..<max a b] = [b..<a :: nat]"
  by (rule sorted_distinct_set_unique) (auto simp: sorted_wrt_filter)

lemma diff_array:
  "compute_diff_recursive (JArray oa) (JArray na) path =
     (if json_eq (JArray oa) (JArray na) then []
      else if drastic_change oa na then [PReplace path (JArray na)]
      else concat (map (element_diff oa na path) [0..<max (length oa) (length na)])
        @ map (\<lambda>i. PRemove (index_path path i)) (rev [length na..<length oa]))"
  by (subst compute_diff_recursive.simps) (simp add: element_diff_def [abs_def] Let_def filter_tail)

lemma diff_other:
  "\<not> (is_object old \<and> is_object new) \<Longrightarrow> \<not> (is_array old \<and> is_array new) \<Longrightarrow>
   compute_diff_recursive old new path = (if json_eq old new then [] else [PReplace path new])"
  by (subst compute_diff_recursive.simps) (cases old; cases new; simp)

lemma diff_cases [case_names object array other]:
  assumes "\<And>om nm. old = JObject om \<Longrightarrow> new = JObject nm \<Longrightarrow> P"
    and "\<And>oa na. old = JArray oa \<Longrightarrow> new = JArray na \<Longrightarrow> P"
    and "\<not> (is_object old \<and> is_object new) \<Longrightarrow> \<not> (is_array old \<and> is_array new) \<Longrightarrow> P"
  shows P
  using assms by (cases old; cases new; simp)

lemma shift_append: "map (shift (p @ q)) ops = map (shift p) (map (shift q) ops)"
proof -
  have "shift (p @ q) op = shift p (shift q op)" for op
    by (cases op) auto
  then show ?thesis by simp
qed

text \<open>The path in front plays no part in what a patch is.\<close>

lemma diff_shift:
  "compute_diff_recursive old new path = map (shift path) (compute_diff_recursive old new [])"
proof (induction "size new" arbitrary: old new path rule: less_induct)
  case less
  show ?case
  proof (cases old new rule: diff_cases)
    case (object om nm)
    have "field_diff om path p = map (shift path) (field_diff om [] p)" if "p \<in> set nm" for p
      using size_field [OF that] object less [of "snd p" _ "child_path path (fst p)"]
        less [of "snd p" _ "child_path [] (fst p)"]
      by (auto simp: field_diff_def child_path_eq shift_append simp flip: map_map split: option.split)
    then show ?thesis
      using object by (simp add: diff_object map_concat child_path_eq comp_def cong: map_cong)
  next
    case (array oa na)
    have "element_diff oa na path i = map (shift path) (element_diff oa na [] i)" for i
      using array less [of "na ! i" "oa ! i" "index_path path i"] size_element [of i na]
        less [of "na ! i" "oa ! i" "index_path [] i"]
      by (auto simp: element_diff_def index_path_def shift_append simp flip: map_map)
    then have "element_diff oa na path = (\<lambda>i. map (shift path) (element_diff oa na [] i))"
      by (rule ext)
    then show ?thesis
      using array by (simp add: diff_array map_concat index_path_def comp_def)
  qed (simp add: diff_other)
qed

lemma relative_op_shift: "relative_op op \<Longrightarrow> relative_op (shift (CHR ''/'' # s) op)"
  by (cases op) auto

lemma relative_shift: "list_all relative_op ops \<Longrightarrow> list_all relative_op (map (shift (CHR ''/'' # s)) ops)"
  by (auto simp: list_all_iff relative_op_shift)

lemma diff_relative: "list_all relative_op (compute_diff_recursive old new [])"
proof (induction "size new" arbitrary: old new rule: less_induct)
  case less
  show ?case
  proof (cases old new rule: diff_cases)
    case (object om nm)
    have "list_all relative_op (field_diff om [] p)" if "p \<in> set nm" for p
      using size_field [OF that] object less [of "snd p"]
      by (auto simp: field_diff_def child_path_eq diff_shift [of _ _ "CHR ''/'' # _"]
          relative_shift split: option.split)
    then show ?thesis
      using object by (auto simp: diff_object child_path_eq list_all_iff)
  next
    case (array oa na)
    have "list_all relative_op (element_diff oa na [] i)" for i
      using array less [of "na ! i" "oa ! i"] size_element [of i na]
      by (auto simp: element_diff_def index_path_def diff_shift [of _ _ "CHR ''/'' # _"] relative_shift)
    then show ?thesis
      using array by (auto simp: diff_array index_path_def list_all_iff)
  qed (simp add: diff_other)
qed

section \<open>Objects\<close>

definition patches_to :: "json \<Rightarrow> json \<Rightarrow> bool" where
  "patches_to old new \<longleftrightarrow>
     (\<exists>v. edit_ops (compute_diff_recursive old new []) old = Some v \<and> json_eq v new)"

lemma tokens_of_field [simp]: "tokens_of (CHR ''/'' # escape_json_pointer k) = [k]"
  using tokens_of_child [of "[]" k] by simp

lemma tokens_of_index [simp]: "tokens_of (CHR ''/'' # show_nat i) = [show_nat i]"
  using tokens_of_field [of "show_nat i"] by simp

lemma edit_field:
  assumes "smap_ok m" and "map_of m (fst p) = map_of om (fst p)"
    and "\<And>v. map_of om (fst p) = Some v \<Longrightarrow> patches_to v (snd p)"
  shows "\<exists>v. edit_ops (field_diff om [] p) (JObject m) = Some (JObject (smap_put (fst p) v m)) \<and>
    json_eq v (snd p)"
proof (cases "map_of om (fst p)")
  case None
  then show ?thesis by (auto simp: field_diff_def child_path_eq pointer_add_def)
next
  case (Some w)
  with assms(3) obtain v where v: "edit_ops (compute_diff_recursive w (snd p) []) w = Some v"
    "json_eq v (snd p)" by (auto simp: patches_to_def)
  have "edit_ops (map (shift (CHR ''/'' # escape_json_pointer (fst p)))
      (compute_diff_recursive w (snd p) [])) (JObject m) = Some (JObject (smap_put (fst p) v m))"
    using assms Some v by (simp add: edit_ops_field diff_relative)
  then have nested: "edit_ops (compute_diff_recursive w (snd p) (child_path [] (fst p))) (JObject m) =
      Some (JObject (smap_put (fst p) v m))"
    by (simp add: child_path_eq diff_shift [of _ _ "CHR ''/'' # _"])
  show ?thesis
  proof (cases "json_eq w (snd p)")
    case True
    then show ?thesis
      using assms Some by (auto simp: field_diff_def smap_put_same intro!: exI [of _ w])
  next
    case False
    then show ?thesis
      using assms Some nested v
      by (cases "is_object w \<and> is_object (snd p) \<or> is_array w \<and> is_array (snd p)")
        (auto simp: field_diff_def child_path_eq pointer_replace_def)
  qed
qed

lemma edit_fields:
  assumes "\<And>p v. p \<in> set nm \<Longrightarrow> map_of om (fst p) = Some v \<Longrightarrow> patches_to v (snd p)"
    and "distinct (map fst nm)" and "smap_ok m"
    and "\<And>p. p \<in> set nm \<Longrightarrow> map_of m (fst p) = map_of om (fst p)"
  shows "\<exists>m'. edit_ops (concat (map (field_diff om []) nm)) (JObject m) = Some (JObject m') \<and>
    smap_ok m' \<and> (\<forall>k. k \<notin> fst ` set nm \<longrightarrow> map_of m' k = map_of m k) \<and>
    (\<forall>p \<in> set nm. \<exists>v. map_of m' (fst p) = Some v \<and> json_eq v (snd p))"
  using assms
proof (induction nm arbitrary: m)
  case (Cons p nm)
  obtain v where v: "edit_ops (field_diff om [] p) (JObject m) = Some (JObject (smap_put (fst p) v m))"
    "json_eq v (snd p)"
    using edit_field [of m p om] Cons.prems by auto
  have other: "fst q \<noteq> fst p" if "q \<in> set nm" for q
    using Cons.prems(2) that by (metis distinct.simps(2) image_eqI list.set_map list.simps(9))
  have "\<exists>m'. edit_ops (concat (map (field_diff om []) nm)) (JObject (smap_put (fst p) v m)) =
      Some (JObject m') \<and>
    smap_ok m' \<and> (\<forall>k. k \<notin> fst ` set nm \<longrightarrow> map_of m' k = map_of (smap_put (fst p) v m) k) \<and>
    (\<forall>q \<in> set nm. \<exists>v. map_of m' (fst q) = Some v \<and> json_eq v (snd q))"
    using Cons.prems other by (intro Cons.IH) auto
  then show ?case
    using v Cons.prems(2,3) by (auto simp: edit_ops_append)
qed auto

lemma edit_removed_fields:
  assumes "smap_ok m" and "distinct ks" and "\<And>k. k \<in> set ks \<Longrightarrow> map_of m k \<noteq> None"
  shows "\<exists>m'. edit_ops (map (\<lambda>k. PRemove (child_path [] k)) ks) (JObject m) = Some (JObject m') \<and>
    smap_ok m' \<and> (\<forall>k. map_of m' k = (if k \<in> set ks then None else map_of m k))"
  using assms
proof (induction ks arbitrary: m)
  case (Cons k ks)
  have "\<exists>m'. edit_ops (map (\<lambda>k. PRemove (child_path [] k)) ks) (JObject (smap_del k m)) =
      Some (JObject m') \<and>
    smap_ok m' \<and> (\<forall>j. map_of m' j = (if j \<in> set ks then None else map_of (smap_del k m) j))"
    using Cons.prems by (intro Cons.IH) auto
  then show ?case
    using Cons.prems(3) [of k] by (auto simp: child_path_eq pointer_remove_def)
qed auto

lemma patches_to_object:
  assumes om: "smap_ok om" and nm: "smap_ok nm"
    and IH: "\<And>p v. p \<in> set nm \<Longrightarrow> map_of om (fst p) = Some v \<Longrightarrow> patches_to v (snd p)"
  shows "patches_to (JObject om) (JObject nm)"
proof -
  define ks where "ks = filter (\<lambda>k. map_of nm k = None) (map fst om)"
  have "distinct ks" and ks: "\<And>k. k \<in> set ks \<longleftrightarrow> map_of om k \<noteq> None \<and> map_of nm k = None"
    using om by (auto simp: ks_def smap_ok_distinct map_of_eq_None_iff)
  then obtain m where m: "edit_ops (map (\<lambda>k. PRemove (child_path [] k)) ks) (JObject om) = Some (JObject m)"
    "smap_ok m" "\<And>k. map_of m k = (if k \<in> set ks then None else map_of om k)"
    using edit_removed_fields [OF om] by meson
  have same: "map_of m (fst p) = map_of om (fst p)" if "p \<in> set nm" for p
    using that nm m(3) ks smap_in_iff [of nm "fst p" "snd p"] by auto
  obtain m' where m': "edit_ops (concat (map (field_diff om []) nm)) (JObject m) = Some (JObject m')"
    "smap_ok m'" "\<And>k. k \<notin> fst ` set nm \<Longrightarrow> map_of m' k = map_of m k"
    "\<And>p. p \<in> set nm \<Longrightarrow> \<exists>v. map_of m' (fst p) = Some v \<and> json_eq v (snd p)"
    using edit_fields [of nm om m, OF IH smap_ok_distinct [OF nm] m(2) same] by blast
  have new: "\<exists>v. map_of m' k = Some v \<and> json_eq v w" if "map_of nm k = Some w" for k w
    using m'(4) [of "(k, w)"] that nm by (simp add: smap_in_iff)
  have old: "map_of m' k = None" if "map_of nm k = None" for k
    using m'(3) [of k] m(3) [of k] ks [of k] that by (auto simp: map_of_eq_None_iff)
  have "json_eq (JObject m') (JObject nm)"
  proof (rule json_eq_objectI [OF m'(2) nm])
    show "map_of m' k = None \<longleftrightarrow> map_of nm k = None" for k
      using new old by (metis not_None_eq)
    show "json_eq v w" if "map_of m' k = Some v" "map_of nm k = Some w" for k v w
      using new that by fastforce
  qed
  moreover have "map (\<lambda>p. PRemove (child_path [] (fst p))) (filter (\<lambda>p. map_of nm (fst p) = None) om) =
      map (\<lambda>k. PRemove (child_path [] k)) ks"
    by (simp add: ks_def filter_map comp_def)
  ultimately show ?thesis
    using m(1) m'(1) by (auto simp: patches_to_def diff_object edit_ops_append)
qed

section \<open>Arrays\<close>

lemma edit_element:
  assumes "i < length a" and "length a < 2 ^ 64" and "i < length oa" and "i < length na"
    and "a ! i = oa ! i" and "patches_to (oa ! i) (na ! i)"
  shows "\<exists>v. edit_ops (element_diff oa na [] i) (JArray a) = Some (JArray (a[i := v])) \<and>
    json_eq v (na ! i)"
proof -
  obtain v where v: "edit_ops (compute_diff_recursive (oa ! i) (na ! i) []) (oa ! i) = Some v"
    "json_eq v (na ! i)" using assms(6) by (auto simp: patches_to_def)
  then have "edit_ops (compute_diff_recursive (oa ! i) (na ! i) (index_path [] i)) (JArray a) =
      Some (JArray (a[i := v]))"
    using assms by (simp add: index_path_def diff_shift [of _ _ "CHR ''/'' # _"] edit_ops_element
        diff_relative)
  moreover have "a[i := oa ! i] = a"
    using assms(5) by (metis list_update_id)
  ultimately show ?thesis
    using assms(3,4) v by (intro exI [of _ "if json_eq (oa ! i) (na ! i) then oa ! i else v"])
      (simp add: element_diff_def)
qed

text \<open>The elements the two arrays share.\<close>

lemma edit_elements:
  assumes "n \<le> length oa" and "n \<le> length na" and "length oa < 2 ^ 64"
    and "\<And>i. i < n \<Longrightarrow> patches_to (oa ! i) (na ! i)"
  shows "\<exists>a. edit_ops (concat (map (element_diff oa na []) [0..<n])) (JArray oa) = Some (JArray a) \<and>
    length a = length oa \<and> (\<forall>i < n. json_eq (a ! i) (na ! i)) \<and>
    (\<forall>i < length oa. n \<le> i \<longrightarrow> a ! i = oa ! i)"
  using assms
proof (induction n)
  case (Suc n)
  then obtain a where a: "edit_ops (concat (map (element_diff oa na []) [0..<n])) (JArray oa) =
      Some (JArray a)" "length a = length oa" "\<forall>i < n. json_eq (a ! i) (na ! i)"
      "\<forall>i < length oa. n \<le> i \<longrightarrow> a ! i = oa ! i"
    by auto
  obtain v where v: "edit_ops (element_diff oa na [] n) (JArray a) = Some (JArray (a[n := v]))"
    "json_eq v (na ! n)"
    using edit_element [of n a oa na] a Suc.prems by auto
  show ?case
    using a v Suc.prems by (intro exI [of _ "a[n := v]"]) (auto simp: edit_ops_append less_Suc_eq)
qed auto

lemma edit_appended: "edit_ops (map (PAdd ''/-'') vs) (JArray a) = Some (JArray (a @ vs))"
proof (induction vs arbitrary: a)
  case (Cons v vs)
  have "tokens_of ''/-'' = [''-'']"
    by (simp add: tokens_of_def unescape_json_pointer_def)
  then show ?case
    using Cons by (simp add: pointer_add_def)
qed simp

lemma edit_removed_elements:
  "length a < 2 ^ 64 \<Longrightarrow>
   edit_ops (map (\<lambda>i. PRemove (index_path [] i)) (rev [n..<length a])) (JArray a) =
     Some (JArray (take n a))"
proof (induction a rule: rev_induct)
  case (snoc x a)
  then show ?case
    by (cases "n \<le> length a") (simp_all add: index_path_def pointer_remove_def)
qed simp

lemma appended_diff:
  "concat (map (element_diff oa na []) [min (length oa) (length na)..<max (length oa) (length na)]) =
     map (PAdd ''/-'') (drop (length oa) na)"
proof (cases "length oa < length na")
  case True
  have "drop (length oa) na = map ((!) na) [length oa..<length na]"
    by (rule nth_equalityI) auto
  moreover have "concat (map (element_diff oa na []) [length oa..<length na]) =
      concat (map (\<lambda>i. [PAdd ''/-'' (na ! i)]) [length oa..<length na])"
    by (intro arg_cong [where f = concat] map_cong refl) (simp add: element_diff_def)
  ultimately show ?thesis
    using True by (simp add: min_def max_def comp_def)
next
  case False
  then show ?thesis
    by (auto simp: min_def max_def element_diff_def)
qed

lemma patches_to_array:
  assumes "length oa < 2 ^ 64" and "length na < 2 ^ 64"
    and "\<And>i. i < length oa \<Longrightarrow> i < length na \<Longrightarrow> patches_to (oa ! i) (na ! i)"
  shows "patches_to (JArray oa) (JArray na)"
proof -
  define n where "n = min (length oa) (length na)"
  obtain a where a: "edit_ops (concat (map (element_diff oa na []) [0..<n])) (JArray oa) = Some (JArray a)"
    "length a = length oa" "\<forall>i < n. json_eq (a ! i) (na ! i)"
    using edit_elements [of n oa na] assms by (auto simp: n_def)
  define b where "b = take (length na) (a @ drop (length oa) na)"
  have "[0..<max (length oa) (length na)] = [0..<n] @ [n..<max (length oa) (length na)]"
    using upt_add_eq_append [of 0 n "max (length oa) (length na) - n"] by (simp add: n_def)
  then have "edit_ops (concat (map (element_diff oa na []) [0..<max (length oa) (length na)]))
      (JArray oa) = Some (JArray (a @ drop (length oa) na))"
    using a(1) appended_diff [of oa na] by (simp add: edit_ops_append edit_appended n_def)
  moreover have "edit_ops (map (\<lambda>i. PRemove (index_path [] i)) (rev [length na..<length oa]))
      (JArray (a @ drop (length oa) na)) = Some (JArray b)"
    using edit_removed_elements [of "a @ drop (length oa) na" "length na"] assms a(2)
    by (cases "length oa \<le> length na") (simp_all add: b_def)
  moreover have "json_eq (JArray b) (JArray na)"
    using a(2,3) by (auto simp: b_def n_def list_all2_conv_all_nth nth_append)
  ultimately show ?thesis
    by (auto simp: patches_to_def diff_array edit_ops_append pointer_replace_def simp del: json_eq.simps)
qed

section \<open>Patches between values\<close>

text \<open>Every index of an array is a \<^verbatim>\<open>usize\<close>.\<close>

fun json_fits :: "json \<Rightarrow> bool" where
  "json_fits (JArray a) \<longleftrightarrow> length a < 2 ^ 64 \<and> list_all json_fits a"
| "json_fits (JObject m) \<longleftrightarrow> list_all (\<lambda>p. json_fits (snd p)) m"
| "json_fits _ \<longleftrightarrow> True"

lemma map_of_all: "list_all (\<lambda>p. P (snd p)) m \<Longrightarrow> map_of m k = Some v \<Longrightarrow> P v"
  using map_of_SomeD [of m k v] by (force simp: list_all_iff)

lemma patches_to_wf:
  "json_wf old \<Longrightarrow> json_wf new \<Longrightarrow> json_fits old \<Longrightarrow> json_fits new \<Longrightarrow> patches_to old new"
proof (induction "size new" arbitrary: old new rule: less_induct)
  case less
  show ?case
  proof (cases old new rule: diff_cases)
    case (object om nm)
    have "patches_to v (snd p)" if "p \<in> set nm" and "map_of om (fst p) = Some v" for p v
      using that object less.prems size_field [of p nm]
        map_of_all [of json_wf om "fst p" v] map_of_all [of json_fits om "fst p" v]
      by (intro less.hyps) (auto simp: list_all_iff)
    then show ?thesis
      using object less.prems by (auto intro: patches_to_object)
  next
    case (array oa na)
    have "patches_to (oa ! i) (na ! i)" if "i < length oa" and "i < length na" for i
      using that array less.prems size_element [of i na]
      by (intro less.hyps) (auto simp: list_all_length)
    then show ?thesis
      using array less.prems by (auto intro: patches_to_array)
  next
    case other
    then show ?thesis
      by (auto simp: patches_to_def diff_other pointer_replace_def)
  qed
qed

lemma op_path_shift [simp]: "op_path (shift p op) = p @ op_path op"
  by (cases op) auto

lemma field_diff_path:
  assumes "op \<in> set (field_diff om [] p)" and "fst p \<noteq> []"
  shows "op_path op \<noteq> ''/''"
  using assms
  by (auto simp: field_diff_def child_path_eq diff_shift [of _ _ "CHR ''/'' # _"]
      split: option.splits if_splits)

lemma element_diff_path: "op \<in> set (element_diff oa na [] i) \<Longrightarrow> op_path op \<noteq> ''/''"
  by (auto simp: element_diff_def index_path_def diff_shift [of _ _ "CHR ''/'' # _"] split: if_splits)

text \<open>Without a field of the empty name at the root no operation has the path \<^verbatim>\<open>/\<close>.\<close>

lemma diff_path:
  assumes "json_get old [] = None" and "json_get new [] = None"
    and "op \<in> set (compute_diff_recursive old new [])"
  shows "op_path op \<noteq> ''/''"
proof (cases old new rule: diff_cases)
  case (object om nm)
  have key: "fst p \<noteq> []" if "p \<in> set om \<union> set nm" for p
    using that assms(1,2) object by (auto simp: map_of_eq_None_iff image_iff)
  consider p where "p \<in> set om" "op = PRemove (child_path [] (fst p))"
    | p where "p \<in> set nm" "op \<in> set (field_diff om [] p)"
    using assms(3) object by (auto simp: diff_object)
  then show ?thesis
    using key field_diff_path by cases (auto simp: child_path_eq)
next
  case (array oa na)
  then show ?thesis
    using assms(3) by (auto simp: diff_array index_path_def element_diff_path split: if_splits)
next
  case other
  then show ?thesis
    using assms(3) by (auto simp: diff_other split: if_splits)
qed

text \<open>
  C16: The patch that \<open>compute_diff\<close> makes from two values, applied to the first, succeeds and gives a value
  equal to the second. The values are any JSON values without a field of the empty name at the root.
\<close>

theorem apply_compute_diff:
  assumes "json_wf old" and "json_wf new" and "json_fits old" and "json_fits new"
    and "json_get old [] = None" and "json_get new [] = None"
  shows "\<exists>doc. apply_patch old (compute_diff old new) = (None, doc) \<and> json_eq doc new"
proof -
  obtain doc where "edit_ops (compute_diff old new) old = Some doc" "json_eq doc new"
    using patches_to_wf assms by (auto simp: patches_to_def compute_diff_def)
  moreover have "\<forall>op \<in> set (compute_diff old new). op_path op \<noteq> ''/''"
    using diff_path assms(5,6) by (auto simp: compute_diff_def)
  ultimately show ?thesis
    using apply_patch_edit by blast
qed

theorem apply_compute_diff_witness:
  "\<exists>doc. apply_patch
      (JObject [(''a'', JArray [JNull, JBool True]), (''b/c'', JString ''x'')])
      (compute_diff
        (JObject [(''a'', JArray [JNull, JBool True]), (''b/c'', JString ''x'')])
        (JObject [(''a'', JArray [JBool False]), (''d'', JNull)])) = (None, doc) \<and>
    json_eq doc (JObject [(''a'', JArray [JBool False]), (''d'', JNull)])"
  by (rule apply_compute_diff) (simp_all add: less_list_code)

section \<open>The field with the empty name\<close>

lemma field_diff_same: "smap_ok om \<Longrightarrow> p \<in> set om \<Longrightarrow> field_diff om [] p = []"
  by (cases p) (simp add: field_diff_def smap_in_iff)

lemma fields_diff_same: "smap_ok om \<Longrightarrow> set nm \<subseteq> set om \<Longrightarrow> concat (map (field_diff om []) nm) = []"
  by (auto simp: field_diff_same)

lemma no_removed_fields:
  "fst ` set om \<subseteq> fst ` set nm \<Longrightarrow> filter (\<lambda>p. map_of nm (fst p) = None) om = []"
  by (auto simp: filter_empty_conv map_of_eq_None_iff)

lemma empty_key_patches:
  fixes v w :: json and m :: json_obj
  assumes m: "smap_ok (([], v) # m)"
  shows "\<not> json_eq v w \<Longrightarrow> \<not> (is_object v \<and> is_object w) \<Longrightarrow> \<not> (is_array v \<and> is_array w) \<Longrightarrow>
      compute_diff (JObject (([], v) # m)) (JObject (([], w) # m)) = [PReplace ''/'' w]"
    and "compute_diff (JObject (([], v) # m)) (JObject m) = [PRemove ''/'']"
    and "compute_diff (JObject m) (JObject (([], v) # m)) = [PAdd ''/'' v]"
proof -
  have esc: "escape_json_pointer [] = []" and none: "map_of m [] = None"
    using smap_ok_notin [OF m] by simp_all
  have same: "concat (map (field_diff (([], v) # m) []) m) = []" "concat (map (field_diff m []) m) = []"
    using m by (intro fields_diff_same; auto)+
  show "\<not> json_eq v w \<Longrightarrow> \<not> (is_object v \<and> is_object w) \<Longrightarrow> \<not> (is_array v \<and> is_array w) \<Longrightarrow>
      compute_diff (JObject (([], v) # m)) (JObject (([], w) # m)) = [PReplace ''/'' w]"
    using same no_removed_fields [of "([], v) # m" "([], w) # m"]
    by (auto simp: compute_diff_def diff_object field_diff_def [of _ _ "([], w)"] child_path_eq esc)
  show "compute_diff (JObject (([], v) # m)) (JObject m) = [PRemove ''/'']"
    using same no_removed_fields [of m m]
    by (simp add: compute_diff_def diff_object child_path_eq esc none)
  show "compute_diff (JObject m) (JObject (([], v) # m)) = [PAdd ''/'' v]"
    using same no_removed_fields [of m "([], v) # m", OF image_mono]
    by (simp add: compute_diff_def diff_object field_diff_def [of _ _ "([], v)"] child_path_eq esc none
        subset_insertI del: map_of.simps concat_eq_Nil_conv)
qed

text \<open>
  C38: The path of the field with the empty name at the root is \<^verbatim>\<open>/\<close>, and a pointer takes this path for
  the whole document. So the patch that changes this field replaces the document by the new value of
  the field, and the patches that remove or add it fail.
\<close>

theorem empty_key_replaces_document:
  fixes v w :: json and m :: json_obj
  assumes "smap_ok (([], v) # m)" and "\<not> json_eq v w"
    and "\<not> (is_object v \<and> is_object w)" and "\<not> (is_array v \<and> is_array w)"
  shows "apply_patch (JObject (([], v) # m))
        (compute_diff (JObject (([], v) # m)) (JObject (([], w) # m))) = (None, w) \<and>
      apply_patch (JObject (([], v) # m)) (compute_diff (JObject (([], v) # m)) (JObject m)) =
        (Some CannotReplaceRoot, JObject (([], v) # m)) \<and>
      apply_patch (JObject m) (compute_diff (JObject m) (JObject (([], v) # m))) =
        (Some CannotReplaceRoot, JObject m)"
  using assms by (simp add: empty_key_patches pointer_new_def pointer_replace_def pointer_remove_def
      pointer_add_def finish_def)

theorem empty_key_replaces_document_witness:
  "apply_patch (JObject [([], JNull), (''a'', JString ''x'')])
      (compute_diff (JObject [([], JNull), (''a'', JString ''x'')])
        (JObject [([], JBool True), (''a'', JString ''x'')])) = (None, JBool True)"
  using empty_key_replaces_document [of JNull "[(''a'', JString ''x'')]" "JBool True"]
  by simp

end
