(* ===== verification/Spec2Isabelle.thy ===== *)
theory Spec2Isabelle
  imports RangeScan TtlCleanup EngineDb Crdt Hlc VersionVector Conflict LockManager SyncLogCorrect SyncWorkerCorrect
    ShardingCorrect SqlTranslatorCorrect AuthorizationCorrect DeltaCorrect
begin

text \<open>
  Verification of the storage, transaction and synchronisation core of SoliDB, a document database in
  Rust, with its SQL front end, its access control and the placement of shards. Paths below are relative to \<^verbatim>\<open>src/src/\<close>.

  \<^bold>\<open>Parts of the program.\<close> A storage engine keeps every collection in a column family of RocksDB.
  A collection stores documents and derived entries (regular, geo, full-text and TTL indexes) under keys
  with prefixes, changes them in one batch per operation, and counts its documents. Transactions collect
  operations, log their life cycle and apply the operations on commit. Nodes replicate: each keeps a
  numbered log of its changes, and a worker pulls and applies the logs of its peers; clocks, version
  vectors, replicated data types and resolvers deal with concurrent changes, and a change of a document can
  be sent as a patch. Shards of a collection are
  assigned to nodes by load. SQL statements are parsed and translated to the text of an SDBQL query. Roles
  and permissions of users and API keys are documents of the system database, with a cache in front.

  \<^bold>\<open>Theories.\<close>
  \<^item> \<open>Prelude\<close>, \<open>Utf8\<close>, \<open>Lattice\<close>: results, sorted association lists (\<open>smap\<close>), decimal numbers, byte strings,
    UTF-8, and the locale of merge operations that are least upper bounds.
  \<^item> \<open>Json\<close>, \<open>Codec\<close>, \<open>Text\<close>, \<open>Document\<close>: JSON values; the order-preserving key encoding
    (\<^verbatim>\<open>storage/codec.rs\<close>); tokens, n-grams and edit distance (\<^verbatim>\<open>storage/index.rs\<close>); documents and their stored
    form (\<^verbatim>\<open>storage/document.rs\<close>, \<^verbatim>\<open>storage/serializer.rs\<close>).
  \<^item> \<open>Keys\<close>, \<open>Store\<close>, \<open>Collection\<close>: the key layout; RocksDB as a record of operations with the law \<open>rocks_ok\<close>;
    the record \<open>collection\<close> and its metadata (\<^verbatim>\<open>storage/collection/core.rs\<close>, \<^verbatim>\<open>mod.rs\<close>).
  \<^item> \<open>Indexes\<close>, \<open>Upkeep\<close>, \<open>Crud\<close>: the entries each kind of index holds, as instances of one locale; vector
    and blob upkeep; the operations of \<^verbatim>\<open>storage/collection/crud.rs\<close>.
  \<^item> \<open>CrudInv\<close>, \<open>CrudCorrect\<close>, \<open>CollectionSpec\<close>, \<open>Batches\<close>: the invariant \<open>coll_inv\<close> (documents and index
    entries in step), and that each operation refines an update of a map from keys to documents.
  \<^item> \<open>Lookup\<close>, \<open>RangeScan\<close>, \<open>IndexAdmin\<close>, \<open>IndexBuild\<close>, \<open>MoreIndexes\<close>, \<open>TtlCleanup\<close>: queries of indexes, their
    creation and removal, and the clean-up of expired documents.
  \<^item> \<open>Transaction\<close>, \<open>TxManager\<close>, \<open>LockManager\<close>, \<open>CollectionTx\<close>: \<^verbatim>\<open>transaction/\<close> and
    \<^verbatim>\<open>storage/collection/txn.rs\<close>.
  \<^item> \<open>Engine\<close>, \<open>EngineTx\<close>, \<open>EngineDb\<close>: \<^verbatim>\<open>storage/engine.rs\<close> and \<^verbatim>\<open>storage/database.rs\<close>, with the commit over
    several collections and the life cycle of databases.
  \<^item> \<open>Hlc\<close>, \<open>VersionVector\<close>, \<open>Crdt\<close>, \<open>Conflict\<close>: \<^verbatim>\<open>cluster/hlc.rs\<close> and \<^verbatim>\<open>sync/\<close>.
  \<^item> \<open>SyncLog\<close>, \<open>SyncState\<close>, \<open>SyncWorker\<close> and their \<open>Correct\<close> theories: \<^verbatim>\<open>sync/log.rs\<close>, \<^verbatim>\<open>sync/state.rs\<close> and
    \<^verbatim>\<open>sync/worker.rs\<close>.
  \<^item> \<open>Delta\<close>, \<open>DeltaCorrect\<close>: \<^verbatim>\<open>sync/delta.rs\<close>; the patch between two values turns the first into the second.
  \<^item> \<open>Sharding\<close>, \<open>ShardingCorrect\<close>: \<^verbatim>\<open>sharding/router.rs\<close>, \<^verbatim>\<open>assignment.rs\<close> and \<^verbatim>\<open>distribution.rs\<close>; an assignment is
    well formed and balanced, and keys are routed to it.
  \<^item> \<open>SqlLexer\<close>, \<open>SqlStream\<close>, \<open>SqlParser\<close>, \<open>SqlTranslator\<close>: \<^verbatim>\<open>sql/\<close>. \<open>SqlParserCorrect\<close> shows that every text is
    parsed or rejected, \<open>SqlRoundtrip\<close> that expressions are read back from their text, and
    \<open>SqlTranslatorCorrect\<close> what the translation keeps and loses.
  \<^item> \<open>Authorization\<close>, \<open>RoleHandlers\<close>, \<open>ApiKeys\<close>: \<^verbatim>\<open>server/authorization.rs\<close>, \<^verbatim>\<open>permission_cache.rs\<close>,
    \<^verbatim>\<open>role_handlers.rs\<close> and the API keys of \<^verbatim>\<open>auth.rs\<close>, on top of \<open>Engine\<close> and \<open>SyncLog\<close>. \<open>AuthorizationCorrect\<close>
    shows what a check grants and that only administrators change roles and users.

  \<^bold>\<open>Conventions.\<close> A struct is a record, an enum a datatype, \<^verbatim>\<open>u64\<close> a 64-bit word that wraps as in a release
  build, a byte string or UTF-8 string a list of characters, a map whose order is irrelevant a sorted
  association list. A method takes the state and returns a result and the new state; an error is a value
  of \<open>db_error\<close>, and at the level of the engine a panic is a third outcome. What the code draws from the
  clock or a random generator is an argument (\<open>fresh\<close>). Foreign code (RocksDB, serde, bincode, chrono, the
  filters, JSON schema) is a field of the record \<open>env\<close>; the laws the theorems use of it are named
  hypotheses, and every witness instantiates them with the in-memory \<open>mem_rocks\<close> and demo codecs.
  Concurrency is modelled where the code relies on it: the critical sections of the lock manager and the
  loads and stores of the clock are steps that interleave.

  \<^bold>\<open>Bounds and fuel.\<close> Recursion is structural except where a \<open>termination\<close> proof follows the definition, such
  as the loop that cuts a page into batches. Only the SQL parser carries bounds: on the loops over lists
  and operators, and on the nesting of expressions, each one more than the number of tokens left; a
  theorem shows that they are never reached. Numbers keep the width of the
  source; hypotheses on sizes exclude only wrap-around.

  \<^bold>\<open>Not modelled.\<close> Geo distances, BM25 scores and the graph of vector indexes compute in floating point
  and are left out or parameters, and so is the columnar store. Network transport, timers and the
  background loops of worker and cluster are input and output, and with them the coordinator of shards
  and their migration, the table of members, sessions of clients and the clean-up of tombstones. SDBQL beyond its string literals, passwords, tokens and the other
  handlers of the server, scripting, the command line and the clients are outside this development.
\<close>

end
